theory Spec2Isabelle
  imports Main "HOL-Library.Word" "HOL-Library.AList" "HOL-Library.Sublist"
begin

chapter \<open>The embedding\<close>

section \<open>JavaScript strings\<close>

text \<open>
  A JavaScript string is a sequence of UTF-16 code units. The regular expression class
  \<^verbatim>\<open>\s\<close> (without the unicode flag) and \<^verbatim>\<open>String.prototype.trim\<close> use the same
  set of code units: ECMAScript WhiteSpace together with LineTerminator.
\<close>

type_synonym jschar = "16 word"
type_synonym jsstring = "jschar list"

definition js :: "string \<Rightarrow> jsstring" where
  "js s = map (\<lambda>c. of_nat (of_char c)) s"

definition sp :: jschar where
  "sp = 0x20"

definition nl :: jschar where
  "nl = 0x0A"

definition tab :: jschar where
  "tab = 0x09"

definition is_ws :: "jschar \<Rightarrow> bool" where
  "is_ws c \<longleftrightarrow>
     c = 0x09 \<or> c = 0x0A \<or> c = 0x0B \<or> c = 0x0C \<or> c = 0x0D \<or> c = 0x20 \<or> c = 0xA0 \<or>
     c = 0x1680 \<or> (0x2000 \<le> c \<and> c \<le> 0x200A) \<or> c = 0x2028 \<or> c = 0x2029 \<or>
     c = 0x202F \<or> c = 0x205F \<or> c = 0x3000 \<or> c = 0xFEFF"

text \<open>\<^verbatim>\<open>s.trim()\<close>: strip white space from both ends.\<close>

definition trim :: "jsstring \<Rightarrow> jsstring" where
  "trim s = rev (dropWhile is_ws (rev (dropWhile is_ws s)))"

text \<open>\<^verbatim>\<open>s.trimEnd()\<close>.\<close>

definition trimEnd :: "jsstring \<Rightarrow> jsstring" where
  "trimEnd s = rev (dropWhile is_ws (rev s))"

text \<open>
  \<^verbatim>\<open>s.replace(/\s+/g, ' ')\<close>: scanning from the left, every maximal run of white space
  is replaced by one space.
\<close>

function replace_ws_runs :: "jsstring \<Rightarrow> jsstring" where
  "replace_ws_runs [] = []"
| "replace_ws_runs (c # cs) =
     (if is_ws c then sp # replace_ws_runs (dropWhile is_ws cs)
      else c # replace_ws_runs cs)"
  by pat_completeness auto
termination
  by (relation "measure length") (auto simp: length_dropWhile_le less_Suc_eq_le)

section \<open>DiffEngine\<close>

text \<open>
  \<^verbatim>\<open>
  static hasSignificantChanges(original, modified) {
    const normalizedOriginal = original.replace(/\s+/g, ' ').trim();
    const normalizedModified = modified.replace(/\s+/g, ' ').trim();
    return normalizedOriginal !== normalizedModified;
  }
  \<close>
\<close>

definition hasSignificantChanges :: "jsstring \<Rightarrow> jsstring \<Rightarrow> bool" where
  "hasSignificantChanges original modified =
     (let normalizedOriginal = trim (replace_ws_runs original);
          normalizedModified = trim (replace_ws_runs modified)
      in normalizedOriginal \<noteq> normalizedModified)"

text \<open>
  The normal form in the words of the specification, written independently of the
  regular expression: the maximal runs of non-white-space code units of the string, in
  order, separated by exactly one space, with nothing before the first or after the last.
\<close>

function ws_words :: "jsstring \<Rightarrow> jsstring list" where
  "ws_words [] = []"
| "ws_words (c # cs) =
     (if is_ws c then ws_words cs
      else (c # takeWhile (\<lambda>x. \<not> is_ws x) cs) # ws_words (dropWhile (\<lambda>x. \<not> is_ws x) cs))"
  by pat_completeness auto
termination
  by (relation "measure length") (auto simp: length_dropWhile_le less_Suc_eq_le)

fun join_sp :: "jsstring list \<Rightarrow> jsstring" where
  "join_sp [] = []"
| "join_sp [w] = w"
| "join_sp (w # v # ws) = w @ sp # join_sp (v # ws)"

definition collapse_and_trim_spec :: "jsstring \<Rightarrow> jsstring" where
  "collapse_and_trim_spec s = join_sp (ws_words s)"


text \<open>
  JavaScript truthiness of a value of type \<^verbatim>\<open>string | undefined\<close>: \<^verbatim>\<open>undefined\<close> and the
  empty string are falsy. \<open>or_else a b\<close> is \<^verbatim>\<open>a || b\<close>.
\<close>

definition truthy :: "jsstring option \<Rightarrow> bool" where
  "truthy x = (case x of None \<Rightarrow> False | Some s \<Rightarrow> s \<noteq> [])"

definition or_else :: "jsstring option \<Rightarrow> jsstring option \<Rightarrow> jsstring option" where
  "or_else a b = (if truthy a then a else b)"

definition or_str :: "jsstring option \<Rightarrow> jsstring \<Rightarrow> jsstring" where
  "or_str a b = (case a of None \<Rightarrow> b | Some s \<Rightarrow> if s \<noteq> [] then s else b)"

text \<open>\<^verbatim>\<open>xs.join(sep)\<close>.\<close>

fun join :: "jsstring \<Rightarrow> jsstring list \<Rightarrow> jsstring" where
  "join sep [] = []"
| "join sep [x] = x"
| "join sep (x # y # ys) = x @ sep @ join sep (y # ys)"

text \<open>Decimal rendering of an integer, as a template literal renders an integral number.\<close>

definition digit :: "nat \<Rightarrow> jschar" where
  "digit d = of_nat (48 + d)"

function show_nat :: "nat \<Rightarrow> jsstring" where
  "show_nat n = (if n < 10 then [digit n] else show_nat (n div 10) @ [digit (n mod 10)])"
  by pat_completeness auto
termination
  by (relation "measure id") auto

declare show_nat.simps [simp del]

definition show_int :: "int \<Rightarrow> jsstring" where
  "show_int i = (if i < 0 then js ''-'' @ show_nat (nat (- i)) else show_nat (nat i))"

text \<open>\<^verbatim>\<open>value.split('\n').length - 1\<close>: the number of line feeds in the string.\<close>

definition count_nl :: "jsstring \<Rightarrow> nat" where
  "count_nl s = length (filter (\<lambda>c. c = nl) s)"

subsection \<open>Types of the SDK\<close>

datatype EditMode = AiPrompt | ManualWithReview | ManualOnly

datatype RegeneratableComponent = Pinax | Description | Cheimarros

datatype PromptTarget = Target RegeneratableComponent | General | Reorganization

fun component_name :: "RegeneratableComponent \<Rightarrow> jsstring" where
  "component_name Pinax = js ''pinax''"
| "component_name Description = js ''description''"
| "component_name Cheimarros = js ''cheimarros''"

record Entity =
  en_pi :: jsstring
  en_ver :: int
  en_ts :: jsstring
  en_manifest_cid :: jsstring
  en_components :: "jsstring \<rightharpoonup> jsstring"
  en_children_pi :: "jsstring list"
  en_parent_pi :: "jsstring option"
  en_note :: "jsstring option"

record EntityUpdate =
  eu_expect_tip :: jsstring
  eu_components :: "(jsstring \<times> jsstring) list option"
  eu_components_remove :: "jsstring list option"
  eu_note :: jsstring

record EntityVersion =
  ev_pi :: jsstring
  ev_tip :: jsstring
  ev_ver :: int

record EditScope =
  sc_components :: "RegeneratableComponent list"
  sc_cascade :: bool
  sc_stopAtPi :: "jsstring option"

record Correction =
  co_original :: jsstring
  co_corrected :: jsstring
  co_sourceFile :: "jsstring option"
  co_context :: "jsstring option"

datatype DiffType = Addition | Deletion | Change | Unchanged

record TextDiff =
  td_type :: DiffType
  td_original :: "jsstring option"
  td_modified :: "jsstring option"
  td_lineNumber :: "nat option"

record ComponentDiff =
  cd_componentName :: jsstring
  cd_diffs :: "TextDiff list"
  cd_summary :: jsstring
  cd_hasChanges :: bool

record EntityContext =
  ec_pi :: jsstring
  ec_ver :: int
  ec_parentPi :: "jsstring option"
  ec_childrenCount :: nat
  ec_currentContent :: "jsstring \<rightharpoonup> jsstring"

record CascadeContext =
  cc_path :: "jsstring list"
  cc_depth :: nat
  cc_stopAtPi :: "jsstring option"

subsection \<open>The external diff library\<close>

text \<open>
  \<^verbatim>\<open>Diff.diffLines\<close> and \<^verbatim>\<open>Diff.diffWords\<close> come from the npm package \<^verbatim>\<open>diff\<close>, which
  is not part of the repository. Both return a list of change objects with a \<^verbatim>\<open>value\<close>
  and the flags \<^verbatim>\<open>added\<close> and \<^verbatim>\<open>removed\<close>. The two functions are parameters of the
  model.
\<close>

record change =
  ch_value :: jsstring
  ch_added :: bool
  ch_removed :: bool

record jsdiff =
  diffLines :: "jsstring \<Rightarrow> jsstring \<Rightarrow> change list"
  diffWords :: "jsstring \<Rightarrow> jsstring \<Rightarrow> change list"

subsection \<open>DiffEngine.diff and DiffEngine.diffWords\<close>

fun diff_loop :: "change list \<Rightarrow> nat \<Rightarrow> TextDiff list" where
  "diff_loop [] lineNumber = []"
| "diff_loop (c # cs) lineNumber =
     (if ch_added c then
        \<lparr>td_type = Addition, td_original = None, td_modified = Some (trimEnd (ch_value c)),
         td_lineNumber = Some lineNumber\<rparr>
        # diff_loop cs (lineNumber + count_nl (ch_value c))
      else if ch_removed c then
        \<lparr>td_type = Deletion, td_original = Some (trimEnd (ch_value c)), td_modified = None,
         td_lineNumber = Some lineNumber\<rparr>
        # diff_loop cs lineNumber
      else diff_loop cs (lineNumber + count_nl (ch_value c)))"

definition diff :: "jsdiff \<Rightarrow> jsstring \<Rightarrow> jsstring \<Rightarrow> TextDiff list" where
  "diff lib original modified = diff_loop (diffLines lib original modified) 1"

fun diffWords_loop :: "change list \<Rightarrow> TextDiff list" where
  "diffWords_loop [] = []"
| "diffWords_loop (c # cs) =
     (if ch_added c then
        \<lparr>td_type = Addition, td_original = None, td_modified = Some (ch_value c),
         td_lineNumber = None\<rparr> # diffWords_loop cs
      else if ch_removed c then
        \<lparr>td_type = Deletion, td_original = Some (ch_value c), td_modified = None,
         td_lineNumber = None\<rparr> # diffWords_loop cs
      else diffWords_loop cs)"

definition diffWords_engine :: "jsdiff \<Rightarrow> jsstring \<Rightarrow> jsstring \<Rightarrow> TextDiff list" where
  "diffWords_engine lib original modified = diffWords_loop (diffWords lib original modified)"

subsection \<open>DiffEngine.createComponentDiff\<close>

definition plural :: "nat \<Rightarrow> jsstring" where
  "plural n = (if n > 1 then js ''s'' else [])"

definition createComponentDiff :: "jsdiff \<Rightarrow> jsstring \<Rightarrow> jsstring \<Rightarrow> jsstring \<Rightarrow> ComponentDiff" where
  "createComponentDiff lib componentName original modified =
     (let diffs = diff lib original modified;
          hasChanges = (length diffs > 0);
          summary =
            (if \<not> hasChanges then js ''No changes''
             else
               (let additions = length (filter (\<lambda>d. td_type d = Addition) diffs);
                    deletions = length (filter (\<lambda>d. td_type d = Deletion) diffs);
                    parts =
                      (if additions > 0
                       then [show_nat additions @ js '' addition'' @ plural additions] else []) @
                      (if deletions > 0
                       then [show_nat deletions @ js '' deletion'' @ plural deletions] else [])
                in join (js '', '') parts))
      in \<lparr>cd_componentName = componentName, cd_diffs = diffs, cd_summary = summary,
          cd_hasChanges = hasChanges\<rparr>)"

subsection \<open>DiffEngine.formatForPrompt and formatComponentDiffsForPrompt\<close>

definition arrow :: jsstring where
  "arrow = [0x2192]"

definition dq :: jsstring where
  "dq = [0x22]"

definition opt_str :: "jsstring option \<Rightarrow> jsstring" where
  "opt_str x = (case x of None \<Rightarrow> js ''undefined'' | Some s \<Rightarrow> s)"

definition formatLine :: "TextDiff \<Rightarrow> jsstring list" where
  "formatLine d =
     (let linePrefix =
            (case td_lineNumber d of
               None \<Rightarrow> []
             | Some n \<Rightarrow> if n \<noteq> 0 then js ''Line '' @ show_nat n @ js '': '' else [])
      in case td_type d of
           Addition \<Rightarrow> [linePrefix @ js ''+ '' @ opt_str (td_modified d)]
         | Deletion \<Rightarrow> [linePrefix @ js ''- '' @ opt_str (td_original d)]
         | Change \<Rightarrow>
             [linePrefix @ dq @ opt_str (td_original d) @ dq @ js '' '' @ arrow @ js '' '' @ dq @
              opt_str (td_modified d) @ dq]
         | Unchanged \<Rightarrow> [])"

definition formatForPrompt :: "TextDiff list \<Rightarrow> jsstring" where
  "formatForPrompt diffs =
     (if length diffs = 0 then js ''No changes detected.''
      else join [nl] (concat (map formatLine diffs)))"

definition formatSection :: "ComponentDiff \<Rightarrow> jsstring list" where
  "formatSection cd =
     (if \<not> cd_hasChanges cd then []
      else [js ''## Changes to '' @ cd_componentName cd @ js '':'',
            formatForPrompt (cd_diffs cd),
            []])"

definition formatComponentDiffsForPrompt :: "ComponentDiff list \<Rightarrow> jsstring" where
  "formatComponentDiffsForPrompt componentDiffs =
     join [nl] (concat (map formatSection componentDiffs))"

subsection \<open>DiffEngine.extractCorrections\<close>

text \<open>
  \<^verbatim>\<open>
  let i = 0;
  while (i < wordDiffs.length) {
    const current = wordDiffs[i];
    if (current.removed && i + 1 < wordDiffs.length && wordDiffs[i + 1].added) {
      const removed = current.value.trim();
      const added = wordDiffs[i + 1].value.trim();
      if (removed && added && removed !== added) {
        corrections.push({ original: removed, corrected: added, sourceFile });
      }
      i += 2;
    } else {
      i++;
    }
  }
  \<close>
  The loop is a recursion on the index \<open>i\<close>; the corrections pushed from index \<open>i\<close> on
  are returned in order.
\<close>

function extractCorrections_loop ::
  "change list \<Rightarrow> jsstring option \<Rightarrow> nat \<Rightarrow> Correction list" where
  "extractCorrections_loop wordDiffs sourceFile i =
     (if i < length wordDiffs then
        (let current = wordDiffs ! i in
         if ch_removed current \<and> i + 1 < length wordDiffs \<and> ch_added (wordDiffs ! (i + 1)) then
           (let removed = trim (ch_value current);
                added = trim (ch_value (wordDiffs ! (i + 1)))
            in (if removed \<noteq> [] \<and> added \<noteq> [] \<and> removed \<noteq> added
                then [\<lparr>co_original = removed, co_corrected = added,
                       co_sourceFile = sourceFile, co_context = None\<rparr>]
                else []) @ extractCorrections_loop wordDiffs sourceFile (i + 2))
         else extractCorrections_loop wordDiffs sourceFile (i + 1))
      else [])"
  by pat_completeness auto
termination
  by (relation "measure (\<lambda>(wordDiffs, sourceFile, i). length wordDiffs - i)") auto

declare extractCorrections_loop.simps [simp del]

definition extractCorrections ::
  "jsdiff \<Rightarrow> jsstring \<Rightarrow> jsstring \<Rightarrow> jsstring option \<Rightarrow> Correction list" where
  "extractCorrections lib original modified sourceFile =
     extractCorrections_loop (diffWords lib original modified) sourceFile 0"

text \<open>
  The scan in the words of the specification, on the list of records still to be read:
  a deletion immediately followed by an addition whose trimmed texts are both non-empty
  and different yields one correction and the scan moves past both records; at any other
  record the scan moves past that one record.
\<close>

definition qualifying_pair :: "change \<Rightarrow> change \<Rightarrow> bool" where
  "qualifying_pair d a \<longleftrightarrow>
     ch_removed d \<and> ch_added a \<and> trim (ch_value d) \<noteq> [] \<and> trim (ch_value a) \<noteq> [] \<and>
     trim (ch_value d) \<noteq> trim (ch_value a)"

fun scan_spec :: "change list \<Rightarrow> jsstring option \<Rightarrow> Correction list" where
  "scan_spec (d # a # rest) sourceLabel =
     (if qualifying_pair d a
      then \<lparr>co_original = trim (ch_value d), co_corrected = trim (ch_value a),
            co_sourceFile = sourceLabel, co_context = None\<rparr> # scan_spec rest sourceLabel
      else scan_spec (a # rest) sourceLabel)"
| "scan_spec [d] sourceLabel = []"
| "scan_spec [] sourceLabel = []"

definition adjacent_delete_add :: "change list \<Rightarrow> bool" where
  "adjacent_delete_add ws \<longleftrightarrow>
     (\<exists>i < length ws - 1. ch_removed (ws ! i) \<and> ch_added (ws ! (i + 1)))"

section \<open>PromptBuilder\<close>

definition bt3 :: jsstring where
  "bt3 = [0x60, 0x60, 0x60]"

text \<open>
  \<^verbatim>\<open>buildAIPrompt(userPrompt, component, entityContext, currentContent?)\<close>. The current
  content is cut with \<^verbatim>\<open>slice(0, 2000)\<close>.
\<close>

definition buildAIPrompt ::
  "jsstring \<Rightarrow> RegeneratableComponent \<Rightarrow> EntityContext \<Rightarrow> jsstring option \<Rightarrow> jsstring" where
  "buildAIPrompt userPrompt component entityContext currentContent =
     join [nl]
       ([js ''## Instructions for '' @ component_name component,
         userPrompt,
         [],
         js ''## Entity Context'',
         js ''- PI: '' @ ec_pi entityContext,
         js ''- Current version: '' @ show_int (ec_ver entityContext)] @
        (if truthy (ec_parentPi entityContext)
         then [js ''- Parent: '' @ opt_str (ec_parentPi entityContext)] else []) @
        (if ec_childrenCount entityContext > 0
         then [js ''- Children: '' @ show_nat (ec_childrenCount entityContext)] else []) @
        [[]] @
        (case currentContent of
           None \<Rightarrow> []
         | Some content \<Rightarrow>
             if content = [] then []
             else
               [js ''## Current '' @ component_name component @ js '' content for reference:'',
                bt3,
                take 2000 content] @
               (if length content > 2000 then [js ''... [truncated]''] else []) @
               [bt3]))"

definition correctionLine :: "Correction \<Rightarrow> jsstring" where
  "correctionLine correction =
     (let source = (if truthy (co_sourceFile correction)
                    then js '' (in '' @ opt_str (co_sourceFile correction) @ js '')'' else [])
      in js ''- '' @ dq @ co_original correction @ dq @ js '' '' @ arrow @ js '' '' @ dq @
         co_corrected correction @ dq @ source)"

fun reviewGuidance :: "RegeneratableComponent \<Rightarrow> jsstring" where
  "reviewGuidance Pinax =
     js ''Update metadata fields to reflect any corrections. Pay special attention to dates, '' @
     js ''names, and other factual information that may have been corrected.''"
| "reviewGuidance Description =
     js ''Regenerate the description incorporating the changes. Maintain the overall tone '' @
     js ''and structure while ensuring accuracy based on the corrections.''"
| "reviewGuidance Cheimarros =
     js ''Update the knowledge graph to reflect any new or corrected entities, relationships, '' @
     js ''and facts identified in the changes.''"

definition buildEditReviewPrompt ::
  "ComponentDiff list \<Rightarrow> Correction list \<Rightarrow> RegeneratableComponent \<Rightarrow> jsstring option \<Rightarrow> jsstring"
  where
  "buildEditReviewPrompt componentDiffs corrections component userInstructions =
     (let diffContent = formatComponentDiffsForPrompt componentDiffs
      in join [nl]
           ([js ''## Manual Edits Made'',
             [],
             js ''The following manual edits were made to this entity:'',
             []] @
            (if diffContent \<noteq> [] then [diffContent] else []) @
            (if length corrections > 0
             then [js ''## Corrections Identified'', []] @ map correctionLine corrections @ [[]]
             else []) @
            [js ''## Instructions''] @
            [if truthy userInstructions then opt_str userInstructions
             else js ''Update the '' @ component_name component @
                  js '' to accurately reflect these changes. '' @
                  js ''Ensure any corrections are incorporated and the content is consistent.''] @
            [[]] @
            [js ''## Guidance''] @
            [reviewGuidance component]))"

definition buildCascadePrompt :: "jsstring \<Rightarrow> CascadeContext \<Rightarrow> jsstring" where
  "buildCascadePrompt basePrompt cascadeContext =
     join [nl]
       ([basePrompt,
         [],
         js ''## Cascade Context'',
         [],
         js ''This edit is part of a cascading update. After updating this entity, '' @
         js ''parent entities will also be updated to reflect these changes.'',
         []] @
        (if length (cc_path cascadeContext) > 1
         then [js ''Cascade path: '' @ join (js '' '' @ arrow @ js '' '') (cc_path cascadeContext),
               js ''Depth: '' @ show_nat (cc_depth cascadeContext)]
         else []) @
        (if truthy (cc_stopAtPi cascadeContext)
         then [js ''Cascade will stop at: '' @ opt_str (cc_stopAtPi cascadeContext)] else []) @
        [[],
         js ''Ensure the content accurately represents the source material so parent '' @
         js ''aggregations will be correct.''])"

definition buildCombinedPrompt ::
  "jsstring option \<Rightarrow> jsstring option \<Rightarrow> RegeneratableComponent \<Rightarrow> jsstring" where
  "buildCombinedPrompt generalPrompt componentPrompt component =
     (let sections =
            (if truthy generalPrompt
             then [js ''## General Instructions'', opt_str generalPrompt, []] else []) @
            (if truthy componentPrompt
             then [js ''## Specific Instructions for '' @ component_name component,
                   opt_str componentPrompt, []]
             else [])
      in if length sections = 0
         then js ''Regenerate the '' @ component_name component @
              js '' based on the current entity content.''
         else join [nl] sections)"

definition correctionSentence :: "Correction \<Rightarrow> jsstring list" where
  "correctionSentence correction =
     (let source = (if truthy (co_sourceFile correction)
                    then js '' in '' @ opt_str (co_sourceFile correction) else [])
      in [js ''- '' @ dq @ co_original correction @ dq @ js '' was corrected to '' @ dq @
          co_corrected correction @ dq @ source] @
         (if truthy (co_context correction)
          then [js ''  Context: '' @ opt_str (co_context correction)] else []))"

definition buildCorrectionPrompt :: "Correction list \<Rightarrow> jsstring" where
  "buildCorrectionPrompt corrections =
     (if length corrections = 0 then []
      else join [nl]
             ([js ''## Corrections Applied'',
               [],
               js ''The following corrections were made to the source content:'',
               []] @
              concat (map correctionSentence corrections) @
              [[],
               js ''Update the metadata and description to reflect these corrections. '' @
               js ''Previous content may have contained errors based on the incorrect text.'']))"

section \<open>ArkeClient\<close>

subsection \<open>Requests, responses and the outside world\<close>

record CustomPrompts =
  cp_general :: "jsstring option"
  cp_pinax :: "jsstring option"
  cp_description :: "jsstring option"
  cp_cheimarros :: "jsstring option"
  cp_reorganization :: "jsstring option"

record ReprocessOptions =
  ro_stop_at_pi :: "jsstring option"
  ro_custom_prompts :: "CustomPrompts option"
  ro_custom_note :: "jsstring option"

record ReprocessRequest =
  rr_pi :: jsstring
  rr_phases :: "RegeneratableComponent list"
  rr_cascade :: bool
  rr_options :: "ReprocessOptions option"

record ReprocessResult =
  rres_batch_id :: jsstring
  rres_entities_queued :: int
  rres_entity_pis :: "jsstring list"
  rres_status_url :: jsstring

datatype ReprocessPhase =
  QUEUED | DISCOVERY | OCR_IN_PROGRESS | REORGANIZATION | PINAX_EXTRACTION |
  CHEIMARROS_EXTRACTION | DESCRIPTION | DONE | ERROR

record ReprocessProgress =
  directories_total :: int
  directories_pinax_complete :: int
  directories_cheimarros_complete :: int
  directories_description_complete :: int

record ReprocessStatus =
  rst_batch_id :: jsstring
  rst_status :: ReprocessPhase
  rst_progress :: ReprocessProgress
  rst_root_pi :: "jsstring option"
  rst_error :: "jsstring option"
  rst_started_at :: "jsstring option"
  rst_completed_at :: "jsstring option"

record UploadItem =
  up_cid :: jsstring
  up_name :: jsstring
  up_size :: int

text \<open>
  The body handed to \<^verbatim>\<open>fetch\<close> is kept as the value that the source serialises
  (\<^verbatim>\<open>JSON.stringify\<close> of the update or of the reprocess request, or the one-file form
  of an upload).
\<close>

datatype req_body =
    NoBody
  | UpdateBody EntityUpdate
  | ReprocessBody ReprocessRequest
  | UploadForm jsstring jsstring

record request =
  rq_url :: jsstring
  rq_method :: "jsstring option"
  rq_headers :: "(jsstring \<times> jsstring) list"
  rq_body :: req_body

text \<open>
  A response carries its status line, its body as text (\<^verbatim>\<open>response.text()\<close>) and the
  value \<^verbatim>\<open>response.json()\<close> decodes to. The source reads the decoded value without
  checking its shape; the embedding is typed, so a body that does not decode to the shape
  a call site reads is reported there as a native error.
\<close>

datatype json_body =
    NotJson
  | EntityJson Entity
  | UploadJson "UploadItem list"
  | VersionJson EntityVersion
  | ReprocessJson ReprocessResult
  | StatusJson ReprocessStatus
  | MessageJson "jsstring option"

record response =
  rs_status :: nat
  rs_statusText :: jsstring
  rs_text :: jsstring
  rs_json :: json_body

definition ok :: "response \<Rightarrow> bool" where
  "ok r \<longleftrightarrow> 200 \<le> rs_status r \<and> rs_status r \<le> 299"

text \<open>\<^verbatim>\<open>fetch\<close> either resolves with a response or rejects (a network-level failure).\<close>

datatype outcome = Responded response | Rejected jsstring

datatype EditPhase = Idle | Saving | Reprocessing | Complete | Failed

record EditStatus =
  es_phase :: EditPhase
  es_saveComplete :: bool
  es_reprocessStatus :: "ReprocessStatus option"
  es_error :: "jsstring option"

text \<open>
  Everything the code does to the outside is recorded, in order, in a trace: the requests
  it sends, the timers it waits for, and the calls of a progress callback. The outside is
  a parameter: what the remote side answers to a request, and what \<^verbatim>\<open>Date.now()\<close>
  reads, both as functions of what has happened so far.
\<close>

datatype event = Fetch request | Sleep nat | Progress EditStatus

type_synonym trace = "event list"

record env =
  respond :: "trace \<Rightarrow> request \<Rightarrow> outcome"
  now :: "trace \<Rightarrow> nat"

definition fetch :: "env \<Rightarrow> request \<Rightarrow> trace \<Rightarrow> outcome \<times> trace" where
  "fetch world rq tr = (respond world tr rq, tr @ [Fetch rq])"

definition sleep :: "nat \<Rightarrow> trace \<Rightarrow> trace" where
  "sleep ms tr = tr @ [Sleep ms]"

subsection \<open>Errors\<close>

datatype details = StatusDetails nat | CidStatusDetails jsstring nat

datatype error =
    ArkeEditError jsstring jsstring details
  | EntityNotFoundError jsstring
  | CASConflictError jsstring jsstring jsstring
  | ReprocessError jsstring
  | ValidationError jsstring
  | NativeError jsstring

subsection \<open>Construction\<close>

record ArkeClientConfig =
  cfg_ipfsWrapperUrl :: jsstring
  cfg_reprocessApiUrl :: jsstring
  cfg_authToken :: "jsstring option"
  cfg_statusUrlTransform :: "(jsstring \<Rightarrow> jsstring) option"

record ArkeClient =
  ipfsWrapperUrl :: jsstring
  reprocessApiUrl :: jsstring
  authToken :: "jsstring option"
  statusUrlTransform :: "(jsstring \<Rightarrow> jsstring) option"

text \<open>\<^verbatim>\<open>url.replace(/\/$/, '')\<close>: one trailing slash is removed.\<close>

definition strip_slash :: "jsstring \<Rightarrow> jsstring" where
  "strip_slash u = (if u \<noteq> [] \<and> last u = 0x2F then butlast u else u)"

definition ArkeClient_new :: "ArkeClientConfig \<Rightarrow> ArkeClient" where
  "ArkeClient_new config =
     \<lparr>ipfsWrapperUrl = strip_slash (cfg_ipfsWrapperUrl config),
      reprocessApiUrl = strip_slash (cfg_reprocessApiUrl config),
      authToken = cfg_authToken config,
      statusUrlTransform = cfg_statusUrlTransform config\<rparr>"

definition authHeader :: "ArkeClient \<Rightarrow> (jsstring \<times> jsstring) list" where
  "authHeader c =
     (if truthy (authToken c)
      then [(js ''Authorization'', js ''Bearer '' @ opt_str (authToken c))] else [])"

definition getHeaders :: "ArkeClient \<Rightarrow> (jsstring \<times> jsstring) list" where
  "getHeaders c = [(js ''Content-Type'', js ''application/json'')] @ authHeader c"

subsection \<open>fetchWithRetry\<close>

record RetryOptions =
  maxRetries :: nat
  initialDelayMs :: nat
  maxDelayMs :: nat
  backoffMultiplier :: nat

definition DEFAULT_RETRY_OPTIONS :: RetryOptions where
  "DEFAULT_RETRY_OPTIONS =
     \<lparr>maxRetries = 5, initialDelayMs = 2000, maxDelayMs = 30000, backoffMultiplier = 2\<rparr>"

text \<open>
  \<^verbatim>\<open>
  for (let attempt = 0; attempt <= retryOptions.maxRetries; attempt++) {
    try {
      const response = await fetch(url, options);
      if (response.status >= 500 && attempt < retryOptions.maxRetries) {
        lastError = new Error(`Server error: ${response.status} ${response.statusText}`);
        await this.sleep(delay);
        delay = Math.min(delay * retryOptions.backoffMultiplier, retryOptions.maxDelayMs);
        continue;
      }
      return response;
    } catch (error) {
      lastError = error as Error;
      if (attempt < retryOptions.maxRetries) {
        await this.sleep(delay);
        delay = Math.min(delay * retryOptions.backoffMultiplier, retryOptions.maxDelayMs);
      }
    }
  }
  throw lastError || new Error('Request failed after retries');
  \<close>
\<close>

function fetchWithRetry_loop ::
  "env \<Rightarrow> request \<Rightarrow> RetryOptions \<Rightarrow> nat \<Rightarrow> nat \<Rightarrow> error option \<Rightarrow> trace
   \<Rightarrow> (error + response) \<times> trace" where
  "fetchWithRetry_loop world rq retryOptions attempt delay lastError tr =
     (if attempt \<le> maxRetries retryOptions then
        (case fetch world rq tr of
           (Responded r, tr1) \<Rightarrow>
             if rs_status r \<ge> 500 \<and> attempt < maxRetries retryOptions then
               fetchWithRetry_loop world rq retryOptions (attempt + 1)
                 (min (delay * backoffMultiplier retryOptions) (maxDelayMs retryOptions))
                 (Some (NativeError (js ''Server error: '' @ show_nat (rs_status r) @ js '' '' @
                                     rs_statusText r)))
                 (sleep delay tr1)
             else (Inr r, tr1)
         | (Rejected m, tr1) \<Rightarrow>
             if attempt < maxRetries retryOptions then
               fetchWithRetry_loop world rq retryOptions (attempt + 1)
                 (min (delay * backoffMultiplier retryOptions) (maxDelayMs retryOptions))
                 (Some (NativeError m))
                 (sleep delay tr1)
             else
               fetchWithRetry_loop world rq retryOptions (attempt + 1) delay
                 (Some (NativeError m)) tr1)
      else
        (Inl (case lastError of
                Some e \<Rightarrow> e
              | None \<Rightarrow> NativeError (js ''Request failed after retries'')), tr))"
  by pat_completeness auto
termination
  by (relation "measure (\<lambda>(world, rq, retryOptions, attempt, delay, lastError, tr).
        Suc (maxRetries retryOptions) - attempt)") auto

declare fetchWithRetry_loop.simps [simp del]

definition fetchWithRetry ::
  "env \<Rightarrow> request \<Rightarrow> RetryOptions \<Rightarrow> trace \<Rightarrow> (error + response) \<times> trace" where
  "fetchWithRetry world rq retryOptions tr =
     fetchWithRetry_loop world rq retryOptions 0 (initialDelayMs retryOptions) None tr"

subsection \<open>The requests of the client\<close>

definition entityRequest :: "ArkeClient \<Rightarrow> jsstring \<Rightarrow> request" where
  "entityRequest c pi =
     \<lparr>rq_url = ipfsWrapperUrl c @ js ''/entities/'' @ pi, rq_method = None,
      rq_headers = getHeaders c, rq_body = NoBody\<rparr>"

definition contentRequest :: "ArkeClient \<Rightarrow> jsstring \<Rightarrow> request" where
  "contentRequest c cid =
     \<lparr>rq_url = ipfsWrapperUrl c @ js ''/cat/'' @ cid, rq_method = None,
      rq_headers = getHeaders c, rq_body = NoBody\<rparr>"

definition uploadRequest :: "ArkeClient \<Rightarrow> jsstring \<Rightarrow> jsstring \<Rightarrow> request" where
  "uploadRequest c content filename =
     \<lparr>rq_url = ipfsWrapperUrl c @ js ''/upload'', rq_method = Some (js ''POST''),
      rq_headers = authHeader c, rq_body = UploadForm content filename\<rparr>"

definition versionsRequest :: "ArkeClient \<Rightarrow> jsstring \<Rightarrow> EntityUpdate \<Rightarrow> request" where
  "versionsRequest c pi update =
     \<lparr>rq_url = ipfsWrapperUrl c @ js ''/entities/'' @ pi @ js ''/versions'',
      rq_method = Some (js ''POST''), rq_headers = getHeaders c,
      rq_body = UpdateBody update\<rparr>"

definition reprocessRequest :: "ArkeClient \<Rightarrow> ReprocessRequest \<Rightarrow> request" where
  "reprocessRequest c req =
     \<lparr>rq_url = reprocessApiUrl c @ js ''/api/reprocess'', rq_method = Some (js ''POST''),
      rq_headers = getHeaders c, rq_body = ReprocessBody req\<rparr>"

definition statusRequest :: "ArkeClient \<Rightarrow> jsstring \<Rightarrow> request" where
  "statusRequest c statusUrl =
     \<lparr>rq_url = (case statusUrlTransform c of Some f \<Rightarrow> f statusUrl | None \<Rightarrow> statusUrl),
      rq_method = None, rq_headers = getHeaders c, rq_body = NoBody\<rparr>"

subsection \<open>Entity store operations\<close>

definition getEntity :: "env \<Rightarrow> ArkeClient \<Rightarrow> jsstring \<Rightarrow> trace \<Rightarrow> (error + Entity) \<times> trace" where
  "getEntity world c pi tr =
     (case fetch world (entityRequest c pi) tr of
        (Rejected m, tr1) \<Rightarrow> (Inl (NativeError m), tr1)
      | (Responded r, tr1) \<Rightarrow>
          if rs_status r = 404 then (Inl (EntityNotFoundError pi), tr1)
          else if \<not> ok r then
            (Inl (ArkeEditError (js ''Failed to fetch entity: '' @ rs_statusText r)
                    (js ''FETCH_ERROR'') (StatusDetails (rs_status r))), tr1)
          else
            (case rs_json r of
               EntityJson e \<Rightarrow> (Inr e, tr1)
             | _ \<Rightarrow> (Inl (NativeError (js ''response.json()'')), tr1)))"

definition getContent :: "env \<Rightarrow> ArkeClient \<Rightarrow> jsstring \<Rightarrow> trace \<Rightarrow> (error + jsstring) \<times> trace" where
  "getContent world c cid tr =
     (case fetch world (contentRequest c cid) tr of
        (Rejected m, tr1) \<Rightarrow> (Inl (NativeError m), tr1)
      | (Responded r, tr1) \<Rightarrow>
          if \<not> ok r then
            (Inl (ArkeEditError (js ''Failed to fetch content: '' @ rs_statusText r)
                    (js ''FETCH_ERROR'') (CidStatusDetails cid (rs_status r))), tr1)
          else (Inr (rs_text r), tr1))"

definition uploadContent ::
  "env \<Rightarrow> ArkeClient \<Rightarrow> jsstring \<Rightarrow> jsstring \<Rightarrow> trace \<Rightarrow> (error + jsstring) \<times> trace" where
  "uploadContent world c content filename tr =
     (case fetch world (uploadRequest c content filename) tr of
        (Rejected m, tr1) \<Rightarrow> (Inl (NativeError m), tr1)
      | (Responded r, tr1) \<Rightarrow>
          if \<not> ok r then
            (Inl (ArkeEditError (js ''Failed to upload content: '' @ rs_statusText r)
                    (js ''UPLOAD_ERROR'') (StatusDetails (rs_status r))), tr1)
          else
            (case rs_json r of
               UploadJson (item # items) \<Rightarrow> (Inr (up_cid item), tr1)
             | _ \<Rightarrow> (Inl (NativeError (js ''result[0].cid'')), tr1)))"

text \<open>
  \<^verbatim>\<open>updateEntity\<close>: the compare-and-swap write. On status 409 the client fetches the
  entity once more to read the current tip and throws the conflict; an error of that
  fetch propagates in its place.
\<close>

definition updateEntity ::
  "env \<Rightarrow> ArkeClient \<Rightarrow> jsstring \<Rightarrow> EntityUpdate \<Rightarrow> trace \<Rightarrow> (error + EntityVersion) \<times> trace"
  where
  "updateEntity world c pi update tr =
     (case fetch world (versionsRequest c pi update) tr of
        (Rejected m, tr1) \<Rightarrow> (Inl (NativeError m), tr1)
      | (Responded r, tr1) \<Rightarrow>
          if rs_status r = 409 then
            (case getEntity world c pi tr1 of
               (Inl e, tr2) \<Rightarrow> (Inl e, tr2)
             | (Inr entity, tr2) \<Rightarrow>
                 (Inl (CASConflictError pi (eu_expect_tip update) (en_manifest_cid entity)), tr2))
          else if \<not> ok r then
            (Inl (ArkeEditError (js ''Failed to update entity: '' @ rs_statusText r)
                    (js ''UPDATE_ERROR'') (StatusDetails (rs_status r))), tr1)
          else
            (case rs_json r of
               VersionJson v \<Rightarrow> (Inr v, tr1)
             | _ \<Rightarrow> (Inl (NativeError (js ''response.json()'')), tr1)))"

subsection \<open>Reprocess API operations\<close>

definition reprocess ::
  "env \<Rightarrow> ArkeClient \<Rightarrow> ReprocessRequest \<Rightarrow> trace \<Rightarrow> (error + ReprocessResult) \<times> trace" where
  "reprocess world c req tr =
     (case fetch world (reprocessRequest c req) tr of
        (Rejected m, tr1) \<Rightarrow> (Inl (NativeError m), tr1)
      | (Responded r, tr1) \<Rightarrow>
          if \<not> ok r then
            (let message = (case rs_json r of MessageJson m \<Rightarrow> m | _ \<Rightarrow> None)
             in (Inl (ReprocessError
                        (or_str message (js ''Reprocess failed: '' @ rs_statusText r))), tr1))
          else
            (case rs_json r of
               ReprocessJson res \<Rightarrow> (Inr res, tr1)
             | _ \<Rightarrow> (Inl (NativeError (js ''response.json()'')), tr1)))"

definition getReprocessStatus ::
  "env \<Rightarrow> ArkeClient \<Rightarrow> jsstring \<Rightarrow> bool \<Rightarrow> trace \<Rightarrow> (error + ReprocessStatus) \<times> trace" where
  "getReprocessStatus world c statusUrl isFirstPoll tr =
     (let retryOptions = (if isFirstPoll then DEFAULT_RETRY_OPTIONS\<lparr>initialDelayMs := 3000\<rparr>
                          else DEFAULT_RETRY_OPTIONS)
      in case fetchWithRetry world (statusRequest c statusUrl) retryOptions tr of
           (Inl e, tr1) \<Rightarrow> (Inl e, tr1)
         | (Inr r, tr1) \<Rightarrow>
             if \<not> ok r then
               (Inl (ArkeEditError (js ''Failed to fetch reprocess status: '' @ rs_statusText r)
                       (js ''STATUS_ERROR'') (StatusDetails (rs_status r))), tr1)
             else
               (case rs_json r of
                  StatusJson st \<Rightarrow> (Inr st, tr1)
                | _ \<Rightarrow> (Inl (NativeError (js ''response.json()'')), tr1)))"

text \<open>
  What \<^verbatim>\<open>updateEntity\<close> throws after a 409, read off the outcome of the follow-up
  \<^verbatim>\<open>getEntity\<close> request.
\<close>

definition conflict_error :: "jsstring \<Rightarrow> jsstring \<Rightarrow> outcome \<Rightarrow> error" where
  "conflict_error pi expectedTip followUp =
     (case followUp of
        Rejected m \<Rightarrow> NativeError m
      | Responded g \<Rightarrow>
          if rs_status g = 404 then EntityNotFoundError pi
          else if \<not> ok g then
            ArkeEditError (js ''Failed to fetch entity: '' @ rs_statusText g) (js ''FETCH_ERROR'')
              (StatusDetails (rs_status g))
          else
            (case rs_json g of
               EntityJson entity \<Rightarrow> CASConflictError pi expectedTip (en_manifest_cid entity)
             | _ \<Rightarrow> NativeError (js ''response.json()'')))"

definition is_CASConflictError :: "error \<Rightarrow> bool" where
  "is_CASConflictError e = (case e of CASConflictError pi expectedTip actualTip \<Rightarrow> True | _ \<Rightarrow> False)"

subsection \<open>The retry policy of the status poll, in closed form\<close>

text \<open>
  \<open>retry_events rq base k\<close> is what \<open>k\<close> failed attempts leave in the trace: each the
  request followed by a wait, the waits starting at \<open>base\<close> milliseconds, doubling, and
  capped at 30 seconds. An outcome is transient when the retry loop would try again after
  it: a network-level failure, or a response with a status of 500 or more.
  \<open>status_result\<close> is what \<^verbatim>\<open>getReprocessStatus\<close> makes of the outcome of the last
  attempt.
\<close>

definition base_delay :: "bool \<Rightarrow> nat" where
  "base_delay isFirstPoll = (if isFirstPoll then 3000 else 2000)"

definition retry_events :: "request \<Rightarrow> nat \<Rightarrow> nat \<Rightarrow> event list" where
  "retry_events rq base k =
     concat (map (\<lambda>j. [Fetch rq, Sleep (min (base * 2 ^ j) 30000)]) [0..<k])"

definition transient :: "outcome \<Rightarrow> bool" where
  "transient out = (case out of Rejected m \<Rightarrow> True | Responded r \<Rightarrow> rs_status r \<ge> 500)"

definition retry_result :: "outcome \<Rightarrow> error + response" where
  "retry_result out = (case out of Responded r \<Rightarrow> Inr r | Rejected m \<Rightarrow> Inl (NativeError m))"

definition status_result :: "outcome \<Rightarrow> error + ReprocessStatus" where
  "status_result out =
     (case out of
        Rejected m \<Rightarrow> Inl (NativeError m)
      | Responded r \<Rightarrow>
          if \<not> ok r then
            Inl (ArkeEditError (js ''Failed to fetch reprocess status: '' @ rs_statusText r)
                   (js ''STATUS_ERROR'') (StatusDetails (rs_status r)))
          else
            (case rs_json r of
               StatusJson st \<Rightarrow> Inr st
             | _ \<Rightarrow> Inl (NativeError (js ''response.json()''))))"

definition is_ArkeEditError :: "error \<Rightarrow> bool" where
  "is_ArkeEditError e = (case e of ArkeEditError message code det \<Rightarrow> True | _ \<Rightarrow> False)"

section \<open>EditSession\<close>

subsection \<open>Plain objects used as dictionaries\<close>

text \<open>
  \<^verbatim>\<open>loadedComponents\<close> and \<^verbatim>\<open>editedContent\<close> are plain objects created by \<^verbatim>\<open>{}\<close> and
  read and written with a component name chosen by the caller. Reading \<^verbatim>\<open>obj[name]\<close>
  gives the own property when there is one; otherwise, for the names that
  \<^verbatim>\<open>Object.prototype\<close> defines, it gives the inherited member, which is a function (or,
  for \<^verbatim>\<open>__proto__\<close>, the prototype object): a truthy value that is not a string;
  otherwise it gives \<^verbatim>\<open>undefined\<close>.
\<close>

definition object_prototype_names :: "jsstring list" where
  "object_prototype_names =
     [js ''constructor'', js ''__defineGetter__'', js ''__defineSetter__'', js ''hasOwnProperty'',
      js ''__lookupGetter__'', js ''__lookupSetter__'', js ''isPrototypeOf'',
      js ''propertyIsEnumerable'', js ''toString'', js ''valueOf'', js ''__proto__'',
      js ''toLocaleString'']"

datatype jsprop = Undefined | Str jsstring | Inherited

definition get_prop :: "(jsstring \<rightharpoonup> jsstring) \<Rightarrow> jsstring \<Rightarrow> jsprop" where
  "get_prop obj name =
     (case obj name of
        Some v \<Rightarrow> Str v
      | None \<Rightarrow> if name \<in> set object_prototype_names then Inherited else Undefined)"

text \<open>\<^verbatim>\<open>value || ''\<close>: \<^verbatim>\<open>undefined\<close> and the empty string give the empty string.\<close>

definition or_empty :: "jsprop \<Rightarrow> jsprop" where
  "or_empty p = (case p of Undefined \<Rightarrow> Str [] | Str v \<Rightarrow> Str v | Inherited \<Rightarrow> Inherited)"

definition str_of :: "jsprop \<Rightarrow> jsstring" where
  "str_of p = (case p of Str v \<Rightarrow> v | _ \<Rightarrow> [])"

text \<open>
  The call \<^verbatim>\<open>DiffEngine.hasSignificantChanges(original, modified)\<close> at a call site where
  \<^verbatim>\<open>original\<close> was read from such an object. The function begins with
  \<^verbatim>\<open>original.replace(...)\<close>, which throws a \<^verbatim>\<open>TypeError\<close> when \<^verbatim>\<open>original\<close> is not a
  string.
\<close>

definition hasSignificantChanges_js :: "jsprop \<Rightarrow> jsstring \<Rightarrow> error + bool" where
  "hasSignificantChanges_js original modified =
     (case original of
        Str v \<Rightarrow> Inr (hasSignificantChanges v modified)
      | Inherited \<Rightarrow> Inl (NativeError (js ''TypeError: original.replace is not a function''))
      | Undefined \<Rightarrow>
          Inl (NativeError
                 (js ''TypeError: Cannot read properties of undefined (reading replace)'')))"

text \<open>
  The assignment \<^verbatim>\<open>obj[name] = value\<close> of a string creates or updates the own property
  \<open>name\<close>, except for the name \<^verbatim>\<open>__proto__\<close>: unless the object has an own property
  of that name, the assignment reaches the setter of \<^verbatim>\<open>Object.prototype\<close>, which
  ignores a string. \<^verbatim>\<open>delete obj[name]\<close> removes an own property. The list keeps the
  own properties in the order of their creation.
\<close>

definition assign_prop ::
  "jsstring \<Rightarrow> jsstring \<Rightarrow> (jsstring \<times> jsstring) list \<Rightarrow> (jsstring \<times> jsstring) list" where
  "assign_prop name v obj =
     (if name = js ''__proto__'' \<and> name \<notin> fst ` set obj then obj else AList.update name v obj)"

definition delete_prop ::
  "jsstring \<Rightarrow> (jsstring \<times> jsstring) list \<Rightarrow> (jsstring \<times> jsstring) list" where
  "delete_prop name obj = AList.delete name obj"

text \<open>
  \<^verbatim>\<open>Object.entries(obj)\<close> lists the own properties whose name is an array index (the
  canonical decimal form of an integer from 0 to 4294967294) first, in ascending
  numeric order, and then the others in the order of their creation.
\<close>

fun digits_value :: "jsstring \<Rightarrow> nat \<Rightarrow> nat option" where
  "digits_value [] acc = Some acc"
| "digits_value (c # cs) acc =
     (if 0x30 \<le> c \<and> c \<le> 0x39 then digits_value cs (10 * acc + (unat c - 48)) else None)"

definition array_index :: "jsstring \<Rightarrow> nat option" where
  "array_index k =
     (if k = [] \<or> (hd k = 0x30 \<and> length k > 1) then None
      else (case digits_value k 0 of
              None \<Rightarrow> None
            | Some n \<Rightarrow> if n \<le> 4294967294 then Some n else None))"

definition object_entries :: "(jsstring \<times> jsstring) list \<Rightarrow> (jsstring \<times> jsstring) list" where
  "object_entries obj =
     sort_key (\<lambda>entry. case array_index (fst entry) of Some n \<Rightarrow> n | None \<Rightarrow> 0)
       (filter (\<lambda>entry. array_index (fst entry) \<noteq> None) obj) @
     filter (\<lambda>entry. array_index (fst entry) = None) obj"

subsection \<open>State of a session\<close>

record SaveResult =
  sv_pi :: jsstring
  sv_newVersion :: int
  sv_newTip :: jsstring

record EditResult =
  er_saved :: "SaveResult option"
  er_reprocess :: "ReprocessResult option"

record PollOptions =
  po_intervalMs :: "nat option"
  po_timeoutMs :: "nat option"
  po_onProgress :: bool

record EditSessionConfig =
  cfg_mode :: EditMode
  cfg_aiReviewEnabled :: "bool option"

record PartialScope =
  ps_components :: "RegeneratableComponent list option"
  ps_cascade :: "bool option"
  ps_stopAtPi :: "jsstring option option"

text \<open>
  \<^verbatim>\<open>DEFAULT_SCOPE\<close> is one object of the module, and \<^verbatim>\<open>{ ...DEFAULT_SCOPE }\<close> gives
  every new session that object's \<^verbatim>\<open>components\<close> array itself, not a copy of it. The
  array is created empty and the SDK never writes to it, but it is handed out by
  \<^verbatim>\<open>getScope\<close>, so a caller can. What the array holds when a session is constructed is
  therefore a parameter.
\<close>

definition DEFAULT_SCOPE :: "RegeneratableComponent list \<Rightarrow> EditScope" where
  "DEFAULT_SCOPE shared = \<lparr>sc_components = shared, sc_cascade = False, sc_stopAtPi = None\<rparr>"

definition DEFAULT_intervalMs :: nat where
  "DEFAULT_intervalMs = 2000"

definition DEFAULT_timeoutMs :: nat where
  "DEFAULT_timeoutMs = 300000"

text \<open>
  The fields of the class. \<open>ss_entity = None\<close> is \<^verbatim>\<open>entity === null\<close>, the session
  before \<^verbatim>\<open>load()\<close>. \<open>ss_loadedComponents\<close> and \<open>ss_editedContent\<close> hold the own
  properties of the two plain objects, the second in the order of their creation.
  \<open>ss_prompts\<close> is only ever read and written with the five names of a prompt target,
  none of which \<^verbatim>\<open>Object.prototype\<close> defines.
\<close>

record session =
  ss_pi :: jsstring
  ss_mode :: EditMode
  ss_aiReviewEnabled :: bool
  ss_client :: ArkeClient
  ss_entity :: "Entity option"
  ss_loadedComponents :: "jsstring \<rightharpoonup> jsstring"
  ss_prompts :: "PromptTarget \<rightharpoonup> jsstring"
  ss_editedContent :: "(jsstring \<times> jsstring) list"
  ss_corrections :: "Correction list"
  ss_scope :: EditScope
  ss_submitting :: bool
  ss_result :: "EditResult option"
  ss_statusUrl :: "jsstring option"

definition EditSession_new ::
  "ArkeClient \<Rightarrow> jsstring \<Rightarrow> EditSessionConfig option \<Rightarrow> RegeneratableComponent list \<Rightarrow> session"
  where
  "EditSession_new client pi config shared =
     \<lparr>ss_pi = pi,
      ss_mode = (case config of None \<Rightarrow> AiPrompt | Some cfg \<Rightarrow> cfg_mode cfg),
      ss_aiReviewEnabled =
        (case config of
           None \<Rightarrow> True
         | Some cfg \<Rightarrow> (case cfg_aiReviewEnabled cfg of None \<Rightarrow> True | Some b \<Rightarrow> b)),
      ss_client = client,
      ss_entity = None,
      ss_loadedComponents = Map.empty,
      ss_prompts = Map.empty,
      ss_editedContent = [],
      ss_corrections = [],
      ss_scope = DEFAULT_SCOPE shared,
      ss_submitting = False,
      ss_result = None,
      ss_statusUrl = None\<rparr>"

subsection \<open>Loading\<close>

text \<open>
  \<^verbatim>\<open>load()\<close> is the only method that assigns \<^verbatim>\<open>this.entity\<close>, so a session is loaded
  exactly when \<open>ss_entity\<close> is not \<open>None\<close>. The methods below that need the entity test
  the field in this way.
\<close>

definition session_getEntity :: "session \<Rightarrow> error + Entity" where
  "session_getEntity s =
     (case ss_entity s of
        None \<Rightarrow> Inl (ValidationError (js ''Session not loaded. Call load() first.''))
      | Some ent \<Rightarrow> Inr ent)"

subsection \<open>Configuration\<close>

definition setPrompt :: "session \<Rightarrow> PromptTarget \<Rightarrow> jsstring \<Rightarrow> error + session" where
  "setPrompt s target prompt =
     (if ss_mode s = ManualOnly
      then Inl (ValidationError (js ''Cannot set prompts in manual-only mode''))
      else Inr (s\<lparr>ss_prompts := (ss_prompts s)(target \<mapsto> prompt)\<rparr>))"

definition clearPrompt :: "session \<Rightarrow> PromptTarget \<Rightarrow> error + session" where
  "clearPrompt s target = Inr (s\<lparr>ss_prompts := (ss_prompts s)(target := None)\<rparr>)"

definition setContent :: "session \<Rightarrow> jsstring \<Rightarrow> jsstring \<Rightarrow> error + session" where
  "setContent s componentName content =
     (if ss_mode s = AiPrompt
      then Inl (ValidationError (js ''Cannot set content in ai-prompt mode''))
      else Inr (s\<lparr>ss_editedContent := assign_prop componentName content (ss_editedContent s)\<rparr>))"

definition clearContent :: "session \<Rightarrow> jsstring \<Rightarrow> error + session" where
  "clearContent s componentName =
     Inr (s\<lparr>ss_editedContent := delete_prop componentName (ss_editedContent s)\<rparr>)"

definition addCorrection ::
  "session \<Rightarrow> jsstring \<Rightarrow> jsstring \<Rightarrow> jsstring option \<Rightarrow> error + session" where
  "addCorrection s original corrected sourceFile =
     Inr (s\<lparr>ss_corrections := ss_corrections s @
             [\<lparr>co_original = original, co_corrected = corrected, co_sourceFile = sourceFile,
               co_context = None\<rparr>]\<rparr>)"

definition clearCorrections :: "session \<Rightarrow> error + session" where
  "clearCorrections s = Inr (s\<lparr>ss_corrections := []\<rparr>)"

text \<open>\<^verbatim>\<open>this.scope = { ...this.scope, ...scope }\<close>: the properties present in the argument win.\<close>

definition setScope :: "session \<Rightarrow> PartialScope \<Rightarrow> error + session" where
  "setScope s scope =
     Inr (s\<lparr>ss_scope :=
            \<lparr>sc_components = (case ps_components scope of None \<Rightarrow> sc_components (ss_scope s)
                                | Some cs \<Rightarrow> cs),
             sc_cascade = (case ps_cascade scope of None \<Rightarrow> sc_cascade (ss_scope s)
                             | Some b \<Rightarrow> b),
             sc_stopAtPi = (case ps_stopAtPi scope of None \<Rightarrow> sc_stopAtPi (ss_scope s)
                              | Some p \<Rightarrow> p)\<rparr>\<rparr>)"

subsection \<open>Preview\<close>

text \<open>
  \<^verbatim>\<open>
  for (const [name, edited] of Object.entries(this.editedContent)) {
    const original = this.loadedComponents[name] || '';
    if (DiffEngine.hasSignificantChanges(original, edited)) {
      diffs.push(DiffEngine.createComponentDiff(name, original, edited));
    }
  }
  \<close>
\<close>

definition getDiffEntry ::
  "jsdiff \<Rightarrow> (jsstring \<rightharpoonup> jsstring) \<Rightarrow> jsstring \<times> jsstring \<Rightarrow> error + ComponentDiff list"
  where
  "getDiffEntry lib loaded entry =
     (case entry of (name, edited) \<Rightarrow>
        (let original = or_empty (get_prop loaded name)
         in case hasSignificantChanges_js original edited of
              Inl e \<Rightarrow> Inl e
            | Inr significant \<Rightarrow>
                Inr (if significant
                     then [createComponentDiff lib name (str_of original) edited] else [])))"

fun getDiff_loop ::
  "jsdiff \<Rightarrow> (jsstring \<rightharpoonup> jsstring) \<Rightarrow> (jsstring \<times> jsstring) list \<Rightarrow> ComponentDiff list
   \<Rightarrow> error + ComponentDiff list" where
  "getDiff_loop lib loaded [] diffs = Inr diffs"
| "getDiff_loop lib loaded (entry # entries) diffs =
     (case getDiffEntry lib loaded entry of
        Inl e \<Rightarrow> Inl e
      | Inr found \<Rightarrow> getDiff_loop lib loaded entries (diffs @ found))"

definition getDiff :: "jsdiff \<Rightarrow> session \<Rightarrow> error + ComponentDiff list" where
  "getDiff lib s =
     getDiff_loop lib (ss_loadedComponents s) (object_entries (ss_editedContent s)) []"

text \<open>
  \<^verbatim>\<open>previewPrompt()\<close>. For each component of the scope the prompt is composed according to
  the mode and then, when the scope cascades, extended by the cascade appendix. The two
  lookups of the current content use the fixed names \<^verbatim>\<open>pinax.json\<close>, \<^verbatim>\<open>pinax.md\<close>
  and so on, none of which \<^verbatim>\<open>Object.prototype\<close> defines.
\<close>

definition entityContextOf :: "session \<Rightarrow> Entity \<Rightarrow> EntityContext" where
  "entityContextOf s ent =
     \<lparr>ec_pi = en_pi ent, ec_ver = en_ver ent, ec_parentPi = en_parent_pi ent,
      ec_childrenCount = length (en_children_pi ent),
      ec_currentContent = ss_loadedComponents s\<rparr>"

definition currentContentOf :: "session \<Rightarrow> RegeneratableComponent \<Rightarrow> jsstring option" where
  "currentContentOf s component =
     or_else (ss_loadedComponents s (component_name component @ js ''.json''))
             (ss_loadedComponents s (component_name component @ js ''.md''))"

definition previewBody ::
  "jsdiff \<Rightarrow> session \<Rightarrow> Entity \<Rightarrow> RegeneratableComponent \<Rightarrow> error + jsstring" where
  "previewBody lib s ent component =
     (if ss_mode s = AiPrompt then
        (let componentPrompt = ss_prompts s (Target component);
             generalPrompt = ss_prompts s General;
             combined = buildCombinedPrompt generalPrompt componentPrompt component
         in Inr (buildAIPrompt combined component (entityContextOf s ent)
                   (currentContentOf s component)))
      else
        (case getDiff lib s of
           Inl e \<Rightarrow> Inl e
         | Inr diffs \<Rightarrow>
             (let userInstructions =
                    or_else (ss_prompts s General) (ss_prompts s (Target component))
              in Inr (buildEditReviewPrompt diffs (ss_corrections s) component
                        userInstructions))))"

definition withCascade :: "session \<Rightarrow> Entity \<Rightarrow> jsstring \<Rightarrow> jsstring" where
  "withCascade s ent prompt =
     (if sc_cascade (ss_scope s) then
        buildCascadePrompt prompt
          \<lparr>cc_path = filter (\<lambda>p. p \<noteq> []) [en_pi ent, or_str (en_parent_pi ent) (js ''root'')],
           cc_depth = 0,
           cc_stopAtPi = sc_stopAtPi (ss_scope s)\<rparr>
      else prompt)"

fun previewPrompt_loop ::
  "jsdiff \<Rightarrow> session \<Rightarrow> Entity \<Rightarrow> RegeneratableComponent list
   \<Rightarrow> (RegeneratableComponent \<rightharpoonup> jsstring) \<Rightarrow> error + (RegeneratableComponent \<rightharpoonup> jsstring)"
  where
  "previewPrompt_loop lib s ent [] result = Inr result"
| "previewPrompt_loop lib s ent (component # components) result =
     (case previewBody lib s ent component of
        Inl e \<Rightarrow> Inl e
      | Inr prompt \<Rightarrow>
          previewPrompt_loop lib s ent components
            (result(component \<mapsto> withCascade s ent prompt)))"

definition previewPrompt ::
  "jsdiff \<Rightarrow> session \<Rightarrow> error + (RegeneratableComponent \<rightharpoonup> jsstring)" where
  "previewPrompt lib s =
     (case ss_entity s of
        None \<Rightarrow> Inr Map.empty
      | Some ent \<Rightarrow> previewPrompt_loop lib s ent (sc_components (ss_scope s)) Map.empty)"

subsection \<open>Submit\<close>

definition keep_truthy :: "jsstring option \<Rightarrow> jsstring option" where
  "keep_truthy x = (if truthy x then x else None)"

text \<open>
  \<^verbatim>\<open>buildCustomPrompts()\<close>. In ai-prompt mode the stored prompts go to the request as they
  are; in the other modes the \<^verbatim>\<open>general\<close> entry is put together from the diffs, the
  corrections and the general prompt.
\<close>

definition manualGeneralPrompt ::
  "ComponentDiff list \<Rightarrow> Correction list \<Rightarrow> jsstring option \<Rightarrow> jsstring option" where
  "manualGeneralPrompt diffs corrections generalPrompt =
     (if length diffs > 0 \<or> length corrections > 0 then
        (let diffContext = formatComponentDiffsForPrompt diffs;
             correctionContext = buildCorrectionPrompt corrections;
             basePrompt =
               join [nl, nl]
                 (filter (\<lambda>p. p \<noteq> [])
                    [diffContext, correctionContext, or_str generalPrompt []])
         in if basePrompt \<noteq> [] then Some basePrompt else None)
      else None)"

definition buildCustomPrompts :: "jsdiff \<Rightarrow> session \<Rightarrow> error + CustomPrompts" where
  "buildCustomPrompts lib s =
     (if ss_mode s = AiPrompt then
        Inr \<lparr>cp_general = keep_truthy (ss_prompts s General),
             cp_pinax = keep_truthy (ss_prompts s (Target Pinax)),
             cp_description = keep_truthy (ss_prompts s (Target Description)),
             cp_cheimarros = keep_truthy (ss_prompts s (Target Cheimarros)),
             cp_reorganization = None\<rparr>
      else
        (case getDiff lib s of
           Inl e \<Rightarrow> Inl e
         | Inr diffs \<Rightarrow>
             Inr \<lparr>cp_general =
                    manualGeneralPrompt diffs (ss_corrections s) (ss_prompts s General),
                  cp_pinax = keep_truthy (ss_prompts s (Target Pinax)),
                  cp_description = keep_truthy (ss_prompts s (Target Description)),
                  cp_cheimarros = keep_truthy (ss_prompts s (Target Cheimarros)),
                  cp_reorganization = None\<rparr>))"

text \<open>The upload loop of phase 1 over \<^verbatim>\<open>Object.entries(this.editedContent)\<close>.\<close>

fun upload_loop ::
  "env \<Rightarrow> ArkeClient \<Rightarrow> (jsstring \<rightharpoonup> jsstring) \<Rightarrow> (jsstring \<times> jsstring) list
   \<Rightarrow> (jsstring \<times> jsstring) list \<Rightarrow> trace
   \<Rightarrow> (error + (jsstring \<times> jsstring) list) \<times> trace" where
  "upload_loop world c loaded [] componentUpdates tr = (Inr componentUpdates, tr)"
| "upload_loop world c loaded ((name, content) # entries) componentUpdates tr =
     (let original = or_empty (get_prop loaded name)
      in case hasSignificantChanges_js original content of
           Inl e \<Rightarrow> (Inl e, tr)
         | Inr significant \<Rightarrow>
             if significant then
               (case uploadContent world c content name tr of
                  (Inl e, tr1) \<Rightarrow> (Inl e, tr1)
                | (Inr cid, tr1) \<Rightarrow>
                    upload_loop world c loaded entries (assign_prop name cid componentUpdates)
                      tr1)
             else upload_loop world c loaded entries componentUpdates tr)"

definition phase1_update :: "Entity \<Rightarrow> (jsstring \<times> jsstring) list \<Rightarrow> jsstring \<Rightarrow> EntityUpdate" where
  "phase1_update ent componentUpdates note =
     \<lparr>eu_expect_tip = en_manifest_cid ent,
      eu_components = Some componentUpdates,
      eu_components_remove = None,
      eu_note = note\<rparr>"

definition submit_phase1 ::
  "env \<Rightarrow> jsdiff \<Rightarrow> session \<Rightarrow> Entity \<Rightarrow> jsstring \<Rightarrow> trace \<Rightarrow> (error + unit) \<times> session \<times> trace"
  where
  "submit_phase1 world lib s ent note tr =
     (case getDiff lib s of
        Inl e \<Rightarrow> (Inl e, s, tr)
      | Inr diffs \<Rightarrow>
          (let hasManualEdits = (\<exists>d \<in> set diffs. cd_hasChanges d)
           in if hasManualEdits then
                (case upload_loop world (ss_client s) (ss_loadedComponents s)
                        (object_entries (ss_editedContent s)) [] tr of
                   (Inl e, tr1) \<Rightarrow> (Inl e, s, tr1)
                 | (Inr componentUpdates, tr1) \<Rightarrow>
                     (case updateEntity world (ss_client s) (ss_pi s)
                             (phase1_update ent componentUpdates note) tr1 of
                        (Inl e, tr2) \<Rightarrow> (Inl e, s, tr2)
                      | (Inr version, tr2) \<Rightarrow>
                          (Inr (),
                           s\<lparr>ss_result :=
                               Some ((case ss_result s of
                                        Some res \<Rightarrow> res
                                      | None \<Rightarrow> \<lparr>er_saved = None, er_reprocess = None\<rparr>)
                                     \<lparr>er_saved := Some \<lparr>sv_pi = ev_pi version,
                                                         sv_newVersion = ev_ver version,
                                                         sv_newTip = ev_tip version\<rparr>\<rparr>),
                             ss_entity :=
                               Some (ent\<lparr>en_manifest_cid := ev_tip version,
                                         en_ver := ev_ver version\<rparr>)\<rparr>,
                           tr2)))
              else (Inr (), s, tr)))"

definition phase2_request :: "session \<Rightarrow> CustomPrompts \<Rightarrow> ReprocessRequest" where
  "phase2_request s customPrompts =
     \<lparr>rr_pi = ss_pi s,
      rr_phases = sc_components (ss_scope s),
      rr_cascade = sc_cascade (ss_scope s),
      rr_options = Some \<lparr>ro_stop_at_pi = sc_stopAtPi (ss_scope s),
                         ro_custom_prompts = Some customPrompts,
                         ro_custom_note = None\<rparr>\<rparr>"

definition submit_phase2 ::
  "env \<Rightarrow> jsdiff \<Rightarrow> session \<Rightarrow> trace \<Rightarrow> (error + unit) \<times> session \<times> trace" where
  "submit_phase2 world lib s tr =
     (if length (sc_components (ss_scope s)) > 0 then
        (case buildCustomPrompts lib s of
           Inl e \<Rightarrow> (Inl e, s, tr)
         | Inr customPrompts \<Rightarrow>
             (case reprocess world (ss_client s) (phase2_request s customPrompts) tr of
                (Inl e, tr1) \<Rightarrow> (Inl e, s, tr1)
              | (Inr reprocessResult, tr1) \<Rightarrow>
                  (Inr (),
                   s\<lparr>ss_result :=
                       Some ((case ss_result s of
                                Some res \<Rightarrow> res
                              | None \<Rightarrow> \<lparr>er_saved = None, er_reprocess = None\<rparr>)
                             \<lparr>er_reprocess := Some reprocessResult\<rparr>),
                     ss_statusUrl := Some (rres_status_url reprocessResult)\<rparr>,
                   tr1)))
      else (Inr (), s, tr))"

text \<open>
  \<^verbatim>\<open>submit(note)\<close>. The two guards throw before the \<^verbatim>\<open>try\<close>; inside it
  \<^verbatim>\<open>this.result\<close> starts as the empty object, phase 1 and phase 2 run in this order, an
  error of either ends the call, and the \<^verbatim>\<open>finally\<close> clause clears the in-flight flag
  on every path.
\<close>

definition submit ::
  "env \<Rightarrow> jsdiff \<Rightarrow> session \<Rightarrow> jsstring \<Rightarrow> trace \<Rightarrow> (error + EditResult) \<times> session \<times> trace"
  where
  "submit world lib s note tr =
     (if ss_submitting s then (Inl (ValidationError (js ''Submit already in progress'')), s, tr)
      else
        (case ss_entity s of
           None \<Rightarrow>
             (Inl (ValidationError (js ''Session not loaded. Call load() first.'')), s, tr)
         | Some ent \<Rightarrow>
             (let s0 = s\<lparr>ss_submitting := True,
                         ss_result := Some \<lparr>er_saved = None, er_reprocess = None\<rparr>\<rparr>
              in case submit_phase1 world lib s0 ent note tr of
                   (Inl e, s1, tr1) \<Rightarrow> (Inl e, s1\<lparr>ss_submitting := False\<rparr>, tr1)
                 | (Inr u, s1, tr1) \<Rightarrow>
                     (case submit_phase2 world lib s1 tr1 of
                        (Inl e, s2, tr2) \<Rightarrow> (Inl e, s2\<lparr>ss_submitting := False\<rparr>, tr2)
                      | (Inr u, s2, tr2) \<Rightarrow>
                          (Inr (case ss_result s2 of
                                  Some res \<Rightarrow> res
                                | None \<Rightarrow> \<lparr>er_saved = None, er_reprocess = None\<rparr>),
                           s2\<lparr>ss_submitting := False\<rparr>, tr2)))))"

subsection \<open>Waiting for completion\<close>

definition editStatusOf :: "ReprocessStatus \<Rightarrow> EditStatus" where
  "editStatusOf status =
     \<lparr>es_phase = (if rst_status status = DONE then Complete
                  else if rst_status status = ERROR then Failed else Reprocessing),
      es_saveComplete = True,
      es_reprocessStatus = Some status,
      es_error = rst_error status\<rparr>"

text \<open>
  The polling loop \<^verbatim>\<open>while (true)\<close> has no bound of its own, so the model gives it
  fuel: one unit for each poll, and \<open>None\<close> when the fuel is used up before the loop
  returns.
\<close>

fun waitLoop ::
  "nat \<Rightarrow> env \<Rightarrow> ArkeClient \<Rightarrow> jsstring \<Rightarrow> nat \<Rightarrow> nat \<Rightarrow> bool \<Rightarrow> nat \<Rightarrow> bool \<Rightarrow> trace
   \<Rightarrow> ((error + EditStatus) \<times> trace) option" where
  "waitLoop 0 world c statusUrl intervalMs timeoutMs onProgress startTime isFirstPoll tr = None"
| "waitLoop (Suc fuel) world c statusUrl intervalMs timeoutMs onProgress startTime isFirstPoll tr =
     (case getReprocessStatus world c statusUrl isFirstPoll tr of
        (Inl e, tr1) \<Rightarrow> Some (Inl e, tr1)
      | (Inr status, tr1) \<Rightarrow>
          (let editStatus = editStatusOf status;
               tr2 = (if onProgress then tr1 @ [Progress editStatus] else tr1)
           in if rst_status status = DONE \<or> rst_status status = ERROR
              then Some (Inr editStatus, tr2)
              else if int (now world tr2) - int startTime > int timeoutMs
              then Some (Inr \<lparr>es_phase = Failed, es_saveComplete = True,
                               es_reprocessStatus = Some status,
                               es_error = Some (js ''Timeout waiting for reprocessing to complete'')\<rparr>,
                         tr2)
              else waitLoop fuel world c statusUrl intervalMs timeoutMs onProgress startTime
                     False (sleep intervalMs tr2)))"

definition waitForCompletion ::
  "nat \<Rightarrow> env \<Rightarrow> session \<Rightarrow> PollOptions option \<Rightarrow> trace
   \<Rightarrow> ((error + EditStatus) \<times> trace) option" where
  "waitForCompletion fuel world s options tr =
     (let intervalMs = (case options of None \<Rightarrow> DEFAULT_intervalMs
                        | Some opts \<Rightarrow> (case po_intervalMs opts of None \<Rightarrow> DEFAULT_intervalMs
                                        | Some v \<Rightarrow> v));
          timeoutMs = (case options of None \<Rightarrow> DEFAULT_timeoutMs
                       | Some opts \<Rightarrow> (case po_timeoutMs opts of None \<Rightarrow> DEFAULT_timeoutMs
                                       | Some v \<Rightarrow> v));
          onProgress = (case options of None \<Rightarrow> False | Some opts \<Rightarrow> po_onProgress opts)
      in if \<not> truthy (ss_statusUrl s) then
           Some (Inr \<lparr>es_phase = Complete, es_saveComplete = True, es_reprocessStatus = None,
                      es_error = None\<rparr>, tr)
         else waitLoop fuel world (ss_client s) (opt_str (ss_statusUrl s)) intervalMs timeoutMs
                onProgress (now world tr) True tr)"

text \<open>The entry of the custom prompts that belongs to a regeneratable component.\<close>

fun prompt_for :: "CustomPrompts \<Rightarrow> RegeneratableComponent \<Rightarrow> jsstring option" where
  "prompt_for custom Pinax = cp_pinax custom"
| "prompt_for custom Description = cp_description custom"
| "prompt_for custom Cheimarros = cp_cheimarros custom"


text \<open>The reprocess requests among the events of a trace, in order.\<close>

definition reprocess_sent :: "event \<Rightarrow> ReprocessRequest list" where
  "reprocess_sent ev =
     (case ev of
        Fetch rq \<Rightarrow> (case rq_body rq of ReprocessBody req \<Rightarrow> [req] | _ \<Rightarrow> [])
      | _ \<Rightarrow> [])"

definition reprocess_requests :: "trace \<Rightarrow> ReprocessRequest list" where
  "reprocess_requests tr = concat (map reprocess_sent tr)"

section \<open>The read accessors, on a store\<close>

text \<open>
  The accessors \<^verbatim>\<open>getComponents\<close>, \<^verbatim>\<open>getPrompts\<close>, \<^verbatim>\<open>getEditedContent\<close>,
  \<^verbatim>\<open>getCorrections\<close> and \<^verbatim>\<open>getScope\<close> return \<^verbatim>\<open>{ ...this.field }\<close> or
  \<^verbatim>\<open>[...this.field]\<close>. What a caller can do to the session through the returned
  object depends on which objects are shared, so for them the fields of the session are
  references into a store of objects. A record of strings holds its strings; the array
  of corrections holds references to correction objects; the scope object holds a
  reference to its array of components.
\<close>

type_synonym addr = nat

datatype jsobject =
    StringRecord "(jsstring \<times> jsstring) list"
  | CorrectionArray "addr list"
  | CorrectionObject Correction
  | ScopeObject addr bool "jsstring option"
  | ComponentArray "RegeneratableComponent list"

record store =
  st_cells :: "addr \<rightharpoonup> jsobject"
  st_next :: addr

record session_refs =
  rf_loadedComponents :: addr
  rf_prompts :: addr
  rf_editedContent :: addr
  rf_corrections :: addr
  rf_scope :: addr

text \<open>Allocation of a new object, at an address not used before.\<close>

definition alloc :: "jsobject \<Rightarrow> store \<Rightarrow> addr \<times> store" where
  "alloc obj h =
     (st_next h, h\<lparr>st_cells := (st_cells h)(st_next h \<mapsto> obj), st_next := Suc (st_next h)\<rparr>)"

text \<open>
  The spread of an object or array: the own properties or elements, each with the value it
  has in the source object. A string is copied; a reference is copied as a reference.
\<close>

definition spread :: "store \<Rightarrow> addr \<Rightarrow> jsobject" where
  "spread h a = (case st_cells h a of Some obj \<Rightarrow> obj | None \<Rightarrow> StringRecord [])"

definition getComponents :: "session_refs \<Rightarrow> store \<Rightarrow> addr \<times> store" where
  "getComponents this h = alloc (spread h (rf_loadedComponents this)) h"

definition getPrompts :: "session_refs \<Rightarrow> store \<Rightarrow> addr \<times> store" where
  "getPrompts this h = alloc (spread h (rf_prompts this)) h"

definition getEditedContent :: "session_refs \<Rightarrow> store \<Rightarrow> addr \<times> store" where
  "getEditedContent this h = alloc (spread h (rf_editedContent this)) h"

definition getCorrections :: "session_refs \<Rightarrow> store \<Rightarrow> addr \<times> store" where
  "getCorrections this h = alloc (spread h (rf_corrections this)) h"

definition getScope :: "session_refs \<Rightarrow> store \<Rightarrow> addr \<times> store" where
  "getScope this h = alloc (spread h (rf_scope this)) h"

text \<open>
  The initial scope of a session, \<^verbatim>\<open>{ ...DEFAULT_SCOPE }\<close>, is a spread as well: a new
  scope object that refers to the components array of the module-level object.
\<close>

definition initial_scope :: "addr \<Rightarrow> store \<Rightarrow> addr \<times> store" where
  "initial_scope default_scope h = alloc (spread h default_scope) h"

datatype accessor = GetComponents | GetPrompts | GetEditedContent | GetCorrections | GetScope

fun field_of :: "accessor \<Rightarrow> session_refs \<Rightarrow> addr" where
  "field_of GetComponents this = rf_loadedComponents this"
| "field_of GetPrompts this = rf_prompts this"
| "field_of GetEditedContent this = rf_editedContent this"
| "field_of GetCorrections this = rf_corrections this"
| "field_of GetScope this = rf_scope this"

fun call :: "accessor \<Rightarrow> session_refs \<Rightarrow> store \<Rightarrow> addr \<times> store" where
  "call GetComponents this h = getComponents this h"
| "call GetPrompts this h = getPrompts this h"
| "call GetEditedContent this h = getEditedContent this h"
| "call GetCorrections this h = getCorrections this h"
| "call GetScope this h = getScope this h"

text \<open>
  What a reference stands for when it is read through: the object with every reference
  inside it replaced by the object found there.
\<close>

datatype jsvalue =
    VRecord "(jsstring \<times> jsstring) list"
  | VCorrections "Correction option list"
  | VCorrection Correction
  | VScope "RegeneratableComponent list option" bool "jsstring option"
  | VComponents "RegeneratableComponent list"

definition correction_at :: "store \<Rightarrow> addr \<Rightarrow> Correction option" where
  "correction_at h a = (case st_cells h a of Some (CorrectionObject c) \<Rightarrow> Some c | _ \<Rightarrow> None)"

definition components_at :: "store \<Rightarrow> addr \<Rightarrow> RegeneratableComponent list option" where
  "components_at h a = (case st_cells h a of Some (ComponentArray cs) \<Rightarrow> Some cs | _ \<Rightarrow> None)"

fun value_of :: "store \<Rightarrow> jsobject \<Rightarrow> jsvalue" where
  "value_of h (StringRecord kv) = VRecord kv"
| "value_of h (CorrectionArray xs) = VCorrections (map (correction_at h) xs)"
| "value_of h (CorrectionObject c) = VCorrection c"
| "value_of h (ScopeObject ca cascade stopAtPi) = VScope (components_at h ca) cascade stopAtPi"
| "value_of h (ComponentArray cs) = VComponents cs"

definition value_at :: "store \<Rightarrow> addr \<Rightarrow> jsvalue option" where
  "value_at h a = map_option (value_of h) (st_cells h a)"

text \<open>
  What the caller may do with a reference it holds. \<open>overwrite\<close> stands for any change of
  the object itself (setting, replacing or deleting its properties or elements): the object
  is replaced by an arbitrary one. The other two change an object that the returned one
  refers to: \<^verbatim>\<open>arr[i].original = text\<close> and \<^verbatim>\<open>scope.components.push(component)\<close>.
\<close>

definition overwrite :: "addr \<Rightarrow> jsobject \<Rightarrow> store \<Rightarrow> store" where
  "overwrite a obj h = h\<lparr>st_cells := (st_cells h)(a \<mapsto> obj)\<rparr>"

definition set_element_original :: "addr \<Rightarrow> nat \<Rightarrow> jsstring \<Rightarrow> store \<Rightarrow> store" where
  "set_element_original arr i text h =
     (case st_cells h arr of
        Some (CorrectionArray xs) \<Rightarrow>
          if i < length xs then
            (case st_cells h (xs ! i) of
               Some (CorrectionObject c) \<Rightarrow>
                 overwrite (xs ! i) (CorrectionObject (c\<lparr>co_original := text\<rparr>)) h
             | _ \<Rightarrow> h)
          else h
      | _ \<Rightarrow> h)"

definition push_component :: "addr \<Rightarrow> RegeneratableComponent \<Rightarrow> store \<Rightarrow> store" where
  "push_component scope component h =
     (case st_cells h scope of
        Some (ScopeObject ca cascade stopAtPi) \<Rightarrow>
          (case st_cells h ca of
             Some (ComponentArray cs) \<Rightarrow> overwrite ca (ComponentArray (cs @ [component])) h
           | _ \<Rightarrow> h)
      | _ \<Rightarrow> h)"

text \<open>
  A session in a store: its five fields, and the objects they refer to, were allocated
  before.
\<close>

fun refs_of :: "jsobject \<Rightarrow> addr list" where
  "refs_of (CorrectionArray xs) = xs"
| "refs_of (ScopeObject ca cascade stopAtPi) = [ca]"
| "refs_of obj = []"

definition allocated :: "store \<Rightarrow> addr \<Rightarrow> bool" where
  "allocated h a \<longleftrightarrow>
     a < st_next h \<and>
     (case st_cells h a of None \<Rightarrow> False | Some obj \<Rightarrow> \<forall>x \<in> set (refs_of obj). x < st_next h)"

definition session_in_store :: "session_refs \<Rightarrow> store \<Rightarrow> bool" where
  "session_in_store this h \<longleftrightarrow>
     allocated h (rf_loadedComponents this) \<and> allocated h (rf_prompts this) \<and>
     allocated h (rf_editedContent this) \<and> allocated h (rf_corrections this) \<and>
     allocated h (rf_scope this)"

chapter \<open>Example inputs\<close>

text \<open>
  Two stand-ins for the diff library, each returning a fixed word diff: the first replaces
  one word by another, the second is the diff of \<^verbatim>\<open>"Adam Tooze"\<close> against
  \<^verbatim>\<open>"Professor Adam Tooze"\<close>, a single insertion before unchanged text.
\<close>

definition replaced_word :: "change list" where
  "replaced_word =
     [\<lparr>ch_value = js ''teh'', ch_added = False, ch_removed = True\<rparr>,
      \<lparr>ch_value = js ''the'', ch_added = True, ch_removed = False\<rparr>,
      \<lparr>ch_value = js '' cat'', ch_added = False, ch_removed = False\<rparr>]"

definition inserted_word :: "change list" where
  "inserted_word =
     [\<lparr>ch_value = js ''Professor '', ch_added = True, ch_removed = False\<rparr>,
      \<lparr>ch_value = js ''Adam Tooze'', ch_added = False, ch_removed = False\<rparr>]"

definition fixed_diff :: "change list \<Rightarrow> jsdiff" where
  "fixed_diff ws = \<lparr>diffLines = (\<lambda>a b. []), diffWords = (\<lambda>a b. ws)\<rparr>"

text \<open>A client, an entity at version 3 with tip \<^verbatim>\<open>T3\<close>, and the same entity one version on.\<close>

definition example_client :: ArkeClient where
  "example_client =
     ArkeClient_new \<lparr>cfg_ipfsWrapperUrl = js ''https://api/'', cfg_reprocessApiUrl = js ''https://re'',
                     cfg_authToken = None, cfg_statusUrlTransform = None\<rparr>"

definition entity_v3 :: Entity where
  "entity_v3 =
     \<lparr>en_pi = js ''E'', en_ver = 3, en_ts = js ''t'', en_manifest_cid = js ''T3'',
      en_components = [js ''description.md'' \<mapsto> js ''c1''], en_children_pi = [],
      en_parent_pi = None, en_note = None\<rparr>"

definition entity_v4 :: Entity where
  "entity_v4 = entity_v3\<lparr>en_ver := 4, en_manifest_cid := js ''T4''\<rparr>"

definition plain :: "nat \<Rightarrow> string \<Rightarrow> json_body \<Rightarrow> outcome" where
  "plain st txt body =
     Responded \<lparr>rs_status = st, rs_statusText = js txt, rs_text = [], rs_json = body\<rparr>"

text \<open>
  A remote side for a write that loses the race: it accepts uploads, answers the write with
  409, and answers every other request, among them the follow-up fetch of the entity, with
  the given outcome.
\<close>

definition world_conflict_then :: "outcome \<Rightarrow> env" where
  "world_conflict_then followUp =
     \<lparr>respond = (\<lambda>tr rq. case rq_body rq of
                    UploadForm content filename \<Rightarrow>
                      plain 200 ''OK'' (UploadJson [\<lparr>up_cid = js ''c2'', up_name = filename, up_size = 1\<rparr>])
                  | UpdateBody u \<Rightarrow> plain 409 ''Conflict'' NotJson
                  | _ \<Rightarrow> followUp),
      now = (\<lambda>tr. 0)\<rparr>"

definition example_update :: EntityUpdate where
  "example_update =
     \<lparr>eu_expect_tip = js ''T3'', eu_components = Some [(js ''description.md'', js ''c2'')],
      eu_components_remove = None, eu_note = js ''note''\<rparr>"

text \<open>
  A line diff that reports one replaced line, and a session in manual-with-review mode that
  has loaded \<open>entity_v3\<close> and holds one edited component.
\<close>

definition one_line_changed :: jsdiff where
  "one_line_changed =
     \<lparr>diffLines = (\<lambda>a b. [\<lparr>ch_value = a, ch_added = False, ch_removed = True\<rparr>,
                          \<lparr>ch_value = b, ch_added = True, ch_removed = False\<rparr>]),
      diffWords = (\<lambda>a b. [])\<rparr>"

definition session_edited :: session where
  "session_edited =
     (EditSession_new example_client (js ''E'')
        (Some \<lparr>cfg_mode = ManualWithReview, cfg_aiReviewEnabled = None\<rparr>) [])
     \<lparr>ss_entity := Some entity_v3,
      ss_loadedComponents := [js ''description.md'' \<mapsto> js ''old text''],
      ss_editedContent := [(js ''description.md'', js ''new text'')]\<rparr>"

text \<open>A session as the constructor leaves it, in the default mode.\<close>

definition session_new :: session where
  "session_new = EditSession_new example_client (js ''E'') None []"

text \<open>
  A session in manual-with-review mode that has loaded \<open>entity_v3\<close> and its description,
  and the same session with an edit of the description that only changes white space.
\<close>

definition session_manual_loaded :: session where
  "session_manual_loaded =
     (EditSession_new example_client (js ''E'')
        (Some \<lparr>cfg_mode = ManualWithReview, cfg_aiReviewEnabled = None\<rparr>) [])
     \<lparr>ss_entity := Some entity_v3,
      ss_loadedComponents := [js ''description.md'' \<mapsto> js ''old text'']\<rparr>"

definition session_reformatted :: session where
  "session_reformatted =
     session_manual_loaded\<lparr>ss_editedContent := [(js ''description.md'', js ''  old   text '')]\<rparr>"

text \<open>
  Remote sides for the status poll: one that answers 500 to the first four requests and
  then reports the job done, one that cannot be reached at all, one that answers 503 to
  every request, and one that does not know the status URL.
\<close>

definition progress_zero :: ReprocessProgress where
  "progress_zero =
     \<lparr>directories_total = 0, directories_pinax_complete = 0,
      directories_cheimarros_complete = 0, directories_description_complete = 0\<rparr>"

definition status_done :: ReprocessStatus where
  "status_done =
     \<lparr>rst_batch_id = js ''b1'', rst_status = DONE, rst_progress = progress_zero,
      rst_root_pi = None, rst_error = None, rst_started_at = None, rst_completed_at = None\<rparr>"

definition world_warming_up :: env where
  "world_warming_up =
     \<lparr>respond = (\<lambda>tr rq. if length (filter (\<lambda>ev. ev = Fetch rq) tr) < 4
                         then plain 500 ''Internal Server Error'' NotJson
                         else plain 200 ''OK'' (StatusJson status_done)),
      now = (\<lambda>tr. 0)\<rparr>"

definition world_unreachable :: env where
  "world_unreachable = \<lparr>respond = (\<lambda>tr rq. Rejected (js ''fetch failed'')), now = (\<lambda>tr. 0)\<rparr>"

definition world_overloaded :: env where
  "world_overloaded =
     \<lparr>respond = (\<lambda>tr rq. plain 503 ''Service Unavailable'' NotJson), now = (\<lambda>tr. 0)\<rparr>"

definition world_unknown_job :: env where
  "world_unknown_job =
     \<lparr>respond = (\<lambda>tr rq. plain 404 ''Not Found'' NotJson), now = (\<lambda>tr. 0)\<rparr>"

definition status_rq :: request where
  "status_rq = statusRequest example_client (js ''https://o/status/b1'')"

text \<open>
  A session in ai-prompt mode that has loaded \<open>entity_v3\<close>, holds one prompt for the
  description and has the description in scope; and a remote side that accepts the
  reprocess request.
\<close>

definition session_prompted :: session where
  "session_prompted =
     session_new
     \<lparr>ss_entity := Some entity_v3,
      ss_loadedComponents := [js ''description.md'' \<mapsto> js ''old text''],
      ss_prompts := [Target Description \<mapsto> js ''Make concise''],
      ss_scope := \<lparr>sc_components = [Description], sc_cascade = False, sc_stopAtPi = None\<rparr>\<rparr>"

definition queued :: ReprocessResult where
  "queued =
     \<lparr>rres_batch_id = js ''b1'', rres_entities_queued = 1, rres_entity_pis = [js ''E''],
      rres_status_url = js ''https://o/status/b1''\<rparr>"

definition world_accepting :: env where
  "world_accepting =
     \<lparr>respond = (\<lambda>tr rq. plain 200 ''OK'' (ReprocessJson queued)), now = (\<lambda>tr. 0)\<rparr>"

definition preview_text :: jsstring where
  "preview_text =
     join [nl]
       [js ''## Instructions for description'',
        js ''## Specific Instructions for description'',
        js ''Make concise'',
        [],
        [],
        js ''## Entity Context'',
        js ''- PI: E'',
        js ''- Current version: 3'',
        [],
        js ''## Current description content for reference:'',
        bt3,
        js ''old text'',
        bt3]"

definition sent_request :: ReprocessRequest where
  "sent_request =
     \<lparr>rr_pi = js ''E'', rr_phases = [Description], rr_cascade = False,
      rr_options =
        Some \<lparr>ro_stop_at_pi = None,
              ro_custom_prompts =
                Some \<lparr>cp_general = None, cp_pinax = None,
                      cp_description = Some (js ''Make concise''), cp_cheimarros = None,
                      cp_reorganization = None\<rparr>,
              ro_custom_note = None\<rparr>\<rparr>"

definition sent_prompts :: CustomPrompts where
  "sent_prompts =
     \<lparr>cp_general = None, cp_pinax = None, cp_description = Some (js ''Make concise''),
      cp_cheimarros = None, cp_reorganization = None\<rparr>"

text \<open>
  The session with one edited component, now with the description in scope, a cascading
  scope and a general prompt; the diff of its edit; and the prompts it sends.
\<close>

definition session_edited_scoped :: session where
  "session_edited_scoped =
     session_edited
     \<lparr>ss_prompts := [General \<mapsto> js ''Keep dates''],
      ss_scope := \<lparr>sc_components = [Description], sc_cascade = True, sc_stopAtPi = None\<rparr>\<rparr>"

definition edited_diff :: ComponentDiff where
  "edited_diff =
     createComponentDiff one_line_changed (js ''description.md'') (js ''old text'') (js ''new text'')"

definition sent_manual :: CustomPrompts where
  "sent_manual =
     \<lparr>cp_general =
        Some (join [nl, nl] [formatComponentDiffsForPrompt [edited_diff], js ''Keep dates'']),
      cp_pinax = None, cp_description = None, cp_cheimarros = None, cp_reorganization = None\<rparr>"

definition manual_preview :: jsstring where
  "manual_preview =
     buildCascadePrompt
       (buildEditReviewPrompt [edited_diff] [] Description (Some (js ''Keep dates'')))
       \<lparr>cc_path = [js ''E'', js ''root''], cc_depth = 0, cc_stopAtPi = None\<rparr>"

text \<open>
  A session in a store: three empty records, one correction, and a scope naming the
  description. Then the calls of a caller that reads the corrections, changes the text of
  the first correction it was given, and reads again; and of one that reads the scope,
  pushes a component onto the array it was given, and reads again.
\<close>

definition example_refs :: session_refs where
  "example_refs =
     \<lparr>rf_loadedComponents = 0, rf_prompts = 1, rf_editedContent = 2, rf_corrections = 3,
      rf_scope = 4\<rparr>"

definition example_store :: store where
  "example_store =
     \<lparr>st_cells =
        [0 \<mapsto> StringRecord [], 1 \<mapsto> StringRecord [], 2 \<mapsto> StringRecord [],
         3 \<mapsto> CorrectionArray [5], 4 \<mapsto> ScopeObject 6 False None,
         5 \<mapsto> CorrectionObject \<lparr>co_original = js ''1895'', co_corrected = js ''1985'',
                                  co_sourceFile = None, co_context = None\<rparr>,
         6 \<mapsto> ComponentArray [Description]],
      st_next = 7\<rparr>"

definition corrections_first :: "addr \<times> store" where
  "corrections_first = call GetCorrections example_refs example_store"

definition corrections_second :: "addr \<times> store" where
  "corrections_second =
     call GetCorrections example_refs
       (set_element_original (fst corrections_first) 0 (js ''zzz'') (snd corrections_first))"

definition scope_first :: "addr \<times> store" where
  "scope_first = call GetScope example_refs example_store"

definition scope_second :: "addr \<times> store" where
  "scope_second =
     call GetScope example_refs (push_component (fst scope_first) Pinax (snd scope_first))"

chapter \<open>Properties\<close>

section \<open>White-space normalisation\<close>

lemma is_ws_sp: "is_ws sp"
  by (simp add: is_ws_def sp_def)

lemma trimEnd_append:
  "trimEnd (x @ y) = (if trimEnd y = [] then trimEnd x else x @ trimEnd y)"
  by (auto simp: trimEnd_def dropWhile_append dropWhile_eq_Nil_conv)

lemma trimEnd_all_nonws: "\<forall>c \<in> set w. \<not> is_ws c \<Longrightarrow> trimEnd w = w"
  by (cases w rule: rev_cases) (auto simp: trimEnd_def)

lemma trimEnd_Cons_ws:
  "is_ws c \<Longrightarrow> trimEnd (c # s) = (if trimEnd s = [] then [] else c # trimEnd s)"
  using trimEnd_append [of "[c]" s] by (simp add: trimEnd_def)

lemma replace_ws_runs_prefix:
  "\<forall>c \<in> set w. \<not> is_ws c \<Longrightarrow> replace_ws_runs (w @ s) = w @ replace_ws_runs s"
  by (induction w) auto

lemma join_sp_Cons: "join_sp (w # ws) = (if ws = [] then w else w @ sp # join_sp ws)"
  by (cases ws) auto

lemma ws_words_nonempty: "w \<in> set (ws_words s) \<Longrightarrow> w \<noteq> []"
  by (induction s rule: ws_words.induct) (auto split: if_splits)

lemma join_sp_eq_Nil: "\<forall>w \<in> set ws. w \<noteq> [] \<Longrightarrow> join_sp ws = [] \<longleftrightarrow> ws = []"
  by (cases ws) (auto simp: join_sp_Cons)

lemma join_sp_ws_words_Nil: "join_sp (ws_words s) = [] \<longleftrightarrow> ws_words s = []"
  by (rule join_sp_eq_Nil) (auto dest: ws_words_nonempty)

lemma trimEnd_replace_rest:
  "s \<noteq> [] \<Longrightarrow> is_ws (hd s) \<Longrightarrow>
   trimEnd (replace_ws_runs s) =
     (if trimEnd (replace_ws_runs (dropWhile is_ws s)) = [] then []
      else sp # trimEnd (replace_ws_runs (dropWhile is_ws s)))"
  by (cases s) (auto simp: trimEnd_Cons_ws is_ws_sp)

lemma dropWhile_nonws_hd:
  "dropWhile (\<lambda>x. \<not> is_ws x) cs = [] \<or> is_ws (hd (dropWhile (\<lambda>x. \<not> is_ws x) cs))"
  using hd_dropWhile [of "\<lambda>x. \<not> is_ws x" cs] by auto

lemma trimEnd_word_append:
  "\<forall>c \<in> set w. \<not> is_ws c \<Longrightarrow>
   trimEnd (w @ y) = (if trimEnd y = [] then w else w @ trimEnd y)"
  by (simp add: trimEnd_append trimEnd_all_nonws)

lemma trimEnd_replace_ws_words:
  "trimEnd (replace_ws_runs (dropWhile is_ws s)) = join_sp (ws_words s)"
proof (induction s rule: ws_words.induct)
  case 1
  show ?case by (simp add: trimEnd_def)
next
  case (2 c cs)
  show ?case
  proof (cases "is_ws c")
    case True
    with 2 show ?thesis by simp
  next
    case False
    define w where "w = c # takeWhile (\<lambda>x. \<not> is_ws x) cs"
    define rest where "rest = dropWhile (\<lambda>x. \<not> is_ws x) cs"
    have nonws: "\<forall>x \<in> set w. \<not> is_ws x"
      using False by (auto simp: w_def dest: set_takeWhileD)
    have split: "c # cs = w @ rest" by (simp add: w_def rest_def)
    have words: "ws_words (c # cs) = w # ws_words rest"
      using False by (simp add: w_def rest_def)
    have IH: "trimEnd (replace_ws_runs (dropWhile is_ws rest)) = join_sp (ws_words rest)"
      using 2 False by (simp add: rest_def)
    have rest: "trimEnd (replace_ws_runs rest) =
        (if ws_words rest = [] then [] else sp # join_sp (ws_words rest))"
    proof (cases "rest = []")
      case True
      show ?thesis unfolding True by (simp add: trimEnd_def)
    next
      case nonempty: False
      then have "is_ws (hd rest)"
        using dropWhile_nonws_hd [of cs] unfolding rest_def by blast
      from trimEnd_replace_rest [OF nonempty this] show ?thesis
        unfolding IH join_sp_ws_words_Nil .
    qed
    have "dropWhile is_ws (c # cs) = c # cs"
      using False by simp
    then have "trimEnd (replace_ws_runs (dropWhile is_ws (c # cs))) = trimEnd (replace_ws_runs (w @ rest))"
      by (simp only: split)
    also have "\<dots> = trimEnd (w @ replace_ws_runs rest)"
      by (simp only: replace_ws_runs_prefix [OF nonws])
    also have "\<dots> = (if trimEnd (replace_ws_runs rest) = [] then w else w @ trimEnd (replace_ws_runs rest))"
      by (rule trimEnd_word_append [OF nonws])
    also have "\<dots> = join_sp (w # ws_words rest)"
      unfolding rest join_sp_Cons by simp
    finally show ?thesis unfolding words .
  qed
qed

lemma dropWhile_replace_ws_runs:
  "dropWhile is_ws (replace_ws_runs s) = replace_ws_runs (dropWhile is_ws s)"
proof (cases s)
  case Nil
  then show ?thesis by simp
next
  case (Cons c cs)
  have nolead: "dropWhile is_ws (replace_ws_runs t) = replace_ws_runs t"
    if "t = [] \<or> \<not> is_ws (hd t)" for t
    using that by (cases t) auto
  have hd: "dropWhile is_ws cs = [] \<or> \<not> is_ws (hd (dropWhile is_ws cs))"
    using hd_dropWhile [of is_ws cs] by auto
  show ?thesis
    using Cons nolead [OF hd] by (simp add: is_ws_sp)
qed

lemma trim_replace_ws_runs: "trim (replace_ws_runs s) = collapse_and_trim_spec s"
  using trimEnd_replace_ws_words [of s]
  by (simp add: trim_def trimEnd_def dropWhile_replace_ws_runs collapse_and_trim_spec_def)


lemma ws_words_nonws: "w \<in> set (ws_words s) \<Longrightarrow> c \<in> set w \<Longrightarrow> \<not> is_ws c"
proof (induction s rule: ws_words.induct)
  case 1
  then show ?case by simp
next
  case (2 x xs)
  show ?case
  proof (cases "is_ws x")
    case True
    with 2 show ?thesis by simp
  next
    case False
    with 2(3) have "w = x # takeWhile (\<lambda>x. \<not> is_ws x) xs \<or>
        w \<in> set (ws_words (dropWhile (\<lambda>x. \<not> is_ws x) xs))"
      by simp
    then show ?thesis
    proof
      assume "w = x # takeWhile (\<lambda>x. \<not> is_ws x) xs"
      with 2(4) have "c = x \<or> c \<in> set (takeWhile (\<lambda>x. \<not> is_ws x) xs)" by simp
      then show ?thesis
      proof
        assume "c = x"
        with False show ?thesis by simp
      next
        assume "c \<in> set (takeWhile (\<lambda>x. \<not> is_ws x) xs)"
        then show ?thesis by (rule set_takeWhileD [THEN conjunct2])
      qed
    next
      assume "w \<in> set (ws_words (dropWhile (\<lambda>x. \<not> is_ws x) xs))"
      with 2(2) [OF False] 2(4) show ?thesis by simp
    qed
  qed
qed

lemma ws_words_word_prefix:
  assumes "w \<noteq> []" and "\<forall>c \<in> set w. \<not> is_ws c" and "s = [] \<or> is_ws (hd s)"
  shows "ws_words (w @ s) = w # ws_words s"
proof -
  from assms(1) obtain c cs where w: "w = c # cs" by (cases w) auto
  have tw: "takeWhile (\<lambda>x. \<not> is_ws x) (cs @ s) = cs"
    using assms(2,3) w by (cases s) (auto simp: takeWhile_append1 takeWhile_append2)
  have dw: "dropWhile (\<lambda>x. \<not> is_ws x) (cs @ s) = s"
    using assms(2,3) w by (cases s) (auto simp: dropWhile_append1 dropWhile_append2)
  show ?thesis
    using assms(2) w by (simp add: tw dw)
qed

lemma ws_words_join_sp:
  assumes "\<forall>w \<in> set ws. w \<noteq> [] \<and> (\<forall>c \<in> set w. \<not> is_ws c)"
  shows "ws_words (join_sp ws) = ws"
  using assms
proof (induction ws rule: join_sp.induct)
  case 1
  show ?case by simp
next
  case (2 w)
  then show ?case using ws_words_word_prefix [of w "[]"] by simp
next
  case (3 w v ws)
  then have "ws_words (join_sp (v # ws)) = v # ws" by simp
  moreover have "ws_words (w @ sp # join_sp (v # ws)) = w # ws_words (sp # join_sp (v # ws))"
    using 3(2) by (intro ws_words_word_prefix) (simp_all add: is_ws_sp)
  ultimately show ?case by (simp add: is_ws_sp)
qed

lemma ws_words_collapse_and_trim_spec: "ws_words (collapse_and_trim_spec s) = ws_words s"
  unfolding collapse_and_trim_spec_def
  by (rule ws_words_join_sp) (blast dest: ws_words_nonempty ws_words_nonws)

lemma collapse_and_trim_spec_eq_iff:
  "collapse_and_trim_spec a = collapse_and_trim_spec b \<longleftrightarrow> ws_words a = ws_words b"
proof
  assume "collapse_and_trim_spec a = collapse_and_trim_spec b"
  then have "ws_words (collapse_and_trim_spec a) = ws_words (collapse_and_trim_spec b)" by simp
  then show "ws_words a = ws_words b" by (simp add: ws_words_collapse_and_trim_spec)
next
  assume "ws_words a = ws_words b"
  then show "collapse_and_trim_spec a = collapse_and_trim_spec b"
    by (simp add: collapse_and_trim_spec_def)
qed

text \<open>
  C6. \<open>hasSignificantChanges a b\<close> is false exactly when \<open>a\<close> and \<open>b\<close> are identical
  after every run of white space is collapsed to one space and both ends are trimmed; and
  that is exactly when the two strings consist of the same words in the same order, so
  that they differ at most in the white space (line breaks, indentation) around the words.
\<close>

theorem hasSignificantChanges_iff:
  "(hasSignificantChanges a b = False \<longleftrightarrow> collapse_and_trim_spec a = collapse_and_trim_spec b) \<and>
   (hasSignificantChanges a b = False \<longleftrightarrow> ws_words a = ws_words b)"
  by (simp add: hasSignificantChanges_def trim_replace_ws_runs collapse_and_trim_spec_eq_iff)

theorem hasSignificantChanges_iff_witness:
  "ws_words (js ''if x:'' @ [nl, tab] @ js ''y'') = ws_words (js ''  if   x: y '') \<and>
   hasSignificantChanges (js ''if x:'' @ [nl, tab] @ js ''y'') (js ''  if   x: y '') = False"
proof -
  have same: "ws_words (js ''if x:'' @ [nl, tab] @ js ''y'') = ws_words (js ''  if   x: y '')"
    by (simp add: js_def is_ws_def nl_def tab_def)
  with hasSignificantChanges_iff [of "js ''if x:'' @ [nl, tab] @ js ''y''" "js ''  if   x: y ''"]
  show ?thesis by blast
qed

section \<open>Correction extraction\<close>

lemma scan_spec_skip: "\<not> ch_removed a \<Longrightarrow> scan_spec (a # rest) src = scan_spec rest src"
  by (cases rest) (auto simp: qualifying_pair_def)

lemma extractCorrections_loop_unfold:
  "i < length ws \<Longrightarrow> ch_removed (ws ! i) \<Longrightarrow> Suc i < length ws \<Longrightarrow> ch_added (ws ! Suc i) \<Longrightarrow>
   extractCorrections_loop ws src i =
     (if qualifying_pair (ws ! i) (ws ! Suc i)
      then [\<lparr>co_original = trim (ch_value (ws ! i)), co_corrected = trim (ch_value (ws ! Suc i)),
             co_sourceFile = src, co_context = None\<rparr>]
      else []) @ extractCorrections_loop ws src (i + 2)"
  by (subst extractCorrections_loop.simps) (simp add: qualifying_pair_def Let_def)

lemma extractCorrections_loop_step:
  "i < length ws \<Longrightarrow> \<not> (ch_removed (ws ! i) \<and> Suc i < length ws \<and> ch_added (ws ! Suc i)) \<Longrightarrow>
   extractCorrections_loop ws src i = extractCorrections_loop ws src (i + 1)"
  by (subst extractCorrections_loop.simps) (auto simp: Let_def)

lemma extractCorrections_loop_end:
  "length ws \<le> i \<Longrightarrow> extractCorrections_loop ws src i = []"
  by (subst extractCorrections_loop.simps) simp

lemma extractCorrections_loop_scan_spec:
  assumes wf: "\<forall>c \<in> set ws. \<not> (ch_added c \<and> ch_removed c)"
  shows "extractCorrections_loop ws src i = scan_spec (drop i ws) src"
proof (induction "length ws - i" arbitrary: i rule: less_induct)
  case less
  show ?case
  proof (cases "i < length ws")
    case False
    then show ?thesis by (simp add: extractCorrections_loop_end)
  next
    case True
    then have d0: "drop i ws = ws ! i # drop (Suc i) ws"
      by (simp add: Cons_nth_drop_Suc)
    show ?thesis
    proof (cases "ch_removed (ws ! i) \<and> Suc i < length ws \<and> ch_added (ws ! Suc i)")
      case pair: True
      then have d1: "drop (Suc i) ws = ws ! Suc i # drop (i + 2) ws"
        by (simp add: Cons_nth_drop_Suc)
      have "length ws - (i + 2) < length ws - i"
        using pair by arith
      then have IH: "extractCorrections_loop ws src (i + 2) = scan_spec (drop (i + 2) ws) src"
        by (rule less)
      have "ws ! Suc i \<in> set ws" using pair by simp
      with wf pair have nr: "\<not> ch_removed (ws ! Suc i)" by blast
      show ?thesis
        using pair True IH scan_spec_skip [OF nr, of "drop (i + 2) ws" src]
        by (simp add: extractCorrections_loop_unfold d0 d1)
    next
      case nopair: False
      have "length ws - (i + 1) < length ws - i"
        using True by arith
      then have IH: "extractCorrections_loop ws src (i + 1) = scan_spec (drop (i + 1) ws) src"
        by (rule less)
      have "scan_spec (drop i ws) src = scan_spec (drop (Suc i) ws) src"
      proof (cases "Suc i < length ws")
        case False
        then have "drop (Suc i) ws = []" by simp
        then show ?thesis by (simp add: d0)
      next
        case next_exists: True
        then have d1: "drop (Suc i) ws = ws ! Suc i # drop (i + 2) ws"
          by (simp add: Cons_nth_drop_Suc)
        have "\<not> qualifying_pair (ws ! i) (ws ! Suc i)"
          using nopair next_exists by (auto simp: qualifying_pair_def)
        then show ?thesis by (simp add: d0 d1)
      qed
      then show ?thesis
        using extractCorrections_loop_step [OF True nopair, of src] IH by simp
    qed
  qed
qed

lemma extractCorrections_loop_no_pair:
  assumes "\<not> adjacent_delete_add ws"
  shows "extractCorrections_loop ws src i = []"
proof (induction "length ws - i" arbitrary: i rule: less_induct)
  case less
  show ?case
  proof (cases "i < length ws")
    case False
    then show ?thesis by (simp add: extractCorrections_loop_end)
  next
    case True
    have nopair: "\<not> (ch_removed (ws ! i) \<and> Suc i < length ws \<and> ch_added (ws ! Suc i))"
      using assms unfolding adjacent_delete_add_def
      by (metis Suc_eq_plus1 less_diff_conv)
    have "length ws - (i + 1) < length ws - i"
      using True by arith
    then have "extractCorrections_loop ws src (i + 1) = []"
      by (rule less)
    then show ?thesis
      using extractCorrections_loop_step [OF True nopair, of src] by simp
  qed
qed


text \<open>
  C7. On a word diff whose records are each a deletion, an addition or unchanged text,
  \<open>extractCorrections\<close> returns what the scan of the specification returns: one
  correction, with the trimmed texts and the source label, for every deletion immediately
  followed by an addition whose trimmed texts are non-empty and different, the scan moving
  past both records, and past one record otherwise. Without an adjacent deletion and
  addition the result is empty.
\<close>

theorem extractCorrections_scan:
  assumes "\<forall>c \<in> set (diffWords lib original modified). \<not> (ch_added c \<and> ch_removed c)"
  shows "extractCorrections lib original modified sourceLabel =
           scan_spec (diffWords lib original modified) sourceLabel \<and>
         (\<not> adjacent_delete_add (diffWords lib original modified) \<longrightarrow>
            extractCorrections lib original modified sourceLabel = [])"
  using extractCorrections_loop_scan_spec [OF assms, of sourceLabel 0]
    extractCorrections_loop_no_pair [of "diffWords lib original modified" sourceLabel 0]
  by (simp add: extractCorrections_def)

theorem extractCorrections_scan_witness:
  "extractCorrections (fixed_diff replaced_word) (js ''teh cat'') (js ''the cat'') (Some (js ''a.md'')) =
     [\<lparr>co_original = js ''teh'', co_corrected = js ''the'', co_sourceFile = Some (js ''a.md''),
       co_context = None\<rparr>] \<and>
   \<not> adjacent_delete_add (diffWords (fixed_diff inserted_word) (js ''Adam Tooze'') (js ''Professor Adam Tooze'')) \<and>
   extractCorrections (fixed_diff inserted_word) (js ''Adam Tooze'') (js ''Professor Adam Tooze'') None = []"
proof -
  have wf1: "\<forall>c \<in> set (diffWords (fixed_diff replaced_word) (js ''teh cat'') (js ''the cat'')).
      \<not> (ch_added c \<and> ch_removed c)"
    by (simp add: fixed_diff_def replaced_word_def)
  have wf2: "\<forall>c \<in> set (diffWords (fixed_diff inserted_word) (js ''Adam Tooze'') (js ''Professor Adam Tooze'')).
      \<not> (ch_added c \<and> ch_removed c)"
    by (simp add: fixed_diff_def inserted_word_def)
  have nopair: "\<not> adjacent_delete_add
      (diffWords (fixed_diff inserted_word) (js ''Adam Tooze'') (js ''Professor Adam Tooze''))"
    by (simp add: adjacent_delete_add_def fixed_diff_def inserted_word_def)
  have scan: "scan_spec (diffWords (fixed_diff replaced_word) (js ''teh cat'') (js ''the cat''))
      (Some (js ''a.md'')) =
     [\<lparr>co_original = js ''teh'', co_corrected = js ''the'', co_sourceFile = Some (js ''a.md''),
       co_context = None\<rparr>]"
    by (simp add: fixed_diff_def replaced_word_def qualifying_pair_def trim_def js_def is_ws_def)
  from extractCorrections_scan [OF wf1, of "Some (js ''a.md'')"] scan
  have r1: "extractCorrections (fixed_diff replaced_word) (js ''teh cat'') (js ''the cat'')
      (Some (js ''a.md'')) =
     [\<lparr>co_original = js ''teh'', co_corrected = js ''the'', co_sourceFile = Some (js ''a.md''),
       co_context = None\<rparr>]"
    by (simp only:)
  from extractCorrections_scan [OF wf2, of None] nopair
  have r2: "extractCorrections (fixed_diff inserted_word) (js ''Adam Tooze'')
      (js ''Professor Adam Tooze'') None = []"
    by blast
  from r1 nopair r2 show ?thesis by (intro conjI)
qed

section \<open>The compare-and-swap write\<close>

lemma updateEntity_conflict:
  assumes "respond world tr (versionsRequest c pi update) = Responded r"
    and "rs_status r = 409"
  shows "updateEntity world c pi update tr =
           (Inl (conflict_error pi (eu_expect_tip update)
                   (respond world (tr @ [Fetch (versionsRequest c pi update)]) (entityRequest c pi))),
            tr @ [Fetch (versionsRequest c pi update), Fetch (entityRequest c pi)])"
  using assms
  by (simp add: updateEntity_def getEntity_def fetch_def conflict_error_def
      split: outcome.split json_body.split)

lemma conflict_error_cases:
  "conflict_error pi tip (Rejected m) = NativeError m"
  "rs_status g = 404 \<Longrightarrow> conflict_error pi tip (Responded g) = EntityNotFoundError pi"
  "rs_status g \<noteq> 404 \<Longrightarrow> \<not> ok g \<Longrightarrow>
     conflict_error pi tip (Responded g) =
       ArkeEditError (js ''Failed to fetch entity: '' @ rs_statusText g) (js ''FETCH_ERROR'')
         (StatusDetails (rs_status g))"
  "ok g \<Longrightarrow> rs_json g = EntityJson current \<Longrightarrow>
     conflict_error pi tip (Responded g) = CASConflictError pi tip (en_manifest_cid current)"
  by (auto simp: conflict_error_def ok_def)

text \<open>
  C9. When the write is answered with 409, \<open>updateEntity\<close> sends exactly one more request,
  the fetch of the entity, and throws according to its outcome: the conflict, carrying the
  expected tip and the fetched tip, when the fetch succeeds; and the error of the fetch
  itself (entity not found for a 404, the generic fetch error for another failure status,
  the network failure) when it does not.
\<close>

theorem updateEntity_409_follow_up:
  assumes "respond world tr (versionsRequest c pi update) = Responded r"
    and "rs_status r = 409"
  shows "snd (updateEntity world c pi update tr) =
           tr @ [Fetch (versionsRequest c pi update), Fetch (entityRequest c pi)] \<and>
         (\<forall>g. respond world (tr @ [Fetch (versionsRequest c pi update)]) (entityRequest c pi) =
                Responded g \<longrightarrow>
              (rs_status g = 404 \<longrightarrow>
                 fst (updateEntity world c pi update tr) = Inl (EntityNotFoundError pi)) \<and>
              (rs_status g \<noteq> 404 \<and> \<not> ok g \<longrightarrow>
                 fst (updateEntity world c pi update tr) =
                   Inl (ArkeEditError (js ''Failed to fetch entity: '' @ rs_statusText g)
                          (js ''FETCH_ERROR'') (StatusDetails (rs_status g)))) \<and>
              (\<forall>current. ok g \<and> rs_json g = EntityJson current \<longrightarrow>
                 fst (updateEntity world c pi update tr) =
                   Inl (CASConflictError pi (eu_expect_tip update) (en_manifest_cid current)))) \<and>
         (\<forall>m. respond world (tr @ [Fetch (versionsRequest c pi update)]) (entityRequest c pi) =
                Rejected m \<longrightarrow>
              fst (updateEntity world c pi update tr) = Inl (NativeError m))"
  by (simp add: updateEntity_conflict [OF assms] conflict_error_cases)

lemma world_conflict_then_write:
  "respond (world_conflict_then followUp) tr (versionsRequest c pi update) =
     Responded \<lparr>rs_status = 409, rs_statusText = js ''Conflict'', rs_text = [], rs_json = NotJson\<rparr>"
  by (simp add: world_conflict_then_def versionsRequest_def plain_def)

lemma world_conflict_then_read:
  "respond (world_conflict_then followUp) tr (entityRequest c pi) = followUp"
  by (simp add: world_conflict_then_def entityRequest_def)

theorem updateEntity_409_follow_up_witness:
  "fst (updateEntity (world_conflict_then (plain 404 ''Not Found'' NotJson)) example_client
          (js ''E'') example_update []) = Inl (EntityNotFoundError (js ''E'')) \<and>
   fst (updateEntity (world_conflict_then (plain 500 ''Internal Server Error'' NotJson))
          example_client (js ''E'') example_update []) =
     Inl (ArkeEditError (js ''Failed to fetch entity: Internal Server Error'') (js ''FETCH_ERROR'')
            (StatusDetails 500)) \<and>
   fst (updateEntity (world_conflict_then (Rejected (js ''offline''))) example_client
          (js ''E'') example_update []) = Inl (NativeError (js ''offline'')) \<and>
   fst (updateEntity (world_conflict_then (plain 200 ''OK'' (EntityJson entity_v4))) example_client
          (js ''E'') example_update []) = Inl (CASConflictError (js ''E'') (js ''T3'') (js ''T4'')) \<and>
   snd (updateEntity (world_conflict_then (plain 200 ''OK'' (EntityJson entity_v4))) example_client
          (js ''E'') example_update []) =
     [Fetch (versionsRequest example_client (js ''E'') example_update),
      Fetch (entityRequest example_client (js ''E''))]"
proof -
  have st: "rs_status \<lparr>rs_status = 409, rs_statusText = js ''Conflict'', rs_text = [],
      rs_json = NotJson\<rparr> = 409"
    by simp
  note w = world_conflict_then_write [of _ "[]" example_client "js ''E''" example_update]
  show ?thesis
    using updateEntity_409_follow_up [OF w [of "plain 404 ''Not Found'' NotJson"] st]
      updateEntity_409_follow_up [OF w [of "plain 500 ''Internal Server Error'' NotJson"] st]
      updateEntity_409_follow_up [OF w [of "Rejected (js ''offline'')"] st]
      updateEntity_409_follow_up [OF w [of "plain 200 ''OK'' (EntityJson entity_v4)"] st]
    by (simp add: world_conflict_then_read plain_def ok_def example_update_def entity_v4_def
        entity_v3_def js_def)
qed

section \<open>Submit\<close>

lemma getDiff_frame [simp]:
  "getDiff lib (s\<lparr>ss_submitting := b\<rparr>) = getDiff lib s"
  "getDiff lib (s\<lparr>ss_result := res\<rparr>) = getDiff lib s"
  "getDiff lib (s\<lparr>ss_entity := en\<rparr>) = getDiff lib s"
  by (simp_all add: getDiff_def)

lemma buildCustomPrompts_frame [simp]:
  "buildCustomPrompts lib (s\<lparr>ss_submitting := b\<rparr>) = buildCustomPrompts lib s"
  "buildCustomPrompts lib (s\<lparr>ss_result := res\<rparr>) = buildCustomPrompts lib s"
  "buildCustomPrompts lib (s\<lparr>ss_entity := en\<rparr>) = buildCustomPrompts lib s"
  by (simp_all add: buildCustomPrompts_def split: sum.split)

lemma phase2_request_frame [simp]:
  "phase2_request (s\<lparr>ss_submitting := b\<rparr>) cp = phase2_request s cp"
  "phase2_request (s\<lparr>ss_result := res\<rparr>) cp = phase2_request s cp"
  "phase2_request (s\<lparr>ss_entity := en\<rparr>) cp = phase2_request s cp"
  by (simp_all add: phase2_request_def)

lemma set_object_entries [simp]: "set (object_entries obj) = set obj"
  by (auto simp: object_entries_def)

lemma getDiff_loop_none:
  assumes "\<forall>(name, content) \<in> set entries.
             hasSignificantChanges_js (or_empty (get_prop loaded name)) content = Inr False"
  shows "getDiff_loop lib loaded entries diffs = Inr diffs"
  using assms by (induction entries arbitrary: diffs) (auto simp: getDiffEntry_def)

lemma getDiff_empty:
  assumes "\<forall>(name, content) \<in> set (ss_editedContent s).
             hasSignificantChanges_js (or_empty (get_prop (ss_loadedComponents s) name)) content =
               Inr False"
  shows "getDiff lib s = Inr []"
  using assms by (simp add: getDiff_def getDiff_loop_none)

lemma submit_phase1_conflict:
  assumes "getDiff lib s = Inr diffs" and "\<exists>d \<in> set diffs. cd_hasChanges d"
    and "upload_loop world (ss_client s) (ss_loadedComponents s)
           (object_entries (ss_editedContent s)) [] tr = (Inr updates, tr1)"
    and "respond world tr1 (versionsRequest (ss_client s) (ss_pi s) (phase1_update ent updates note)) =
           Responded r"
    and "rs_status r = 409"
  shows "submit_phase1 world lib s ent note tr =
     (Inl (conflict_error (ss_pi s) (en_manifest_cid ent)
             (respond world
                (tr1 @ [Fetch (versionsRequest (ss_client s) (ss_pi s) (phase1_update ent updates note))])
                (entityRequest (ss_client s) (ss_pi s)))),
      s,
      tr1 @ [Fetch (versionsRequest (ss_client s) (ss_pi s) (phase1_update ent updates note)),
             Fetch (entityRequest (ss_client s) (ss_pi s))])"
  using assms(1,2,3) updateEntity_conflict [OF assms(4,5)]
  by (simp add: submit_phase1_def phase1_update_def)

lemma submit_conflict:
  assumes "\<not> ss_submitting s" and "ss_entity s = Some ent"
    and "getDiff lib s = Inr diffs" and "\<exists>d \<in> set diffs. cd_hasChanges d"
    and "upload_loop world (ss_client s) (ss_loadedComponents s)
           (object_entries (ss_editedContent s)) [] tr = (Inr updates, tr1)"
    and "respond world tr1 (versionsRequest (ss_client s) (ss_pi s) (phase1_update ent updates note)) =
           Responded r"
    and "rs_status r = 409"
  shows "submit world lib s note tr =
     (Inl (conflict_error (ss_pi s) (en_manifest_cid ent)
             (respond world
                (tr1 @ [Fetch (versionsRequest (ss_client s) (ss_pi s) (phase1_update ent updates note))])
                (entityRequest (ss_client s) (ss_pi s)))),
      s\<lparr>ss_result := Some \<lparr>er_saved = None, er_reprocess = None\<rparr>\<rparr>,
      tr1 @ [Fetch (versionsRequest (ss_client s) (ss_pi s) (phase1_update ent updates note)),
             Fetch (entityRequest (ss_client s) (ss_pi s))])"
proof -
  let ?s0 = "s\<lparr>ss_submitting := True, ss_result := Some \<lparr>er_saved = None, er_reprocess = None\<rparr>\<rparr>"
  have p1: "submit_phase1 world lib ?s0 ent note tr =
     (Inl (conflict_error (ss_pi s) (en_manifest_cid ent)
             (respond world
                (tr1 @ [Fetch (versionsRequest (ss_client s) (ss_pi s) (phase1_update ent updates note))])
                (entityRequest (ss_client s) (ss_pi s)))),
      ?s0,
      tr1 @ [Fetch (versionsRequest (ss_client s) (ss_pi s) (phase1_update ent updates note)),
             Fetch (entityRequest (ss_client s) (ss_pi s))])"
    using submit_phase1_conflict [of lib "?s0" diffs world tr updates tr1 ent "note" r] assms(3-7)
    by simp
  have restore: "?s0\<lparr>ss_submitting := False\<rparr> =
      s\<lparr>ss_result := Some \<lparr>er_saved = None, er_reprocess = None\<rparr>\<rparr>"
    using assms(1) by simp
  show ?thesis
    using assms(1,2) by (simp add: submit_def p1 restore del: session.simps)
qed

text \<open>
  C1 (as amended). Take a submit that reaches the phase-1 write (no submit in flight, the
  session loaded, a changed component, all uploads done) and whose write is answered with
  409. Then submit fails; after the write the client sends one request only, the follow-up fetch of the
  entity, so the write is not sent again; the entity held by the session, with its version
  and tip, is what it was before the call; and submit throws according to the outcome of
  the follow-up fetch: the conflict, carrying the tip the session expected and the tip of
  the fetched entity, when the fetch returns the entity; the entity-not-found error when it
  is answered with 404; the generic fetch error when it is answered with another failure
  status; and the network failure itself when the request is rejected.
\<close>

theorem submit_conflict_surfaced:
  assumes "\<not> ss_submitting s" and "ss_entity s = Some ent"
    and "getDiff lib s = Inr diffs" and "\<exists>d \<in> set diffs. cd_hasChanges d"
    and "upload_loop world (ss_client s) (ss_loadedComponents s)
           (object_entries (ss_editedContent s)) [] tr = (Inr updates, tr1)"
    and "respond world tr1 (versionsRequest (ss_client s) (ss_pi s) (phase1_update ent updates note)) =
           Responded r"
    and "rs_status r = 409"
  shows "snd (snd (submit world lib s note tr)) =
           tr1 @ [Fetch (versionsRequest (ss_client s) (ss_pi s) (phase1_update ent updates note)),
                  Fetch (entityRequest (ss_client s) (ss_pi s))] \<and>
         ss_entity (fst (snd (submit world lib s note tr))) = ss_entity s \<and>
         (\<exists>e. fst (submit world lib s note tr) = Inl e) \<and>
         (\<forall>g. respond world
                (tr1 @ [Fetch (versionsRequest (ss_client s) (ss_pi s) (phase1_update ent updates note))])
                (entityRequest (ss_client s) (ss_pi s)) = Responded g \<longrightarrow>
              (\<forall>current. ok g \<and> rs_json g = EntityJson current \<longrightarrow>
                 fst (submit world lib s note tr) =
                   Inl (CASConflictError (ss_pi s) (en_manifest_cid ent) (en_manifest_cid current))) \<and>
              (rs_status g = 404 \<longrightarrow>
                 fst (submit world lib s note tr) = Inl (EntityNotFoundError (ss_pi s))) \<and>
              (rs_status g \<noteq> 404 \<and> \<not> ok g \<longrightarrow>
                 fst (submit world lib s note tr) =
                   Inl (ArkeEditError (js ''Failed to fetch entity: '' @ rs_statusText g)
                          (js ''FETCH_ERROR'') (StatusDetails (rs_status g))))) \<and>
         (\<forall>m. respond world
                (tr1 @ [Fetch (versionsRequest (ss_client s) (ss_pi s) (phase1_update ent updates note))])
                (entityRequest (ss_client s) (ss_pi s)) = Rejected m \<longrightarrow>
              fst (submit world lib s note tr) = Inl (NativeError m))"
  by (simp add: submit_conflict [OF assms] conflict_error_cases)

lemma session_edited_entries:
  "object_entries (ss_editedContent session_edited) = [(js ''description.md'', js ''new text'')]"
  by (simp add: session_edited_def EditSession_new_def object_entries_def array_index_def js_def)

lemma session_edited_original:
  "or_empty (get_prop (ss_loadedComponents session_edited) (js ''description.md'')) =
     Str (js ''old text'')"
  by (simp add: session_edited_def EditSession_new_def or_empty_def get_prop_def)

lemma old_new_differ: "hasSignificantChanges (js ''old text'') (js ''new text'')"
  by (simp add: hasSignificantChanges_def trim_def is_ws_def js_def sp_def)

lemma session_edited_uploads:
  "upload_loop (world_conflict_then followUp) (ss_client session_edited)
     (ss_loadedComponents session_edited) (object_entries (ss_editedContent session_edited)) [] [] =
   (Inr [(js ''description.md'', js ''c2'')],
    [Fetch (uploadRequest example_client (js ''new text'') (js ''description.md''))])"
proof -
  have up: "uploadContent (world_conflict_then followUp) example_client (js ''new text'')
      (js ''description.md'') [] =
     (Inr (js ''c2''),
      [Fetch (uploadRequest example_client (js ''new text'') (js ''description.md''))])"
    by (simp add: uploadContent_def fetch_def world_conflict_then_def uploadRequest_def plain_def
        ok_def)
  have client: "ss_client session_edited = example_client"
    by (simp add: session_edited_def EditSession_new_def)
  have assign: "assign_prop (js ''description.md'') (js ''c2'') [] =
      [(js ''description.md'', js ''c2'')]"
    by (simp add: assign_prop_def js_def)
  show ?thesis
    by (simp add: session_edited_entries session_edited_original hasSignificantChanges_js_def
        old_new_differ client up assign)
qed

lemma session_edited_diff:
  "getDiff one_line_changed session_edited =
     Inr [createComponentDiff one_line_changed (js ''description.md'') (js ''old text'')
            (js ''new text'')]"
  by (simp add: getDiff_def session_edited_entries getDiffEntry_def session_edited_original
      hasSignificantChanges_js_def old_new_differ str_of_def)

lemma session_edited_changed:
  "\<exists>d \<in> set [createComponentDiff one_line_changed (js ''description.md'') (js ''old text'')
                  (js ''new text'')]. cd_hasChanges d"
  by (simp add: createComponentDiff_def Let_def diff_def one_line_changed_def)

lemma session_edited_fields:
  "\<not> ss_submitting session_edited"
  "ss_entity session_edited = Some entity_v3"
  "ss_client session_edited = example_client"
  "ss_pi session_edited = js ''E''"
  by (simp_all add: session_edited_def EditSession_new_def)

lemma example_tips:
  "en_manifest_cid entity_v3 = js ''T3''"
  "en_manifest_cid entity_v4 = js ''T4''"
  by (simp_all add: entity_v3_def entity_v4_def)

lemma session_edited_update:
  "phase1_update entity_v3 [(js ''description.md'', js ''c2'')] (js ''note'') = example_update"
  by (simp add: phase1_update_def example_update_def entity_v3_def)

lemma session_edited_write:
  "respond (world_conflict_then followUp)
     [Fetch (uploadRequest example_client (js ''new text'') (js ''description.md''))]
     (versionsRequest (ss_client session_edited) (ss_pi session_edited)
        (phase1_update entity_v3 [(js ''description.md'', js ''c2'')] (js ''note''))) =
   Responded \<lparr>rs_status = 409, rs_statusText = js ''Conflict'', rs_text = [], rs_json = NotJson\<rparr>"
  by (rule world_conflict_then_write)

lemma status_409:
  "rs_status \<lparr>rs_status = 409, rs_statusText = js ''Conflict'', rs_text = [],
     rs_json = NotJson\<rparr> = 409"
  by simp

theorem submit_conflict_surfaced_witness:
  "fst (submit (world_conflict_then (plain 200 ''OK'' (EntityJson entity_v4))) one_line_changed
          session_edited (js ''note'') []) =
     Inl (CASConflictError (js ''E'') (js ''T3'') (js ''T4'')) \<and>
   fst (submit (world_conflict_then (plain 404 ''Not Found'' NotJson)) one_line_changed
          session_edited (js ''note'') []) = Inl (EntityNotFoundError (js ''E'')) \<and>
   fst (submit (world_conflict_then (plain 500 ''Internal Server Error'' NotJson)) one_line_changed
          session_edited (js ''note'') []) =
     Inl (ArkeEditError (js ''Failed to fetch entity: Internal Server Error'') (js ''FETCH_ERROR'')
            (StatusDetails 500)) \<and>
   fst (submit (world_conflict_then (Rejected (js ''offline''))) one_line_changed
          session_edited (js ''note'') []) = Inl (NativeError (js ''offline'')) \<and>
   snd (snd (submit (world_conflict_then (plain 200 ''OK'' (EntityJson entity_v4))) one_line_changed
          session_edited (js ''note'') [])) =
     [Fetch (uploadRequest example_client (js ''new text'') (js ''description.md'')),
      Fetch (versionsRequest example_client (js ''E'') example_update),
      Fetch (entityRequest example_client (js ''E''))] \<and>
   ss_entity (fst (snd (submit (world_conflict_then (plain 200 ''OK'' (EntityJson entity_v4)))
          one_line_changed session_edited (js ''note'') []))) = Some entity_v3"
proof -
  note hyps = session_edited_fields(1,2) session_edited_diff session_edited_changed
  show ?thesis
    using submit_conflict_surfaced [OF hyps
          session_edited_uploads [of "plain 200 ''OK'' (EntityJson entity_v4)"]
          session_edited_write status_409]
      submit_conflict_surfaced [OF hyps
          session_edited_uploads [of "plain 404 ''Not Found'' NotJson"]
          session_edited_write status_409]
      submit_conflict_surfaced [OF hyps
          session_edited_uploads [of "plain 500 ''Internal Server Error'' NotJson"]
          session_edited_write status_409]
      submit_conflict_surfaced [OF hyps
          session_edited_uploads [of "Rejected (js ''offline'')"]
          session_edited_write status_409]
    by (simp add: session_edited_fields phase1_update_def example_update_def
        world_conflict_then_read plain_def ok_def entity_v3_def entity_v4_def js_def)
qed

text \<open>
  The claim as first stated fails when the follow-up fetch fails: here the write is
  answered with 409, the entity is then reported absent, and submit throws the
  entity-not-found error, which is not a conflict error.
\<close>

theorem submit_conflict_counterexample:
  "respond (world_conflict_then (plain 404 ''Not Found'' NotJson))
     [Fetch (uploadRequest example_client (js ''new text'') (js ''description.md''))]
     (versionsRequest example_client (js ''E'') example_update) = plain 409 ''Conflict'' NotJson \<and>
   submit (world_conflict_then (plain 404 ''Not Found'' NotJson)) one_line_changed session_edited
     (js ''note'') [] =
     (Inl (EntityNotFoundError (js ''E'')),
      session_edited\<lparr>ss_result := Some \<lparr>er_saved = None, er_reprocess = None\<rparr>\<rparr>,
      [Fetch (uploadRequest example_client (js ''new text'') (js ''description.md'')),
       Fetch (versionsRequest example_client (js ''E'') example_update),
       Fetch (entityRequest example_client (js ''E''))]) \<and>
   \<not> is_CASConflictError (EntityNotFoundError (js ''E''))"
proof -
  let ?w = "world_conflict_then (plain 404 ''Not Found'' NotJson)"
  have "submit ?w one_line_changed session_edited (js ''note'') [] =
     (Inl (EntityNotFoundError (js ''E'')),
      session_edited\<lparr>ss_result := Some \<lparr>er_saved = None, er_reprocess = None\<rparr>\<rparr>,
      [Fetch (uploadRequest example_client (js ''new text'') (js ''description.md'')),
       Fetch (versionsRequest example_client (js ''E'') example_update),
       Fetch (entityRequest example_client (js ''E''))])"
    using submit_conflict [OF session_edited_fields(1,2) session_edited_diff session_edited_changed
        session_edited_uploads session_edited_write status_409]
    by (simp add: session_edited_fields session_edited_update world_conflict_then_read plain_def
        conflict_error_def)
  then show ?thesis
    by (simp add: world_conflict_then_write plain_def is_CASConflictError_def)
qed

lemma submit_phase1_noop:
  assumes "getDiff lib s = Inr []"
  shows "submit_phase1 world lib s ent note tr = (Inr (), s, tr)"
  using assms by (simp add: submit_phase1_def)

lemma submit_phase2_noop:
  assumes "sc_components (ss_scope s) = []"
  shows "submit_phase2 world lib s tr = (Inr (), s, tr)"
  using assms by (simp add: submit_phase2_def)

text \<open>
  C5 (as amended). For every loaded session with no submit in flight, in which
  \<^verbatim>\<open>hasSignificantChanges\<close> returns false for every edited component against its loaded
  original (the empty string when none is loaded), and with an empty scope, \<open>submit\<close>
  succeeds, returns the empty result (neither \<open>saved\<close> nor \<open>reprocess\<close>), and leaves the
  trace as it was: no upload, no write and no reprocess request is sent.
\<close>

theorem submit_noop:
  assumes "\<not> ss_submitting s"
    and "ss_entity s \<noteq> None"
    and "\<forall>(name, content) \<in> set (ss_editedContent s).
           hasSignificantChanges_js (or_empty (get_prop (ss_loadedComponents s) name)) content =
             Inr False"
    and "sc_components (ss_scope s) = []"
  shows "submit world lib s note tr =
           (Inr \<lparr>er_saved = None, er_reprocess = None\<rparr>,
            s\<lparr>ss_result := Some \<lparr>er_saved = None, er_reprocess = None\<rparr>\<rparr>,
            tr)"
proof -
  let ?s0 = "s\<lparr>ss_submitting := True, ss_result := Some \<lparr>er_saved = None, er_reprocess = None\<rparr>\<rparr>"
  from assms(2) obtain ent where ent: "ss_entity s = Some ent" by auto
  have "getDiff lib s = Inr []" using assms(3) by (rule getDiff_empty)
  then have p1: "submit_phase1 world lib ?s0 ent note tr = (Inr (), ?s0, tr)"
    by (simp add: submit_phase1_noop)
  have p2: "submit_phase2 world lib ?s0 tr = (Inr (), ?s0, tr)"
    using assms(4) by (simp add: submit_phase2_noop)
  have restore: "?s0\<lparr>ss_submitting := False\<rparr> =
      s\<lparr>ss_result := Some \<lparr>er_saved = None, er_reprocess = None\<rparr>\<rparr>"
    using assms(1) by simp
  show ?thesis
    using assms(1) ent by (simp add: submit_def p1 p2 restore del: session.simps)
qed

lemma session_manual_loaded_eq:
  "session_manual_loaded =
     (EditSession_new example_client (js ''E'')
        (Some \<lparr>cfg_mode = ManualWithReview, cfg_aiReviewEnabled = None\<rparr>) [])
     \<lparr>ss_entity := Some entity_v3,
      ss_loadedComponents := [js ''description.md'' \<mapsto> js ''old text'']\<rparr>"
  by (rule session_manual_loaded_def)

lemma session_reformatted_fields:
  "\<not> ss_submitting session_reformatted"
  "ss_entity session_reformatted \<noteq> None"
  "sc_components (ss_scope session_reformatted) = []"
  by (simp_all add: session_reformatted_def session_manual_loaded_eq EditSession_new_def
      DEFAULT_SCOPE_def)

lemma session_reformatted_same:
  "\<forall>(name, content) \<in> set (ss_editedContent session_reformatted).
     hasSignificantChanges_js
       (or_empty (get_prop (ss_loadedComponents session_reformatted) name)) content = Inr False"
  by (simp add: session_reformatted_def session_manual_loaded_eq or_empty_def get_prop_def
      hasSignificantChanges_js_def hasSignificantChanges_def trim_def is_ws_def sp_def js_def)

theorem submit_noop_witness:
  "submit (world_conflict_then (Rejected (js ''offline''))) one_line_changed session_reformatted
     (js ''note'') [] =
   (Inr \<lparr>er_saved = None, er_reprocess = None\<rparr>,
    session_reformatted\<lparr>ss_result := Some \<lparr>er_saved = None, er_reprocess = None\<rparr>\<rparr>,
    [])"
  by (rule submit_noop [OF session_reformatted_fields(1,2) session_reformatted_same
        session_reformatted_fields(3)])

text \<open>
  The claim as first stated fails for a loaded session whose earlier submit has not yet
  returned: the edit in it is no significant change and the scope is empty, and a second
  call of \<open>submit\<close> is refused.
\<close>

theorem submit_in_flight_counterexample:
  "ss_entity (session_reformatted\<lparr>ss_submitting := True\<rparr>) = Some entity_v3 \<and>
   getDiff one_line_changed (session_reformatted\<lparr>ss_submitting := True\<rparr>) = Inr [] \<and>
   sc_components (ss_scope (session_reformatted\<lparr>ss_submitting := True\<rparr>)) = [] \<and>
   submit world_accepting one_line_changed (session_reformatted\<lparr>ss_submitting := True\<rparr>)
     (js ''note'') [] =
     (Inl (ValidationError (js ''Submit already in progress'')),
      session_reformatted\<lparr>ss_submitting := True\<rparr>, [])"
proof -
  have "getDiff one_line_changed session_reformatted = Inr []"
    by (rule getDiff_empty [OF session_reformatted_same])
  then show ?thesis
    using session_reformatted_fields(3)
    by (simp add: submit_def) (simp add: session_reformatted_def session_manual_loaded_eq)
qed

text \<open>
  A component name that \<^verbatim>\<open>Object.prototype\<close> defines is outside the amended claim as
  well: with an edit stored under \<^verbatim>\<open>constructor\<close> the lookup of the original yields the
  inherited function, \<^verbatim>\<open>hasSignificantChanges\<close> throws, and so does \<open>submit\<close>.
\<close>

lemma submit_inherited_name:
  "submit world lib
     (session_manual_loaded\<lparr>ss_editedContent := [(js ''constructor'', [])]\<rparr>) note tr =
     (Inl (NativeError (js ''TypeError: original.replace is not a function'')),
      session_manual_loaded\<lparr>ss_editedContent := [(js ''constructor'', [])],
                            ss_result := Some \<lparr>er_saved = None, er_reprocess = None\<rparr>\<rparr>,
      tr)"
proof -
  have entries: "object_entries [(js ''constructor'', [])] = [(js ''constructor'', [])]"
    by (simp add: object_entries_def array_index_def js_def)
  have original: "or_empty (get_prop [js ''description.md'' \<mapsto> js ''old text''] (js ''constructor'')) =
      Inherited"
    by (simp add: or_empty_def get_prop_def object_prototype_names_def js_def)
  show ?thesis
    by (simp add: submit_def session_manual_loaded_eq EditSession_new_def submit_phase1_def
        getDiff_def entries getDiffEntry_def original hasSignificantChanges_js_def)
qed
section \<open>Waiting without a status URL\<close>

text \<open>
  C8. For a session whose status URL is absent, \<open>waitForCompletion\<close> returns the
  already-complete status at once, whatever the options, the remote side and the fuel of
  the polling loop: the trace is unchanged, so nothing was fetched, no timer was awaited
  and no progress callback was called.
\<close>

theorem waitForCompletion_without_statusUrl:
  assumes "ss_statusUrl s = None"
  shows "waitForCompletion fuel world s options tr =
           Some (Inr \<lparr>es_phase = Complete, es_saveComplete = True, es_reprocessStatus = None,
                      es_error = None\<rparr>, tr)"
  using assms by (simp add: waitForCompletion_def truthy_def Let_def)

theorem waitForCompletion_without_statusUrl_witness:
  "ss_statusUrl session_reformatted = None \<and>
   waitForCompletion 0 (world_conflict_then (Rejected (js ''offline''))) session_reformatted
     (Some \<lparr>po_intervalMs = Some 1, po_timeoutMs = Some 0, po_onProgress = True\<rparr>) [] =
   Some (Inr \<lparr>es_phase = Complete, es_saveComplete = True, es_reprocessStatus = None,
              es_error = None\<rparr>, [])"
proof -
  have absent: "ss_statusUrl session_reformatted = None"
    by (simp add: session_reformatted_def session_manual_loaded_eq EditSession_new_def)
  from absent waitForCompletion_without_statusUrl [OF absent] show ?thesis by simp
qed

section \<open>Configuration setters\<close>

text \<open>
  C4 (as amended). No configuration setter looks at whether the session is loaded: run on
  a session with any value of the entity field, a setter does what it does on the same
  session with another value of that field, and returns that field untouched. The
  mode-gated setters throw validation errors: \<open>setContent\<close> in ai-prompt mode and
  \<open>setPrompt\<close> in manual-only mode; in the other modes they succeed, and the remaining
  setters succeed in every mode.
\<close>

theorem setters_do_not_require_load:
  "setPrompt (s\<lparr>ss_entity := e\<rparr>) target prompt =
     map_sum id (\<lambda>s'. s'\<lparr>ss_entity := e\<rparr>) (setPrompt s target prompt) \<and>
   setContent (s\<lparr>ss_entity := e\<rparr>) componentName content =
     map_sum id (\<lambda>s'. s'\<lparr>ss_entity := e\<rparr>) (setContent s componentName content) \<and>
   addCorrection (s\<lparr>ss_entity := e\<rparr>) original corrected sourceFile =
     map_sum id (\<lambda>s'. s'\<lparr>ss_entity := e\<rparr>) (addCorrection s original corrected sourceFile) \<and>
   setScope (s\<lparr>ss_entity := e\<rparr>) scope =
     map_sum id (\<lambda>s'. s'\<lparr>ss_entity := e\<rparr>) (setScope s scope) \<and>
   clearPrompt (s\<lparr>ss_entity := e\<rparr>) target =
     map_sum id (\<lambda>s'. s'\<lparr>ss_entity := e\<rparr>) (clearPrompt s target) \<and>
   clearContent (s\<lparr>ss_entity := e\<rparr>) componentName =
     map_sum id (\<lambda>s'. s'\<lparr>ss_entity := e\<rparr>) (clearContent s componentName) \<and>
   clearCorrections (s\<lparr>ss_entity := e\<rparr>) =
     map_sum id (\<lambda>s'. s'\<lparr>ss_entity := e\<rparr>) (clearCorrections s) \<and>
   (ss_mode s = AiPrompt \<longrightarrow>
      setContent s componentName content =
        Inl (ValidationError (js ''Cannot set content in ai-prompt mode''))) \<and>
   (ss_mode s \<noteq> AiPrompt \<longrightarrow>
      setContent s componentName content =
        Inr (s\<lparr>ss_editedContent := assign_prop componentName content (ss_editedContent s)\<rparr>)) \<and>
   (ss_mode s = ManualOnly \<longrightarrow>
      setPrompt s target prompt =
        Inl (ValidationError (js ''Cannot set prompts in manual-only mode''))) \<and>
   (ss_mode s \<noteq> ManualOnly \<longrightarrow>
      setPrompt s target prompt = Inr (s\<lparr>ss_prompts := (ss_prompts s)(target \<mapsto> prompt)\<rparr>)) \<and>
   isl (addCorrection s original corrected sourceFile) = False \<and>
   isl (setScope s scope) = False \<and>
   isl (clearPrompt s target) = False \<and>
   isl (clearContent s componentName) = False \<and>
   isl (clearCorrections s) = False"
  by (simp add: setPrompt_def setContent_def addCorrection_def setScope_def clearPrompt_def
      clearContent_def clearCorrections_def split: option.split)

lemma session_new_fields:
  "ss_entity session_new = None" "ss_mode session_new = AiPrompt"
  by (simp_all add: session_new_def EditSession_new_def)

theorem setters_do_not_require_load_witness:
  "setContent session_new (js ''description.md'') (js ''text'') =
     Inl (ValidationError (js ''Cannot set content in ai-prompt mode'')) \<and>
   setPrompt session_new General (js ''Be brief'') =
     Inr (session_new\<lparr>ss_prompts := (ss_prompts session_new)(General \<mapsto> js ''Be brief'')\<rparr>) \<and>
   setPrompt (session_manual_loaded\<lparr>ss_mode := ManualOnly\<rparr>) General (js ''Be brief'') =
     Inl (ValidationError (js ''Cannot set prompts in manual-only mode'')) \<and>
   setContent session_manual_loaded (js ''description.md'') (js ''text'') =
     Inr (session_manual_loaded\<lparr>ss_editedContent :=
            assign_prop (js ''description.md'') (js ''text'') (ss_editedContent session_manual_loaded)\<rparr>)"
proof -
  have m: "ss_mode session_manual_loaded = ManualWithReview"
    by (simp add: session_manual_loaded_eq EditSession_new_def)
  show ?thesis
    using setters_do_not_require_load [where s = session_new and target = General
        and prompt = "js ''Be brief''" and componentName = "js ''description.md''"
        and content = "js ''text''"]
      setters_do_not_require_load [where s = "session_manual_loaded\<lparr>ss_mode := ManualOnly\<rparr>"
        and target = General and prompt = "js ''Be brief''"
        and componentName = "js ''description.md''" and content = "js ''text''"]
      setters_do_not_require_load [where s = session_manual_loaded and target = General
        and prompt = "js ''Be brief''" and componentName = "js ''description.md''"
        and content = "js ''text''"]
    by (simp add: session_new_fields m)
qed

text \<open>
  The claim as first stated fails: on a session that was constructed and never loaded,
  \<open>setPrompt\<close>, \<open>addCorrection\<close> and \<open>setScope\<close> succeed.
\<close>

theorem setters_before_load_counterexample:
  "ss_entity session_new = None \<and>
   setPrompt session_new General (js ''Be brief'') =
     Inr (session_new\<lparr>ss_prompts := [General \<mapsto> js ''Be brief'']\<rparr>) \<and>
   addCorrection session_new (js ''1895'') (js ''1985'') None =
     Inr (session_new\<lparr>ss_corrections :=
            [\<lparr>co_original = js ''1895'', co_corrected = js ''1985'', co_sourceFile = None,
              co_context = None\<rparr>]\<rparr>) \<and>
   setScope session_new \<lparr>ps_components = Some [Description], ps_cascade = None, ps_stopAtPi = None\<rparr> =
     Inr (session_new\<lparr>ss_scope :=
            \<lparr>sc_components = [Description], sc_cascade = False, sc_stopAtPi = None\<rparr>\<rparr>)"
  by (simp add: session_new_def EditSession_new_def setPrompt_def addCorrection_def setScope_def
      DEFAULT_SCOPE_def)


section \<open>Retry and backoff of the status poll\<close>

lemma retry_events_Suc:
  "retry_events rq base (Suc k) =
     retry_events rq base k @ [Fetch rq, Sleep (min (base * 2 ^ k) 30000)]"
  by (simp add: retry_events_def)

lemma backoff_step:
  "min (min (base * 2 ^ a) 30000 * 2) (30000::nat) = min (base * 2 ^ Suc a) 30000"
  by (simp add: min_def)

lemma fetchWithRetry_loop_last:
  assumes "maxRetries ro = 5"
  shows "fetchWithRetry_loop world rq ro 5 d le tr0 =
           (retry_result (respond world tr0 rq), tr0 @ [Fetch rq])"
  using assms
  by (simp add: fetchWithRetry_loop.simps [of world rq ro 5]
      fetchWithRetry_loop.simps [of world rq ro 6] fetch_def retry_result_def
      split: outcome.split)

lemma fetchWithRetry_loop_final:
  assumes "maxRetries ro = 5" and "a < 5" and "\<not> transient (respond world tr0 rq)"
  shows "fetchWithRetry_loop world rq ro a d le tr0 =
           (retry_result (respond world tr0 rq), tr0 @ [Fetch rq])"
  using assms
  by (simp add: fetchWithRetry_loop.simps [of world rq ro a] fetch_def retry_result_def
      transient_def split: outcome.splits)

lemma fetchWithRetry_loop_again:
  assumes "maxRetries ro = 5" and "backoffMultiplier ro = 2" and "maxDelayMs ro = 30000"
    and "a < 5" and "transient (respond world tr0 rq)"
  shows "\<exists>le'. fetchWithRetry_loop world rq ro a d le tr0 =
           fetchWithRetry_loop world rq ro (Suc a) (min (d * 2) 30000) le'
             (tr0 @ [Fetch rq, Sleep d])"
proof (cases "respond world tr0 rq")
  case (Responded r)
  with assms(5) have "rs_status r \<ge> 500" by (simp add: transient_def)
  with assms(1-4) Responded
  have "fetchWithRetry_loop world rq ro a d le tr0 =
      fetchWithRetry_loop world rq ro (Suc a) (min (d * 2) 30000)
        (Some (NativeError (js ''Server error: '' @ show_nat (rs_status r) @ js '' '' @
                            rs_statusText r)))
        (tr0 @ [Fetch rq, Sleep d])"
    by (simp add: fetchWithRetry_loop.simps [of world rq ro a] fetch_def sleep_def)
  then show ?thesis by blast
next
  case (Rejected m)
  with assms(1-4)
  have "fetchWithRetry_loop world rq ro a d le tr0 =
      fetchWithRetry_loop world rq ro (Suc a) (min (d * 2) 30000) (Some (NativeError m))
        (tr0 @ [Fetch rq, Sleep d])"
    by (simp add: fetchWithRetry_loop.simps [of world rq ro a] fetch_def sleep_def)
  then show ?thesis by blast
qed

lemma fetchWithRetry_loop_shape:
  assumes ro: "maxRetries ro = 5" "backoffMultiplier ro = 2" "maxDelayMs ro = 30000"
    and a: "a \<le> 5"
  shows "\<exists>k. a \<le> k \<and> k \<le> 5 \<and>
           (\<forall>j. a \<le> j \<and> j < k \<longrightarrow> transient (respond world (tr @ retry_events rq base j) rq)) \<and>
           (k < 5 \<longrightarrow> \<not> transient (respond world (tr @ retry_events rq base k) rq)) \<and>
           fetchWithRetry_loop world rq ro a (min (base * 2 ^ a) 30000) le
               (tr @ retry_events rq base a) =
             (retry_result (respond world (tr @ retry_events rq base k) rq),
              tr @ retry_events rq base k @ [Fetch rq])"
  using a
proof (induction "5 - a" arbitrary: a le)
  case 0
  then have "a = 5" by simp
  then show ?case
    using fetchWithRetry_loop_last [OF ro(1)] by auto
next
  case (Suc n)
  then have lt: "a < 5" by simp
  show ?case
  proof (cases "transient (respond world (tr @ retry_events rq base a) rq)")
    case False
    then show ?thesis
      using fetchWithRetry_loop_final [OF ro(1) lt False] lt by auto
  next
    case True
    from fetchWithRetry_loop_again [OF ro lt True]
    obtain le' where step:
      "fetchWithRetry_loop world rq ro a (min (base * 2 ^ a) 30000) le
          (tr @ retry_events rq base a) =
       fetchWithRetry_loop world rq ro (Suc a) (min (min (base * 2 ^ a) 30000 * 2) 30000) le'
          ((tr @ retry_events rq base a) @ [Fetch rq, Sleep (min (base * 2 ^ a) 30000)])"
      by blast
    have n: "n = 5 - Suc a" using Suc.hyps(2) by simp
    have "Suc a \<le> 5" using lt by simp
    from Suc.hyps(1) [OF n this, of le']
    obtain k where k: "Suc a \<le> k" "k \<le> 5"
      "\<forall>j. Suc a \<le> j \<and> j < k \<longrightarrow> transient (respond world (tr @ retry_events rq base j) rq)"
      "k < 5 \<longrightarrow> \<not> transient (respond world (tr @ retry_events rq base k) rq)"
      "fetchWithRetry_loop world rq ro (Suc a) (min (base * 2 ^ Suc a) 30000) le'
           (tr @ retry_events rq base (Suc a)) =
         (retry_result (respond world (tr @ retry_events rq base k) rq),
          tr @ retry_events rq base k @ [Fetch rq])"
      by blast
    have all: "\<forall>j. a \<le> j \<and> j < k \<longrightarrow> transient (respond world (tr @ retry_events rq base j) rq)"
      using k(3) True by (metis Suc_leI le_neq_implies_less)
    have "fetchWithRetry_loop world rq ro a (min (base * 2 ^ a) 30000) le
            (tr @ retry_events rq base a) =
          (retry_result (respond world (tr @ retry_events rq base k) rq),
           tr @ retry_events rq base k @ [Fetch rq])"
      using step k(5) by (simp only: backoff_step retry_events_Suc append_assoc)
    with k(1,2,4) all show ?thesis
      by (metis Suc_leD)
  qed
qed


lemma fetchWithRetry_shape:
  assumes "maxRetries ro = 5" "backoffMultiplier ro = 2" "maxDelayMs ro = 30000"
    and "initialDelayMs ro = base" and "base \<le> 30000"
  shows "\<exists>k \<le> 5.
     (\<forall>j < k. transient (respond world (tr @ retry_events rq base j) rq)) \<and>
     (k < 5 \<longrightarrow> \<not> transient (respond world (tr @ retry_events rq base k) rq)) \<and>
     fetchWithRetry world rq ro tr =
       (retry_result (respond world (tr @ retry_events rq base k) rq),
        tr @ retry_events rq base k @ [Fetch rq])"
proof -
  from fetchWithRetry_loop_shape [OF assms(1-3), of 0 world tr rq base None]
  obtain k where k: "k \<le> 5"
    "\<forall>j. 0 \<le> j \<and> j < k \<longrightarrow> transient (respond world (tr @ retry_events rq base j) rq)"
    "k < 5 \<longrightarrow> \<not> transient (respond world (tr @ retry_events rq base k) rq)"
    "fetchWithRetry_loop world rq ro 0 (min (base * 2 ^ 0) 30000) None
         (tr @ retry_events rq base 0) =
       (retry_result (respond world (tr @ retry_events rq base k) rq),
        tr @ retry_events rq base k @ [Fetch rq])"
    by blast
  have start: "retry_events rq base 0 = []" by (simp add: retry_events_def)
  have init: "min (base * 2 ^ 0) 30000 = initialDelayMs ro"
    using assms(4,5) by simp
  have "fetchWithRetry world rq ro tr =
      (retry_result (respond world (tr @ retry_events rq base k) rq),
       tr @ retry_events rq base k @ [Fetch rq])"
    using k(4) unfolding fetchWithRetry_def init start by simp
  with k(1,2,3) show ?thesis by blast
qed

lemma status_result_post:
  "(case retry_result out of
      Inl e \<Rightarrow> (Inl e, t)
    | Inr r \<Rightarrow>
        if \<not> ok r then
          (Inl (ArkeEditError (js ''Failed to fetch reprocess status: '' @ rs_statusText r)
                  (js ''STATUS_ERROR'') (StatusDetails (rs_status r))), t)
        else
          (case rs_json r of
             StatusJson st \<Rightarrow> (Inr st, t)
           | _ \<Rightarrow> (Inl (NativeError (js ''response.json()'')), t))) =
   (status_result out, t)"
  by (cases out) (auto simp: retry_result_def status_result_def split: json_body.split)

lemma getReprocessStatus_shape:
  assumes "base = base_delay isFirstPoll"
  shows "\<exists>k \<le> 5.
     (\<forall>j < k. transient (respond world
        (tr @ retry_events (statusRequest c statusUrl) base j) (statusRequest c statusUrl))) \<and>
     (k < 5 \<longrightarrow> \<not> transient (respond world
        (tr @ retry_events (statusRequest c statusUrl) base k) (statusRequest c statusUrl))) \<and>
     getReprocessStatus world c statusUrl isFirstPoll tr =
       (status_result (respond world
          (tr @ retry_events (statusRequest c statusUrl) base k) (statusRequest c statusUrl)),
        tr @ retry_events (statusRequest c statusUrl) base k @
          [Fetch (statusRequest c statusUrl)])"
proof -
  define ro where "ro = (if isFirstPoll then DEFAULT_RETRY_OPTIONS\<lparr>initialDelayMs := 3000\<rparr>
             else DEFAULT_RETRY_OPTIONS)"
  have ro: "maxRetries ro = 5" "backoffMultiplier ro = 2" "maxDelayMs ro = 30000"
    "initialDelayMs ro = base" "base \<le> 30000"
    using assms by (simp_all add: ro_def DEFAULT_RETRY_OPTIONS_def base_delay_def)
  have unfold: "getReprocessStatus world c statusUrl isFirstPoll tr =
      (case fetchWithRetry world (statusRequest c statusUrl) ro tr of
         (res, t) \<Rightarrow>
           (case res of
              Inl e \<Rightarrow> (Inl e, t)
            | Inr r \<Rightarrow>
                if \<not> ok r then
                  (Inl (ArkeEditError (js ''Failed to fetch reprocess status: '' @ rs_statusText r)
                          (js ''STATUS_ERROR'') (StatusDetails (rs_status r))), t)
                else
                  (case rs_json r of
                     StatusJson st \<Rightarrow> (Inr st, t)
                   | _ \<Rightarrow> (Inl (NativeError (js ''response.json()'')), t))))"
    unfolding getReprocessStatus_def ro_def Let_def
    by (cases isFirstPoll) (simp_all split: prod.split sum.split)
  from fetchWithRetry_shape [OF ro, of world tr "statusRequest c statusUrl"]
  obtain k where k: "k \<le> 5"
    "\<forall>j < k. transient (respond world
        (tr @ retry_events (statusRequest c statusUrl) base j) (statusRequest c statusUrl))"
    "k < 5 \<longrightarrow> \<not> transient (respond world
        (tr @ retry_events (statusRequest c statusUrl) base k) (statusRequest c statusUrl))"
    "fetchWithRetry world (statusRequest c statusUrl) ro tr =
       (retry_result (respond world
          (tr @ retry_events (statusRequest c statusUrl) base k) (statusRequest c statusUrl)),
        tr @ retry_events (statusRequest c statusUrl) base k @
          [Fetch (statusRequest c statusUrl)])"
    by blast
  have "getReprocessStatus world c statusUrl isFirstPoll tr =
       (status_result (respond world
          (tr @ retry_events (statusRequest c statusUrl) base k) (statusRequest c statusUrl)),
        tr @ retry_events (statusRequest c statusUrl) base k @
          [Fetch (statusRequest c statusUrl)])"
    unfolding unfold k(4) by (simp only: prod.case status_result_post)
  with k(1,2,3) show ?thesis by blast
qed

lemma retry_events_five:
  "retry_events rq 2000 5 =
     [Fetch rq, Sleep 2000, Fetch rq, Sleep 4000, Fetch rq, Sleep 8000, Fetch rq, Sleep 16000,
      Fetch rq, Sleep 30000]"
  "retry_events rq 3000 5 =
     [Fetch rq, Sleep 3000, Fetch rq, Sleep 6000, Fetch rq, Sleep 12000, Fetch rq, Sleep 24000,
      Fetch rq, Sleep 30000]"
  by (simp_all add: retry_events_def upt_rec)

lemma getReprocessStatus_immediate:
  assumes "respond world tr (statusRequest c statusUrl) = Responded r"
    and "rs_status r < 500"
  shows "getReprocessStatus world c statusUrl isFirstPoll tr =
           (status_result (Responded r), tr @ [Fetch (statusRequest c statusUrl)])"
proof -
  from getReprocessStatus_shape [OF refl, of world tr c statusUrl isFirstPoll]
  obtain k where k:
    "\<forall>j < k. transient (respond world
        (tr @ retry_events (statusRequest c statusUrl) (base_delay isFirstPoll) j)
        (statusRequest c statusUrl))"
    "getReprocessStatus world c statusUrl isFirstPoll tr =
       (status_result (respond world
          (tr @ retry_events (statusRequest c statusUrl) (base_delay isFirstPoll) k)
          (statusRequest c statusUrl)),
        tr @ retry_events (statusRequest c statusUrl) (base_delay isFirstPoll) k @
          [Fetch (statusRequest c statusUrl)])"
    by blast
  have "k = 0"
  proof (rule ccontr)
    assume "k \<noteq> 0"
    then have "transient (respond world
        (tr @ retry_events (statusRequest c statusUrl) (base_delay isFirstPoll) 0)
        (statusRequest c statusUrl))"
      using k(1) by blast
    then show False
      using assms by (simp add: retry_events_def transient_def)
  qed
  with k(2) assms(1) show ?thesis by (simp add: retry_events_def)
qed

text \<open>
  C2 (as amended). Every call of \<open>getReprocessStatus\<close> makes \<open>k + 1\<close> requests for some
  \<open>k \<le> 5\<close>: the first \<open>k\<close> meet a transient outcome (a status of 500 or more, or a
  network failure) and each is followed by a wait, the waits starting at 2 seconds (3 when
  \<open>isFirstPoll\<close> is true), doubling, capped at 30 seconds; when fewer than 5 retries were
  made the last request met an outcome that is not transient. The result is read off the
  outcome of the last request. So when the retries are used up on a response of status 500
  or more the generic error with code \<^verbatim>\<open>STATUS_ERROR\<close> and that status is thrown; when
  they are used up on a network failure that failure is thrown as it is; and a failure
  response below 500 ends the call after its single request with the \<^verbatim>\<open>STATUS_ERROR\<close>
  error.
\<close>

theorem getReprocessStatus_retry_policy:
  "(\<exists>k \<le> 5.
      (\<forall>j < k. transient (respond world
         (tr @ retry_events (statusRequest c statusUrl) (base_delay isFirstPoll) j)
         (statusRequest c statusUrl))) \<and>
      (k < 5 \<longrightarrow> \<not> transient (respond world
         (tr @ retry_events (statusRequest c statusUrl) (base_delay isFirstPoll) k)
         (statusRequest c statusUrl))) \<and>
      getReprocessStatus world c statusUrl isFirstPoll tr =
        (status_result (respond world
           (tr @ retry_events (statusRequest c statusUrl) (base_delay isFirstPoll) k)
           (statusRequest c statusUrl)),
         tr @ retry_events (statusRequest c statusUrl) (base_delay isFirstPoll) k @
           [Fetch (statusRequest c statusUrl)])) \<and>
   base_delay isFirstPoll = (if isFirstPoll then 3000 else 2000) \<and>
   retry_events rq 2000 5 =
     [Fetch rq, Sleep 2000, Fetch rq, Sleep 4000, Fetch rq, Sleep 8000, Fetch rq, Sleep 16000,
      Fetch rq, Sleep 30000] \<and>
   retry_events rq 3000 5 =
     [Fetch rq, Sleep 3000, Fetch rq, Sleep 6000, Fetch rq, Sleep 12000, Fetch rq, Sleep 24000,
      Fetch rq, Sleep 30000] \<and>
   (\<forall>r. rs_status r \<ge> 500 \<longrightarrow>
      status_result (Responded r) =
        Inl (ArkeEditError (js ''Failed to fetch reprocess status: '' @ rs_statusText r)
               (js ''STATUS_ERROR'') (StatusDetails (rs_status r)))) \<and>
   (\<forall>m. status_result (Rejected m) = Inl (NativeError m)) \<and>
   (\<forall>r. respond world tr (statusRequest c statusUrl) = Responded r \<and> rs_status r < 500 \<and>
        \<not> ok r \<longrightarrow>
      getReprocessStatus world c statusUrl isFirstPoll tr =
        (Inl (ArkeEditError (js ''Failed to fetch reprocess status: '' @ rs_statusText r)
                (js ''STATUS_ERROR'') (StatusDetails (rs_status r))),
         tr @ [Fetch (statusRequest c statusUrl)]))"
proof -
  have exhausted: "\<forall>r. rs_status r \<ge> 500 \<longrightarrow>
      status_result (Responded r) =
        Inl (ArkeEditError (js ''Failed to fetch reprocess status: '' @ rs_statusText r)
               (js ''STATUS_ERROR'') (StatusDetails (rs_status r)))"
    by (simp add: status_result_def ok_def)
  have rejected: "\<forall>m. status_result (Rejected m) = Inl (NativeError m)"
    by (simp add: status_result_def)
  have immediate: "\<forall>r. respond world tr (statusRequest c statusUrl) = Responded r \<and>
        rs_status r < 500 \<and> \<not> ok r \<longrightarrow>
      getReprocessStatus world c statusUrl isFirstPoll tr =
        (Inl (ArkeEditError (js ''Failed to fetch reprocess status: '' @ rs_statusText r)
                (js ''STATUS_ERROR'') (StatusDetails (rs_status r))),
         tr @ [Fetch (statusRequest c statusUrl)])"
    by (auto simp: getReprocessStatus_immediate status_result_def)
  show ?thesis
    using getReprocessStatus_shape [OF refl, of world tr c statusUrl isFirstPoll]
      retry_events_five [of rq] exhausted rejected immediate
    by (simp only: base_delay_def simp_thms)
qed


lemma count_retry_events:
  "length (filter (\<lambda>ev. ev = Fetch rq) (retry_events rq base j)) = j"
  by (induction j) (simp_all add: retry_events_Suc, simp add: retry_events_def)

lemma world_warming_up_transient:
  "transient (respond world_warming_up ([] @ retry_events status_rq base j) status_rq) \<longleftrightarrow> j < 4"
  by (simp add: world_warming_up_def count_retry_events transient_def plain_def)

theorem getReprocessStatus_retry_policy_witness:
  "getReprocessStatus world_warming_up example_client (js ''https://o/status/b1'') True [] =
     (Inr status_done,
      [Fetch status_rq, Sleep 3000, Fetch status_rq, Sleep 6000, Fetch status_rq, Sleep 12000,
       Fetch status_rq, Sleep 24000, Fetch status_rq]) \<and>
   getReprocessStatus world_unknown_job example_client (js ''https://o/status/b1'') False [] =
     (Inl (ArkeEditError (js ''Failed to fetch reprocess status: Not Found'') (js ''STATUS_ERROR'')
             (StatusDetails 404)),
      [Fetch status_rq]) \<and>
   getReprocessStatus world_overloaded example_client (js ''https://o/status/b1'') False [] =
     (Inl (ArkeEditError (js ''Failed to fetch reprocess status: Service Unavailable'')
             (js ''STATUS_ERROR'') (StatusDetails 503)),
      [Fetch status_rq, Sleep 2000, Fetch status_rq, Sleep 4000, Fetch status_rq, Sleep 8000,
       Fetch status_rq, Sleep 16000, Fetch status_rq, Sleep 30000, Fetch status_rq])"
proof -
  note policy = getReprocessStatus_retry_policy [where c = example_client
      and statusUrl = "js ''https://o/status/b1''" and tr = "[]", folded status_rq_def]
  from policy [of world_warming_up True]
  obtain k where k: "k \<le> 5"
    "\<forall>j < k. transient (respond world_warming_up
        ([] @ retry_events status_rq (base_delay True) j) status_rq)"
    "k < 5 \<longrightarrow> \<not> transient (respond world_warming_up
        ([] @ retry_events status_rq (base_delay True) k) status_rq)"
    "getReprocessStatus world_warming_up example_client (js ''https://o/status/b1'') True [] =
        (status_result (respond world_warming_up
           ([] @ retry_events status_rq (base_delay True) k) status_rq),
         [] @ retry_events status_rq (base_delay True) k @ [Fetch status_rq])"
    by blast
  have "\<not> 4 < k"
    using k(2) unfolding world_warming_up_transient by auto
  moreover have "k < 5 \<longrightarrow> \<not> k < 4"
    using k(3) unfolding world_warming_up_transient .
  ultimately have "k = 4" by arith
  with k(4) have first: "getReprocessStatus world_warming_up example_client
      (js ''https://o/status/b1'') True [] =
     (Inr status_done,
      [Fetch status_rq, Sleep 3000, Fetch status_rq, Sleep 6000, Fetch status_rq, Sleep 12000,
       Fetch status_rq, Sleep 24000, Fetch status_rq])"
    by (simp add: retry_events_def upt_rec base_delay_def world_warming_up_def plain_def
        status_result_def ok_def)
  have nf: "respond world_unknown_job [] status_rq =
      Responded \<lparr>rs_status = 404, rs_statusText = js ''Not Found'', rs_text = [], rs_json = NotJson\<rparr>"
    by (simp add: world_unknown_job_def plain_def)
  from policy [of world_unknown_job False] nf
  have second: "getReprocessStatus world_unknown_job example_client (js ''https://o/status/b1'')
      False [] =
     (Inl (ArkeEditError (js ''Failed to fetch reprocess status: Not Found'') (js ''STATUS_ERROR'')
             (StatusDetails 404)),
      [Fetch status_rq])"
    by (simp add: ok_def js_def)
  have busy: "respond world_overloaded tr rq =
      Responded \<lparr>rs_status = 503, rs_statusText = js ''Service Unavailable'', rs_text = [],
                 rs_json = NotJson\<rparr>" for tr rq
    by (simp add: world_overloaded_def plain_def)
  from policy [of world_overloaded False]
  obtain n where n: "n \<le> 5"
    "n < 5 \<longrightarrow> \<not> transient (respond world_overloaded
        ([] @ retry_events status_rq (base_delay False) n) status_rq)"
    "getReprocessStatus world_overloaded example_client (js ''https://o/status/b1'') False [] =
        (status_result (respond world_overloaded
           ([] @ retry_events status_rq (base_delay False) n) status_rq),
         [] @ retry_events status_rq (base_delay False) n @ [Fetch status_rq])"
    by blast
  have "\<not> n < 5"
    using n(2) by (simp add: busy transient_def)
  with n(1) have "n = 5" by simp
  with n(3) have third: "getReprocessStatus world_overloaded example_client
      (js ''https://o/status/b1'') False [] =
     (Inl (ArkeEditError (js ''Failed to fetch reprocess status: Service Unavailable'')
             (js ''STATUS_ERROR'') (StatusDetails 503)),
      [Fetch status_rq, Sleep 2000, Fetch status_rq, Sleep 4000, Fetch status_rq, Sleep 8000,
       Fetch status_rq, Sleep 16000, Fetch status_rq, Sleep 30000, Fetch status_rq])"
    by (simp add: busy status_result_def ok_def base_delay_def retry_events_five js_def)
  from first second third show ?thesis by (intro conjI)
qed



text \<open>
  The claim as first stated fails when the retries are used up on network failures: all six
  requests fail, the five waits are as claimed, and the error thrown is the failure of
  \<^verbatim>\<open>fetch\<close> itself, not one of the SDK's error classes.
\<close>

theorem getReprocessStatus_exhausted_counterexample:
  "getReprocessStatus world_unreachable example_client (js ''https://o/status/b1'') False [] =
     (Inl (NativeError (js ''fetch failed'')),
      [Fetch status_rq, Sleep 2000, Fetch status_rq, Sleep 4000, Fetch status_rq, Sleep 8000,
       Fetch status_rq, Sleep 16000, Fetch status_rq, Sleep 30000, Fetch status_rq]) \<and>
   \<not> is_ArkeEditError (NativeError (js ''fetch failed''))"
proof -
  have down: "respond world_unreachable tr rq = Rejected (js ''fetch failed'')" for tr rq
    by (simp add: world_unreachable_def)
  from getReprocessStatus_shape [OF refl, of world_unreachable "[]" example_client
      "js ''https://o/status/b1''" False, folded status_rq_def]
  obtain k where k: "k \<le> 5"
    "k < 5 \<longrightarrow> \<not> transient (respond world_unreachable
        ([] @ retry_events status_rq (base_delay False) k) status_rq)"
    "getReprocessStatus world_unreachable example_client (js ''https://o/status/b1'') False [] =
        (status_result (respond world_unreachable
           ([] @ retry_events status_rq (base_delay False) k) status_rq),
         [] @ retry_events status_rq (base_delay False) k @ [Fetch status_rq])"
    by blast
  have "\<not> k < 5"
    using k(2) by (simp add: down transient_def)
  with k(1) have "k = 5" by simp
  with k(3) show ?thesis
    by (simp add: down status_result_def base_delay_def retry_events_five is_ArkeEditError_def)
qed


section \<open>Preview and submit\<close>

subsection \<open>What submit sends\<close>

lemma reprocess_requests_append [simp]:
  "reprocess_requests (tr @ tr') = reprocess_requests tr @ reprocess_requests tr'"
  by (simp add: reprocess_requests_def)

lemma reprocess_requests_single [simp]:
  "reprocess_requests [Fetch (uploadRequest c content filename)] = []"
  "reprocess_requests [Fetch (versionsRequest c pi update)] = []"
  "reprocess_requests [Fetch (entityRequest c pi)] = []"
  "reprocess_requests [Fetch (reprocessRequest c req)] = [req]"
  by (simp_all add: reprocess_requests_def reprocess_sent_def uploadRequest_def
      versionsRequest_def entityRequest_def reprocessRequest_def)

lemma uploadContent_trace:
  "snd (uploadContent world c content filename tr) = tr @ [Fetch (uploadRequest c content filename)]"
  by (simp add: uploadContent_def fetch_def split: outcome.split json_body.split list.split)

lemma getEntity_trace: "snd (getEntity world c pi tr) = tr @ [Fetch (entityRequest c pi)]"
  by (simp add: getEntity_def fetch_def split: outcome.split json_body.split)

lemma reprocess_trace: "snd (reprocess world c req tr) = tr @ [Fetch (reprocessRequest c req)]"
  by (simp add: reprocess_def fetch_def Let_def split: outcome.split json_body.split)

lemma updateEntity_requests:
  "reprocess_requests (snd (updateEntity world c pi update tr)) = reprocess_requests tr"
proof -
  have "snd (updateEntity world c pi update tr) = tr @ [Fetch (versionsRequest c pi update)] \<or>
      snd (updateEntity world c pi update tr) =
        snd (getEntity world c pi (tr @ [Fetch (versionsRequest c pi update)]))"
    by (simp add: updateEntity_def fetch_def split: outcome.split json_body.split prod.split
        sum.split)
  then show ?thesis
    by (auto simp: getEntity_trace reprocess_requests_def reprocess_sent_def versionsRequest_def
        entityRequest_def)
qed

lemma upload_loop_requests:
  "reprocess_requests (snd (upload_loop world c loaded entries componentUpdates tr)) =
     reprocess_requests tr"
proof (induction entries arbitrary: componentUpdates tr)
  case Nil
  show ?case by simp
next
  case (Cons entry entries)
  obtain name content where entry: "entry = (name, content)" by (cases entry)
  show ?case
  proof (cases "hasSignificantChanges_js (or_empty (get_prop loaded name)) content")
    case (Inl e)
    then show ?thesis by (simp add: entry)
  next
    case (Inr significant)
    show ?thesis
    proof (cases significant)
      case False
      with Inr Cons.IH show ?thesis by (simp add: entry)
    next
      case True
      obtain r tr1 where up: "uploadContent world c content name tr = (r, tr1)"
        by (cases "uploadContent world c content name tr")
      with uploadContent_trace [of world c content name tr]
      have tr1: "tr1 = tr @ [Fetch (uploadRequest c content name)]" by simp
      show ?thesis
      proof (cases r)
        case (Inl e)
        with Inr True up tr1 show ?thesis by (simp add: entry)
      next
        case (Inr cid)
        with \<open>hasSignificantChanges_js (or_empty (get_prop loaded name)) content = Inr significant\<close>
          True up tr1 Cons.IH [of "assign_prop name cid componentUpdates" tr1]
        show ?thesis by (simp add: entry)
      qed
    qed
  qed
qed

lemma submit_phase1_requests:
  assumes "submit_phase1 world lib s ent note tr = (r, s1, tr1)"
  shows "reprocess_requests tr1 = reprocess_requests tr \<and>
         buildCustomPrompts lib s1 = buildCustomPrompts lib s \<and>
         phase2_request s1 = phase2_request s \<and>
         ss_scope s1 = ss_scope s"
proof (cases "getDiff lib s")
  case (Inl e)
  with assms show ?thesis by (auto simp: submit_phase1_def)
next
  case (Inr diffs)
  show ?thesis
  proof (cases "\<exists>d \<in> set diffs. cd_hasChanges d")
    case False
    with Inr assms show ?thesis by (auto simp: submit_phase1_def)
  next
    case True
    obtain ru tru where up: "upload_loop world (ss_client s) (ss_loadedComponents s)
        (object_entries (ss_editedContent s)) [] tr = (ru, tru)"
      by (cases "upload_loop world (ss_client s) (ss_loadedComponents s)
        (object_entries (ss_editedContent s)) [] tr")
    with upload_loop_requests [of world "ss_client s" "ss_loadedComponents s"
        "object_entries (ss_editedContent s)" "[]" tr]
    have tru: "reprocess_requests tru = reprocess_requests tr" by simp
    show ?thesis
    proof (cases ru)
      case (Inl e)
      with Inr True up tru assms show ?thesis by (auto simp: submit_phase1_def)
    next
      case (Inr componentUpdates)
      obtain rw trw where wr: "updateEntity world (ss_client s) (ss_pi s)
          (phase1_update ent componentUpdates note) tru = (rw, trw)"
        by (cases "updateEntity world (ss_client s) (ss_pi s)
          (phase1_update ent componentUpdates note) tru")
      with updateEntity_requests [of world "ss_client s" "ss_pi s"
          "phase1_update ent componentUpdates note" tru] tru
      have trw: "reprocess_requests trw = reprocess_requests tr" by simp
      from \<open>getDiff lib s = Inr diffs\<close> True up Inr wr trw assms show ?thesis
        by (cases rw) (auto simp: submit_phase1_def fun_eq_iff)
    qed
  qed
qed

lemma submit_phase2_requests:
  assumes "buildCustomPrompts lib s = Inr sent"
    and "submit_phase2 world lib s tr = (r, s2, tr2)"
  shows "(sc_components (ss_scope s) = [] \<longrightarrow> tr2 = tr) \<and>
         (sc_components (ss_scope s) \<noteq> [] \<longrightarrow>
            tr2 = tr @ [Fetch (reprocessRequest (ss_client s) (phase2_request s sent))])"
proof (cases "sc_components (ss_scope s) = []")
  case True
  with assms(2) show ?thesis by (simp add: submit_phase2_def)
next
  case False
  obtain rr trr where re: "reprocess world (ss_client s) (phase2_request s sent) tr = (rr, trr)"
    by (cases "reprocess world (ss_client s) (phase2_request s sent) tr")
  with reprocess_trace [of world "ss_client s" "phase2_request s sent" tr]
  have "trr = tr @ [Fetch (reprocessRequest (ss_client s) (phase2_request s sent))]" by simp
  with False assms re show ?thesis
    by (cases rr) (auto simp: submit_phase2_def)
qed

lemma submit_requests:
  assumes "buildCustomPrompts lib s = Inr sent"
  shows "\<exists>extra.
           reprocess_requests (snd (snd (submit world lib s note tr))) =
             reprocess_requests tr @ extra \<and>
           (extra = [] \<or> extra = [phase2_request s sent]) \<and>
           (\<not> isl (fst (submit world lib s note tr)) \<and> sc_components (ss_scope s) \<noteq> [] \<longrightarrow>
              extra = [phase2_request s sent])"
proof (cases "ss_submitting s \<or> ss_entity s = None")
  case True
  then have "snd (snd (submit world lib s note tr)) = tr \<and> isl (fst (submit world lib s note tr))"
    by (auto simp: submit_def)
  then show ?thesis by simp
next
  case False
  then obtain ent where idle: "\<not> ss_submitting s" and ent: "ss_entity s = Some ent" by auto
  let ?s0 = "s\<lparr>ss_submitting := True, ss_result := Some \<lparr>er_saved = None, er_reprocess = None\<rparr>\<rparr>"
  obtain r1 s1 tr1 where p1: "submit_phase1 world lib ?s0 ent note tr = (r1, s1, tr1)"
    by (cases "submit_phase1 world lib ?s0 ent note tr")
  from submit_phase1_requests [OF p1]
  have same: "reprocess_requests tr1 = reprocess_requests tr"
    and sent1: "buildCustomPrompts lib s1 = Inr sent"
    and req1: "phase2_request s1 sent = phase2_request s sent"
    and scope1: "ss_scope s1 = ss_scope s"
    using assms by simp_all
  show ?thesis
  proof (cases r1)
    case (Inl e)
    with idle ent p1 same show ?thesis by (simp add: submit_def del: session.simps)
  next
    case (Inr u)
    obtain r2 s2 tr2 where p2: "submit_phase2 world lib s1 tr1 = (r2, s2, tr2)"
      by (cases "submit_phase2 world lib s1 tr1")
    have out: "snd (snd (submit world lib s note tr)) = tr2 \<and>
        isl (fst (submit world lib s note tr)) = isl r2"
      using idle ent p1 Inr p2 by (cases r2) (simp_all add: submit_def del: session.simps)
    from submit_phase2_requests [OF sent1 p2] same req1 scope1
    have "(sc_components (ss_scope s) = [] \<longrightarrow> reprocess_requests tr2 = reprocess_requests tr) \<and>
        (sc_components (ss_scope s) \<noteq> [] \<longrightarrow>
           reprocess_requests tr2 = reprocess_requests tr @ [phase2_request s sent])"
      by auto
    with out show ?thesis by (cases "sc_components (ss_scope s) = []") simp_all
  qed
qed

subsection \<open>What the preview shows\<close>

lemma previewPrompt_loop_total:
  assumes "\<forall>c \<in> set components. previewBody lib s ent c = Inr (body c)"
  shows "previewPrompt_loop lib s ent components result =
           Inr (\<lambda>c. if c \<in> set components then Some (withCascade s ent (body c)) else result c)"
  using assms
proof (induction components arbitrary: result)
  case Nil
  show ?case by simp
next
  case (Cons component components)
  then have "previewPrompt_loop lib s ent components
        (result(component \<mapsto> withCascade s ent (body component))) =
      Inr (\<lambda>c. if c \<in> set components then Some (withCascade s ent (body c))
               else (result(component \<mapsto> withCascade s ent (body component))) c)"
    by simp
  moreover have "(\<lambda>c. if c \<in> set components then Some (withCascade s ent (body c))
               else (result(component \<mapsto> withCascade s ent (body component))) c) =
      (\<lambda>c. if c \<in> set (component # components) then Some (withCascade s ent (body c))
            else result c)"
    by (rule ext) simp
  ultimately show ?case using Cons.prems by simp
qed

lemma previewPrompt_total:
  assumes "ss_entity s = Some ent"
    and "\<forall>c \<in> set (sc_components (ss_scope s)). previewBody lib s ent c = Inr (body c)"
  shows "previewPrompt lib s =
           Inr (\<lambda>c. if c \<in> set (sc_components (ss_scope s))
                    then Some (withCascade s ent (body c)) else None)"
  using assms by (simp add: previewPrompt_def previewPrompt_loop_total)

lemma buildCombinedPrompt_truthy:
  "buildCombinedPrompt (keep_truthy generalPrompt) (keep_truthy componentPrompt) component =
     buildCombinedPrompt generalPrompt componentPrompt component"
  by (simp add: buildCombinedPrompt_def keep_truthy_def truthy_def)

lemma sublist_join:
  assumes "x \<in> set xs"
  shows "sublist x (join sep xs)"
  using assms
proof (induction sep xs rule: join.induct)
  case (1 sep)
  then show ?case by simp
next
  case (2 sep y)
  then show ?case by simp
next
  case (3 sep y z zs)
  show ?case
  proof (cases "x = y")
    case True
    then show ?thesis by simp
  next
    case False
    with 3 have "sublist x (join sep (z # zs))" by simp
    then show ?thesis by (simp add: sublist_append)
  qed
qed

lemma sublist_buildCombinedPrompt:
  assumes "keep_truthy generalPrompt = Some p \<or> keep_truthy componentPrompt = Some p"
  shows "sublist p (buildCombinedPrompt generalPrompt componentPrompt component)"
proof -
  define sections where "sections =
     (if truthy generalPrompt
      then [js ''## General Instructions'', opt_str generalPrompt, []] else []) @
     (if truthy componentPrompt
      then [js ''## Specific Instructions for '' @ component_name component,
            opt_str componentPrompt, []]
      else [])"
  have unfolded: "buildCombinedPrompt generalPrompt componentPrompt component =
      (if length sections = 0
       then js ''Regenerate the '' @ component_name component @
            js '' based on the current entity content.''
       else join [nl] sections)"
    by (simp only: buildCombinedPrompt_def Let_def sections_def)
  from assms have mem: "p \<in> set sections"
    by (auto simp: sections_def keep_truthy_def opt_str_def split: if_splits)
  then have "sections \<noteq> []" by auto
  with mem show ?thesis by (simp add: unfolded sublist_join)
qed

lemma sublist_buildAIPrompt:
  "sublist userPrompt (buildAIPrompt userPrompt component entityContext currentContent)"
  unfolding buildAIPrompt_def by (rule sublist_join) simp

lemma sublist_buildCascadePrompt: "sublist basePrompt (buildCascadePrompt basePrompt cascadeContext)"
  unfolding buildCascadePrompt_def by (rule sublist_join) simp

lemma sublist_withCascade: "sublist prompt (withCascade s ent prompt)"
  by (simp add: withCascade_def sublist_buildCascadePrompt)

lemma sublist_buildEditReviewPrompt:
  "sublist (formatComponentDiffsForPrompt componentDiffs)
     (buildEditReviewPrompt componentDiffs corrections component userInstructions)"
proof (cases "formatComponentDiffsForPrompt componentDiffs = []")
  case True
  then show ?thesis by simp
next
  case False
  then show ?thesis
    unfolding buildEditReviewPrompt_def Let_def by (intro sublist_join) simp
qed

lemma manualGeneralPrompt_diffs:
  assumes "formatComponentDiffsForPrompt diffs \<noteq> []"
  shows "\<exists>g. manualGeneralPrompt diffs corrections generalPrompt = Some g \<and>
             sublist (formatComponentDiffsForPrompt diffs) g"
proof -
  define parts where "parts =
     filter (\<lambda>p. p \<noteq> [])
       [formatComponentDiffsForPrompt diffs, buildCorrectionPrompt corrections,
        or_str generalPrompt []]"
  have unfolded: "manualGeneralPrompt diffs corrections generalPrompt =
      (if length diffs > 0 \<or> length corrections > 0
       then if join [nl, nl] parts \<noteq> [] then Some (join [nl, nl] parts) else None
       else None)"
    by (simp only: manualGeneralPrompt_def Let_def parts_def)
  from assms have nonempty: "diffs \<noteq> []"
    by (auto simp: formatComponentDiffsForPrompt_def)
  have "formatComponentDiffsForPrompt diffs \<in> set parts"
    using assms by (simp add: parts_def)
  then have inside: "sublist (formatComponentDiffsForPrompt diffs) (join [nl, nl] parts)"
    by (rule sublist_join)
  have "join [nl, nl] parts \<noteq> []"
  proof
    assume "join [nl, nl] parts = []"
    with inside have "formatComponentDiffsForPrompt diffs = []" by simp
    with assms show False by simp
  qed
  with nonempty inside show ?thesis by (simp add: unfolded)
qed

subsection \<open>Preview against submit\<close>

text \<open>
  C3 (as amended). Take a loaded session whose \<open>buildCustomPrompts\<close> returns, with the
  prompts \<open>sent\<close>.

  \<^item> A call of \<open>submit\<close> adds at most one reprocess request to the trace, and exactly one
    when it succeeds with a non-empty scope; the request carries \<open>sent\<close>, the prompts
    built from the session as it was before the call.

  \<^item> \<open>previewPrompt\<close> returns, with an entry for exactly the components in scope, and
    for each of them the component's own stored prompt is sent verbatim when it is not
    empty and not sent otherwise.

  \<^item> In ai-prompt mode the same holds of the general prompt, and the entry of the preview
    is not the text sent but \<open>buildAIPrompt\<close> of \<open>buildCombinedPrompt\<close> of the general
    and the component prompt sent, with the entity context and the current content,
    followed by the cascade appendix when the scope cascades; so each of the two prompts
    sent occurs verbatim inside the entry.

  \<^item> In the other modes \<open>getDiff\<close> returns; the general prompt sent is put together from
    its diffs, the corrections and the stored general prompt, and the entry of the preview
    is \<open>buildEditReviewPrompt\<close> of the same diffs and corrections, with the general
    prompt or else the component prompt as instructions, followed by the cascade appendix
    when the scope cascades. The formatted diffs occur verbatim inside the entry and,
    when they are not empty, inside the general prompt sent.
\<close>

theorem previewPrompt_and_submit:
  assumes "ss_entity s = Some ent" and "buildCustomPrompts lib s = Inr sent"
  shows "(\<exists>extra.
            reprocess_requests (snd (snd (submit world lib s note tr))) =
              reprocess_requests tr @ extra \<and>
            (extra = [] \<or> extra = [phase2_request s sent]) \<and>
            (\<not> isl (fst (submit world lib s note tr)) \<and> sc_components (ss_scope s) \<noteq> [] \<longrightarrow>
               extra = [phase2_request s sent])) \<and>
         (\<exists>pv.
            previewPrompt lib s = Inr pv \<and>
            dom pv = set (sc_components (ss_scope s)) \<and>
            (\<forall>c \<in> set (sc_components (ss_scope s)).
               prompt_for sent c = keep_truthy (ss_prompts s (Target c)) \<and>
               (ss_mode s = AiPrompt \<longrightarrow>
                  cp_general sent = keep_truthy (ss_prompts s General) \<and>
                  pv c =
                    Some (withCascade s ent
                            (buildAIPrompt
                               (buildCombinedPrompt (cp_general sent) (prompt_for sent c) c) c
                               (entityContextOf s ent) (currentContentOf s c))) \<and>
                  (\<forall>p text.
                     (cp_general sent = Some p \<or> prompt_for sent c = Some p) \<and>
                     pv c = Some text \<longrightarrow> sublist p text)) \<and>
               (ss_mode s \<noteq> AiPrompt \<longrightarrow>
                  (\<exists>diffs.
                     getDiff lib s = Inr diffs \<and>
                     cp_general sent =
                       manualGeneralPrompt diffs (ss_corrections s) (ss_prompts s General) \<and>
                     pv c =
                       Some (withCascade s ent
                               (buildEditReviewPrompt diffs (ss_corrections s) c
                                  (or_else (ss_prompts s General) (ss_prompts s (Target c))))) \<and>
                     (\<forall>text. pv c = Some text \<longrightarrow>
                        sublist (formatComponentDiffsForPrompt diffs) text) \<and>
                     (formatComponentDiffsForPrompt diffs \<noteq> [] \<longrightarrow>
                        (\<exists>g. cp_general sent = Some g \<and>
                             sublist (formatComponentDiffsForPrompt diffs) g))))))"
proof (rule conjI)
  show "\<exists>extra.
          reprocess_requests (snd (snd (submit world lib s note tr))) =
            reprocess_requests tr @ extra \<and>
          (extra = [] \<or> extra = [phase2_request s sent]) \<and>
          (\<not> isl (fst (submit world lib s note tr)) \<and> sc_components (ss_scope s) \<noteq> [] \<longrightarrow>
             extra = [phase2_request s sent])"
    using assms(2) by (rule submit_requests)
next
  let ?scope = "set (sc_components (ss_scope s))"
  have own: "prompt_for sent c = keep_truthy (ss_prompts s (Target c))" for c
    using assms(2) by (cases c) (auto simp: buildCustomPrompts_def split: if_splits sum.splits)
  show "\<exists>pv.
          previewPrompt lib s = Inr pv \<and>
          dom pv = ?scope \<and>
          (\<forall>c \<in> ?scope.
             prompt_for sent c = keep_truthy (ss_prompts s (Target c)) \<and>
             (ss_mode s = AiPrompt \<longrightarrow>
                cp_general sent = keep_truthy (ss_prompts s General) \<and>
                pv c =
                  Some (withCascade s ent
                          (buildAIPrompt
                             (buildCombinedPrompt (cp_general sent) (prompt_for sent c) c) c
                             (entityContextOf s ent) (currentContentOf s c))) \<and>
                (\<forall>p text.
                   (cp_general sent = Some p \<or> prompt_for sent c = Some p) \<and>
                   pv c = Some text \<longrightarrow> sublist p text)) \<and>
             (ss_mode s \<noteq> AiPrompt \<longrightarrow>
                (\<exists>diffs.
                   getDiff lib s = Inr diffs \<and>
                   cp_general sent =
                     manualGeneralPrompt diffs (ss_corrections s) (ss_prompts s General) \<and>
                   pv c =
                     Some (withCascade s ent
                             (buildEditReviewPrompt diffs (ss_corrections s) c
                                (or_else (ss_prompts s General) (ss_prompts s (Target c))))) \<and>
                   (\<forall>text. pv c = Some text \<longrightarrow>
                      sublist (formatComponentDiffsForPrompt diffs) text) \<and>
                   (formatComponentDiffsForPrompt diffs \<noteq> [] \<longrightarrow>
                      (\<exists>g. cp_general sent = Some g \<and>
                           sublist (formatComponentDiffsForPrompt diffs) g)))))"
  proof (cases "ss_mode s = AiPrompt")
    case True
    define body where "body c =
        buildAIPrompt (buildCombinedPrompt (cp_general sent) (prompt_for sent c) c) c
          (entityContextOf s ent) (currentContentOf s c)" for c
    define pv where "pv c = (if c \<in> ?scope then Some (withCascade s ent (body c)) else None)"
      for c
    have general: "cp_general sent = keep_truthy (ss_prompts s General)"
      using assms(2) True by (auto simp: buildCustomPrompts_def)
    have "previewBody lib s ent c = Inr (body c)" for c
      by (simp add: previewBody_def True Let_def body_def general own buildCombinedPrompt_truthy)
    then have preview: "previewPrompt lib s = Inr pv"
      using previewPrompt_total [OF assms(1), of lib body] by (simp add: pv_def [abs_def])
    have domain: "dom pv = ?scope"
      by (auto simp: pv_def dom_def)
    have inside: "sublist p (withCascade s ent (body c))"
      if "cp_general sent = Some p \<or> prompt_for sent c = Some p" for p c
    proof -
      from that
      have "keep_truthy (cp_general sent) = Some p \<or> keep_truthy (prompt_for sent c) = Some p"
        by (auto simp: general own keep_truthy_def split: if_splits)
      then have "sublist p (buildCombinedPrompt (cp_general sent) (prompt_for sent c) c)"
        by (rule sublist_buildCombinedPrompt)
      also have "sublist \<dots> (body c)"
        unfolding body_def by (rule sublist_buildAIPrompt)
      also have "sublist \<dots> (withCascade s ent (body c))"
        by (rule sublist_withCascade)
      finally show ?thesis .
    qed
    have entry: "pv c =
        Some (withCascade s ent
                (buildAIPrompt (buildCombinedPrompt (cp_general sent) (prompt_for sent c) c) c
                   (entityContextOf s ent) (currentContentOf s c)))"
      if "c \<in> ?scope" for c
      using that by (simp add: pv_def body_def)
    have occurs: "sublist p shown"
      if "c \<in> ?scope" and "cp_general sent = Some p \<or> prompt_for sent c = Some p"
        and "pv c = Some shown" for c p shown
      using that(1,3) inside [OF that(2)] by (simp add: pv_def)
    from preview domain general own entry occurs True show ?thesis
      by (intro exI [of _ pv]) blast
  next
    case False
    from assms(2) False obtain diffs where diffs: "getDiff lib s = Inr diffs"
      and general: "cp_general sent =
        manualGeneralPrompt diffs (ss_corrections s) (ss_prompts s General)"
      by (auto simp: buildCustomPrompts_def split: sum.splits)
    define body where "body c =
        buildEditReviewPrompt diffs (ss_corrections s) c
          (or_else (ss_prompts s General) (ss_prompts s (Target c)))" for c
    define pv where "pv c = (if c \<in> ?scope then Some (withCascade s ent (body c)) else None)"
      for c
    have "previewBody lib s ent c = Inr (body c)" for c
      by (simp add: previewBody_def False Let_def body_def diffs)
    then have preview: "previewPrompt lib s = Inr pv"
      using previewPrompt_total [OF assms(1), of lib body] by (simp add: pv_def [abs_def])
    have domain: "dom pv = ?scope"
      by (auto simp: pv_def dom_def)
    have inside: "sublist (formatComponentDiffsForPrompt diffs) (withCascade s ent (body c))"
      for c
    proof -
      have "sublist (formatComponentDiffsForPrompt diffs) (body c)"
        unfolding body_def by (rule sublist_buildEditReviewPrompt)
      also have "sublist \<dots> (withCascade s ent (body c))"
        by (rule sublist_withCascade)
      finally show ?thesis .
    qed
    have shared: "\<exists>g. cp_general sent = Some g \<and> sublist (formatComponentDiffsForPrompt diffs) g"
      if "formatComponentDiffsForPrompt diffs \<noteq> []"
      unfolding general using that by (rule manualGeneralPrompt_diffs)
    have entry: "pv c =
        Some (withCascade s ent
                (buildEditReviewPrompt diffs (ss_corrections s) c
                   (or_else (ss_prompts s General) (ss_prompts s (Target c)))))"
      if "c \<in> ?scope" for c
      using that by (simp add: pv_def body_def)
    have occurs: "sublist (formatComponentDiffsForPrompt diffs) shown"
      if "c \<in> ?scope" and "pv c = Some shown" for c shown
      using that inside [of c] by (simp add: pv_def)
    from preview domain own diffs general entry occurs shared False show ?thesis
      by (intro exI [of _ pv]) blast
  qed
qed

lemma show_nat_3: "show_nat 3 = js ''3''"
  by (simp add: show_nat.simps digit_def js_def)

lemma session_prompted_fields:
  "ss_entity session_prompted = Some entity_v3"
  "ss_mode session_prompted = AiPrompt"
  "sc_components (ss_scope session_prompted) = [Description]"
  by (simp_all add: session_prompted_def session_new_def EditSession_new_def)

lemma session_prompted_sent:
  "buildCustomPrompts one_line_changed session_prompted = Inr sent_prompts"
  by (simp add: buildCustomPrompts_def session_prompted_def session_new_def EditSession_new_def
      keep_truthy_def truthy_def sent_prompts_def js_def)

lemma session_prompted_request: "phase2_request session_prompted sent_prompts = sent_request"
  by (simp add: phase2_request_def session_prompted_def session_new_def EditSession_new_def
      sent_request_def sent_prompts_def)

lemma preview_value:
  "previewPrompt one_line_changed session_prompted = Inr [Description \<mapsto> preview_text]"
  by (simp add: previewPrompt_def previewBody_def withCascade_def entityContextOf_def
      currentContentOf_def session_prompted_def session_new_def EditSession_new_def
      buildCombinedPrompt_def buildAIPrompt_def truthy_def or_else_def opt_str_def entity_v3_def
      show_int_def show_nat_3 preview_text_def js_def)

lemma submit_value:
  "submit world_accepting one_line_changed session_prompted (js ''note'') [] =
     (Inr \<lparr>er_saved = None, er_reprocess = Some queued\<rparr>,
      session_prompted\<lparr>ss_result := Some \<lparr>er_saved = None, er_reprocess = Some queued\<rparr>,
                       ss_statusUrl := Some (js ''https://o/status/b1'')\<rparr>,
      [Fetch (reprocessRequest example_client sent_request)])"
proof -
  have empty: "getDiff one_line_changed session_prompted = Inr []"
    by (simp add: getDiff_def object_entries_def session_prompted_def session_new_def
        EditSession_new_def)
  have sending: "reprocess world_accepting example_client sent_request [] =
      (Inr queued, [Fetch (reprocessRequest example_client sent_request)])"
    by (simp add: reprocess_def fetch_def world_accepting_def plain_def ok_def)
  have fields: "\<not> ss_submitting session_prompted" "ss_client session_prompted = example_client"
    "ss_result session_prompted = None"
    by (simp_all add: session_prompted_def session_new_def EditSession_new_def)
  show ?thesis
    by (simp add: submit_def submit_phase1_def submit_phase2_def empty session_prompted_fields
        fields session_prompted_sent session_prompted_request sending queued_def
        del: session.simps)
qed

lemma texts_differ: "preview_text \<noteq> js ''Make concise''"
  by (simp add: preview_text_def js_def)

lemma edited_diff_changed: "cd_hasChanges edited_diff"
  by (simp add: edited_diff_def createComponentDiff_def Let_def diff_def one_line_changed_def)

lemma edited_format_nonempty: "formatComponentDiffsForPrompt [edited_diff] \<noteq> []"
  by (simp add: formatComponentDiffsForPrompt_def formatSection_def edited_diff_changed js_def)

lemma session_edited_scoped_fields:
  "ss_entity session_edited_scoped = Some entity_v3"
  "ss_mode session_edited_scoped \<noteq> AiPrompt"
  "sc_components (ss_scope session_edited_scoped) = [Description]"
  by (simp_all add: session_edited_scoped_def session_edited_def EditSession_new_def)

lemma session_edited_scoped_diff:
  "getDiff one_line_changed session_edited_scoped = Inr [edited_diff]"
proof -
  have "getDiff one_line_changed session_edited_scoped = getDiff one_line_changed session_edited"
    by (simp add: getDiff_def session_edited_scoped_def)
  then show ?thesis by (simp add: session_edited_diff edited_diff_def)
qed

lemma session_edited_scoped_sent:
  "buildCustomPrompts one_line_changed session_edited_scoped = Inr sent_manual"
proof -
  have general: "manualGeneralPrompt [edited_diff] [] (Some (js ''Keep dates'')) =
      Some (join [nl, nl] [formatComponentDiffsForPrompt [edited_diff], js ''Keep dates''])"
    using edited_format_nonempty
    by (simp add: manualGeneralPrompt_def buildCorrectionPrompt_def or_str_def js_def)
  have stored: "ss_prompts session_edited_scoped = [General \<mapsto> js ''Keep dates'']"
    "ss_corrections session_edited_scoped = []"
    by (simp_all add: session_edited_scoped_def session_edited_def EditSession_new_def)
  show ?thesis
    by (simp add: buildCustomPrompts_def session_edited_scoped_fields session_edited_scoped_diff
        stored general sent_manual_def keep_truthy_def truthy_def)
qed

lemma manual_preview_value:
  "previewPrompt one_line_changed session_edited_scoped = Inr [Description \<mapsto> manual_preview]"
proof -
  have stored: "ss_prompts session_edited_scoped = [General \<mapsto> js ''Keep dates'']"
    "ss_corrections session_edited_scoped = []"
    "ss_scope session_edited_scoped =
       \<lparr>sc_components = [Description], sc_cascade = True, sc_stopAtPi = None\<rparr>"
    by (simp_all add: session_edited_scoped_def session_edited_def EditSession_new_def)
  have instructions: "or_else (Some (js ''Keep dates'')) None = Some (js ''Keep dates'')"
    by (simp add: or_else_def truthy_def js_def)
  have path: "en_pi entity_v3 = js ''E''" "or_str (en_parent_pi entity_v3) (js ''root'') = js ''root''"
    "js ''E'' \<noteq> []" "js ''root'' \<noteq> []"
    by (simp_all add: entity_v3_def or_str_def js_def)
  show ?thesis
    by (simp add: previewPrompt_def session_edited_scoped_fields previewBody_def
        session_edited_scoped_diff stored instructions withCascade_def path manual_preview_def)
qed

text \<open>
  The claim as first stated fails. In ai-prompt mode with one prompt for the description,
  \<open>previewPrompt\<close> shows the text composed by \<open>buildCombinedPrompt\<close> and
  \<open>buildAIPrompt\<close>, while the reprocess request that \<open>submit\<close> sends carries the stored
  prompt verbatim.
\<close>

theorem previewPrompt_payload_counterexample:
  "previewPrompt one_line_changed session_prompted = Inr [Description \<mapsto> preview_text] \<and>
   snd (snd (submit world_accepting one_line_changed session_prompted (js ''note'') [])) =
     [Fetch (reprocessRequest example_client sent_request)] \<and>
   buildCustomPrompts one_line_changed session_prompted = Inr sent_prompts \<and>
   prompt_for sent_prompts Description = Some (js ''Make concise'') \<and>
   preview_text \<noteq> js ''Make concise''"
  by (simp add: preview_value submit_value texts_differ session_prompted_sent)
     (simp add: sent_prompts_def)

theorem previewPrompt_and_submit_witness:
  "reprocess_requests
     (snd (snd (submit world_accepting one_line_changed session_prompted (js ''note'') []))) =
     [sent_request] \<and>
   previewPrompt one_line_changed session_prompted = Inr [Description \<mapsto> preview_text] \<and>
   sublist (js ''Make concise'') preview_text \<and>
   previewPrompt one_line_changed session_edited_scoped = Inr [Description \<mapsto> manual_preview] \<and>
   sublist (formatComponentDiffsForPrompt [edited_diff]) manual_preview \<and>
   sublist (formatComponentDiffsForPrompt [edited_diff])
     (join [nl, nl] [formatComponentDiffsForPrompt [edited_diff], js ''Keep dates''])"
proof -
  note ai = previewPrompt_and_submit [OF session_prompted_fields(1) session_prompted_sent,
      of world_accepting "js ''note''" "[]"]
  note manual = previewPrompt_and_submit [OF session_edited_scoped_fields(1)
      session_edited_scoped_sent, of world_accepting "js ''note''" "[]"]
  have succeeded: "\<not> isl (fst (submit world_accepting one_line_changed session_prompted
      (js ''note'') []))"
    by (simp add: submit_value)
  from ai succeeded have requests: "reprocess_requests
      (snd (snd (submit world_accepting one_line_changed session_prompted (js ''note'') []))) =
      [sent_request]"
    by (auto simp: session_prompted_fields session_prompted_request reprocess_requests_def)
  have sent: "prompt_for sent_prompts Description = Some (js ''Make concise'')"
    by (simp add: sent_prompts_def)
  from ai have "\<forall>p shown.
      (cp_general sent_prompts = Some p \<or> prompt_for sent_prompts Description = Some p) \<and>
      [Description \<mapsto> preview_text] Description = Some shown \<longrightarrow> sublist p shown"
    by (auto simp: preview_value session_prompted_fields)
  with sent have occurs: "sublist (js ''Make concise'') preview_text"
    by simp
  from manual have "\<forall>shown. [Description \<mapsto> manual_preview] Description = Some shown \<longrightarrow>
      sublist (formatComponentDiffsForPrompt [edited_diff]) shown"
    by (auto simp: manual_preview_value session_edited_scoped_fields session_edited_scoped_diff)
  then have shown: "sublist (formatComponentDiffsForPrompt [edited_diff]) manual_preview"
    by simp
  from manual edited_format_nonempty
  have "\<exists>g. cp_general sent_manual = Some g \<and> sublist (formatComponentDiffsForPrompt [edited_diff]) g"
    by (auto simp: manual_preview_value session_edited_scoped_fields session_edited_scoped_diff)
      metis
  then have sent_too: "sublist (formatComponentDiffsForPrompt [edited_diff])
      (join [nl, nl] [formatComponentDiffsForPrompt [edited_diff], js ''Keep dates''])"
    by (simp add: sent_manual_def)
  from requests preview_value occurs manual_preview_value shown sent_too show ?thesis
    by (intro conjI)
qed
section \<open>Read accessors\<close>

lemma call_alloc: "call acc this h = alloc (spread h (field_of acc this)) h"
  by (cases acc)
    (simp_all add: getComponents_def getPrompts_def getEditedContent_def getCorrections_def
      getScope_def)

lemma value_of_agree:
  assumes "\<forall>x \<in> set (refs_of obj). st_cells h' x = st_cells h x"
  shows "value_of h' obj = value_of h obj"
  using assms by (cases obj) (simp_all add: correction_at_def components_at_def)

lemma field_allocated:
  assumes "session_in_store this h"
  shows "allocated h (field_of acc this)"
  using assms by (cases acc) (simp_all add: session_in_store_def)

lemma allocated_cell:
  assumes "allocated h a"
  obtains obj where "st_cells h a = Some obj" and "a < st_next h"
    and "\<forall>x \<in> set (refs_of obj). x < st_next h"
  using assms by (auto simp: allocated_def split: option.splits)

text \<open>
  C10 (as amended). On a session whose fields were allocated before, every read accessor
  returns a reference to a new object: none of the session's fields refers to it, nothing
  allocated before is changed by the call, every field of the session reads as before, and
  the new object reads as the field it copies. It holds what the field's object holds,
  references included, so the objects those refer to (the correction objects, the
  components array) are shared with the session. Whatever the caller then does to the
  returned object itself, a second call of the accessor returns another new object that
  reads as the first one did when it was returned.
\<close>

theorem accessor_copies:
  assumes "session_in_store this h"
    and "call acc this h = (r1, h1)"
    and "call acc this (overwrite r1 obj h1) = (r2, h3)"
  shows "r1 = st_next h \<and>
         (\<forall>a < st_next h. st_cells h1 a = st_cells h a) \<and>
         (\<forall>f. field_of f this \<noteq> r1 \<and> value_at h1 (field_of f this) = value_at h (field_of f this)) \<and>
         value_at h1 r1 = value_at h (field_of acc this) \<and>
         st_cells h1 r1 = st_cells h (field_of acc this) \<and>
         r2 \<noteq> r1 \<and>
         value_at h3 r2 = value_at h1 r1"
proof -
  let ?n = "st_next h"
  from field_allocated [OF assms(1), of acc]
  obtain src where src: "st_cells h (field_of acc this) = Some src"
    and below: "field_of acc this < ?n"
    and inner: "\<forall>x \<in> set (refs_of src). x < ?n"
    by (rule allocated_cell)
  have r1: "r1 = ?n" and h1: "h1 = h\<lparr>st_cells := (st_cells h)(?n \<mapsto> src), st_next := Suc ?n\<rparr>"
    using assms(2) src by (auto simp: call_alloc alloc_def spread_def)
  have old: "\<forall>a < ?n. st_cells h1 a = st_cells h a"
    by (simp add: h1)
  have fields: "field_of f this \<noteq> r1 \<and> value_at h1 (field_of f this) = value_at h (field_of f this)"
    for f
  proof -
    from field_allocated [OF assms(1), of f]
    obtain o1 where o1: "st_cells h (field_of f this) = Some o1" "field_of f this < ?n"
      "\<forall>x \<in> set (refs_of o1). x < ?n"
      by (rule allocated_cell)
    have "value_of h1 o1 = value_of h o1"
      using o1(3) by (intro value_of_agree) (auto simp: h1)
    with o1(1,2) show ?thesis by (simp add: value_at_def h1 r1)
  qed
  have first: "value_at h1 r1 = Some (value_of h src)"
  proof -
    have "value_of h1 src = value_of h src"
      using inner by (intro value_of_agree) (auto simp: h1)
    then show ?thesis by (simp add: value_at_def h1 r1)
  qed
  let ?h2 = "overwrite r1 obj h1"
  have src2: "st_cells ?h2 (field_of acc this) = Some src" and next2: "st_next ?h2 = Suc ?n"
    using src below by (simp_all add: overwrite_def h1 r1)
  have r2: "r2 = Suc ?n"
    and h3: "h3 = ?h2\<lparr>st_cells := (st_cells ?h2)(Suc ?n \<mapsto> src), st_next := Suc (Suc ?n)\<rparr>"
    using assms(3) src2 next2 by (auto simp: call_alloc alloc_def spread_def)
  have second: "value_at h3 r2 = Some (value_of h src)"
  proof -
    have "value_of h3 src = value_of h src"
      using inner by (intro value_of_agree) (auto simp: h3 overwrite_def h1 r1)
    then show ?thesis by (simp add: value_at_def h3 r2)
  qed
  have src_value: "value_at h (field_of acc this) = Some (value_of h src)"
    using src by (simp add: value_at_def)
  have cell: "st_cells h1 r1 = st_cells h (field_of acc this)"
    using src by (simp add: h1 r1)
  from r1 old fields first second r2 src_value cell show ?thesis
    by (intro conjI allI) simp_all
qed


text \<open>
  The scope of a new session is such a copy of the module-level default scope: it refers
  to the components array of that object.
\<close>

lemma initial_scope_shares_components:
  assumes "st_cells h default_scope = Some (ScopeObject ca cascade stopAtPi)"
    and "initial_scope default_scope h = (r, h')"
  shows "st_cells h' r = Some (ScopeObject ca cascade stopAtPi)"
  using assms by (auto simp: initial_scope_def alloc_def spread_def)

lemma example_session_in_store: "session_in_store example_refs example_store"
  by (simp add: session_in_store_def allocated_def example_refs_def example_store_def)

theorem accessor_copies_witness:
  "session_in_store example_refs example_store \<and>
   fst corrections_first = 7 \<and>
   fst (call GetCorrections example_refs
          (overwrite (fst corrections_first) (CorrectionArray []) (snd corrections_first))) \<noteq> 7 \<and>
   value_at
     (snd (call GetCorrections example_refs
             (overwrite (fst corrections_first) (CorrectionArray []) (snd corrections_first))))
     (fst (call GetCorrections example_refs
             (overwrite (fst corrections_first) (CorrectionArray []) (snd corrections_first)))) =
   value_at example_store (rf_corrections example_refs)"
proof -
  have c1: "call GetCorrections example_refs example_store =
      (fst corrections_first, snd corrections_first)"
    by (simp add: corrections_first_def)
  have c2: "call GetCorrections example_refs
        (overwrite (fst corrections_first) (CorrectionArray []) (snd corrections_first)) =
      (fst (call GetCorrections example_refs
              (overwrite (fst corrections_first) (CorrectionArray []) (snd corrections_first))),
       snd (call GetCorrections example_refs
              (overwrite (fst corrections_first) (CorrectionArray []) (snd corrections_first))))"
    by simp
  have n: "st_next example_store = 7" by (simp add: example_store_def)
  note copies = accessor_copies [OF example_session_in_store c1 c2]
  from copies have fresh: "fst corrections_first = st_next example_store"
    by (rule conjunct1)
  from copies have other: "fst (call GetCorrections example_refs
        (overwrite (fst corrections_first) (CorrectionArray []) (snd corrections_first))) \<noteq>
      fst corrections_first"
    by blast
  from copies have same: "value_at
       (snd (call GetCorrections example_refs
               (overwrite (fst corrections_first) (CorrectionArray []) (snd corrections_first))))
       (fst (call GetCorrections example_refs
               (overwrite (fst corrections_first) (CorrectionArray []) (snd corrections_first)))) =
     value_at example_store (field_of GetCorrections example_refs)"
    by (elim conjE) (rule trans)
  from fresh other same example_session_in_store show ?thesis
    unfolding n by (intro conjI) simp_all
qed

text \<open>
  The claim as first stated fails for the objects a copy shares with the session. After
  \<^verbatim>\<open>getCorrections()[0].original = "zzz"\<close> a second call of \<^verbatim>\<open>getCorrections\<close>
  returns the changed correction, and after \<^verbatim>\<open>getScope().components.push("pinax")\<close> a
  second call of \<^verbatim>\<open>getScope\<close> returns the longer list.
\<close>

theorem accessor_nested_mutation_counterexample:
  "value_at (snd corrections_first) (fst corrections_first) =
     Some (VCorrections [Some \<lparr>co_original = js ''1895'', co_corrected = js ''1985'',
                               co_sourceFile = None, co_context = None\<rparr>]) \<and>
   value_at (snd corrections_second) (fst corrections_second) =
     Some (VCorrections [Some \<lparr>co_original = js ''zzz'', co_corrected = js ''1985'',
                               co_sourceFile = None, co_context = None\<rparr>]) \<and>
   value_at (snd scope_first) (fst scope_first) = Some (VScope (Some [Description]) False None) \<and>
   value_at (snd scope_second) (fst scope_second) =
     Some (VScope (Some [Description, Pinax]) False None)"
  by (simp add: corrections_first_def corrections_second_def scope_first_def scope_second_def
      getCorrections_def getScope_def alloc_def spread_def example_refs_def example_store_def
      set_element_original_def push_component_def overwrite_def value_at_def correction_at_def
      components_at_def)


end

